(* ===== verification/Prelude.thy ===== *)
theory Prelude
  imports Main "HOL-Library.AList" "HOL-Library.Sublist"
begin

text \<open>
  Shared vocabulary of the development.  Go maps are association lists with distinct keys
  (\<open>gmap\<close>), so that their size (Go's \<open>len\<close>) is the length of the list and every operation
  evaluates.  Errors are the left summand of \<open>'e + 'a\<close>.  The collections \<open>gmap_simps\<close> and
  \<open>str_simps\<close> gather the facts that the component proofs rewrite with.
\<close>

named_theorems gmap_simps \<open>lookup and key facts of association lists\<close>
named_theorems str_simps \<open>facts on byte strings\<close>

type_synonym ('k, 'v) gmap = "('k \<times> 'v) list"

abbreviation lookup :: "('k, 'v) gmap \<Rightarrow> 'k \<Rightarrow> 'v option" where
  "lookup m k \<equiv> map_of m k"

abbreviation keys :: "('k, 'v) gmap \<Rightarrow> 'k list" where
  "keys m \<equiv> map fst m"

definition gmap_ok :: "('k, 'v) gmap \<Rightarrow> bool" where
  "gmap_ok m \<longleftrightarrow> distinct (keys m)"

definition put :: "'k \<Rightarrow> 'v \<Rightarrow> ('k, 'v) gmap \<Rightarrow> ('k, 'v) gmap" where
  "put k v m = AList.update k v m"

text \<open>The Go idiom \<open>for k, v := range m { if p(v) { delete(m, k) } }\<close>.\<close>

definition delete_if :: "('v \<Rightarrow> bool) \<Rightarrow> ('k, 'v) gmap \<Rightarrow> ('k, 'v) gmap" where
  "delete_if p m = filter (\<lambda>kv. \<not> p (snd kv)) m"

lemma lookup_put [gmap_simps, simp]: "lookup (put k v m) j = (if j = k then Some v else lookup m j)"
  by (simp add: put_def update_conv')

lemma lookup_put_fun [gmap_simps]: "lookup (put k v m) = (lookup m)(k \<mapsto> v)"
  by (rule ext) simp

lemma keys_put [gmap_simps]: "set (keys (put k v m)) = insert k (set (keys m))"
  unfolding put_def by (induction m) auto

lemma gmap_ok_put [gmap_simps, intro]: "gmap_ok m \<Longrightarrow> gmap_ok (put k v m)"
  by (simp add: gmap_ok_def put_def distinct_update)

lemma gmap_ok_Nil [gmap_simps, simp]: "gmap_ok []"
  by (simp add: gmap_ok_def)

lemma length_put_le: "length (put k v m) \<le> Suc (length m)"
  unfolding put_def by (induction m) auto

lemma length_put [gmap_simps]:
  "length (put k v m) = (if k \<in> set (keys m) then length m else Suc (length m))"
  unfolding put_def by (induction m) auto

lemma lookup_delete_if [gmap_simps]:
  "gmap_ok m \<Longrightarrow> lookup (delete_if p m) k =
     (case lookup m k of None \<Rightarrow> None | Some v \<Rightarrow> if p v then None else Some v)"
  unfolding gmap_ok_def delete_if_def
proof (induction m)
  case Nil
  then show ?case by simp
next
  case (Cons kv m)
  have none: "k \<notin> fst ` set m \<Longrightarrow> map_of (filter (\<lambda>kv. \<not> p (snd kv)) m) k = None"
    by (force simp: map_of_eq_None_iff)
  from Cons show ?case
    by (cases kv) (auto simp: none map_of_eq_None_iff)
qed

lemma gmap_ok_delete_if [gmap_simps, intro]: "gmap_ok m \<Longrightarrow> gmap_ok (delete_if p m)"
  by (auto simp: gmap_ok_def delete_if_def intro: distinct_map_filter)

lemma length_delete_if_le: "length (delete_if p m) \<le> length m"
  by (simp add: delete_if_def)

lemma in_keys_lookup: "k \<in> set (keys m) \<longleftrightarrow> (\<exists>v. lookup m k = Some v)"
  by (induction m) auto

lemma lookup_key_in [gmap_simps]: "lookup m k = Some v \<Longrightarrow> k \<in> set (keys m)"
  by (simp add: in_keys_lookup del: set_map)

text \<open>Splitting a list at the first element that fails a test.\<close>

lemma takeWhile_stop: "\<forall>x \<in> set xs. P x \<Longrightarrow> \<not> P y \<Longrightarrow> takeWhile P (xs @ y # ys) = xs"
  by (induction xs) auto

lemma dropWhile_stop: "\<forall>x \<in> set xs. P x \<Longrightarrow> \<not> P y \<Longrightarrow> dropWhile P (xs @ y # ys) = y # ys"
  by (induction xs) auto

lemma find_SomeD: "find P xs = Some x \<Longrightarrow> x \<in> set xs \<and> P x"
  by (induction xs) (auto split: if_splits)

end
