(* ===== verification/Go_Strings.thy ===== *)
theory Go_Strings
  imports Prelude
begin

text \<open>
  The parts of Go's \<open>strings\<close>, \<open>strconv\<close>, \<open>fmt\<close>, \<open>bufio\<close> and \<open>encoding/hex\<close> packages that the
  sources use, on byte strings (a Go \<open>string\<close> is a byte sequence, a \<open>char\<close> is a byte).  White
  space is Unicode white space, recognised by its UTF-8 encodings.  Case mapping is exact on
  ASCII strings; the mapping of other strings is the table argument \<open>uni\<close>, because Go's Unicode
  tables are generated data.
\<close>

section \<open>Bytes, searching and cutting\<close>

abbreviation newline :: char where
  "newline \<equiv> CHR 0x0A"

definition HasPrefix :: "string \<Rightarrow> string \<Rightarrow> bool" where
  "HasPrefix s p \<longleftrightarrow> take (length p) s = p"

definition HasSuffix :: "string \<Rightarrow> string \<Rightarrow> bool" where
  "HasSuffix s p \<longleftrightarrow> HasPrefix (rev s) (rev p)"

definition TrimPrefix :: "string \<Rightarrow> string \<Rightarrow> string" where
  "TrimPrefix s p = (if HasPrefix s p then drop (length p) s else s)"

text \<open>\<open>s[:strings.Index(s, c)]\<close> and \<open>s[strings.Index(s, c)+1:]\<close> for a byte \<open>c\<close> that occurs.\<close>

definition before :: "char \<Rightarrow> string \<Rightarrow> string" where
  "before c s = takeWhile (\<lambda>x. x \<noteq> c) s"

definition after :: "char \<Rightarrow> string \<Rightarrow> string" where
  "after c s = tl (dropWhile (\<lambda>x. x \<noteq> c) s)"

text \<open>\<open>s[:strings.LastIndex(s, c)]\<close> and \<open>s[strings.LastIndex(s, c)+1:]\<close>.\<close>

definition before_last :: "char \<Rightarrow> string \<Rightarrow> string" where
  "before_last c s = rev (after c (rev s))"

definition after_last :: "char \<Rightarrow> string \<Rightarrow> string" where
  "after_last c s = rev (before c (rev s))"

text \<open>\<open>strings.Index\<close> for a string.\<close>

fun Index :: "string \<Rightarrow> string \<Rightarrow> nat option" where
  "Index [] p = (if p = [] then Some 0 else None)"
| "Index (c # s) p = (if HasPrefix (c # s) p then Some 0 else map_option Suc (Index s p))"

definition Contains :: "string \<Rightarrow> string \<Rightarrow> bool" where
  "Contains s p \<longleftrightarrow> Index s p \<noteq> None"

definition ContainsAny :: "string \<Rightarrow> string \<Rightarrow> bool" where
  "ContainsAny s cs \<longleftrightarrow> list_ex (\<lambda>c. c \<in> set cs) s"

text \<open>\<open>strings.Cut\<close> at a byte: the third component says whether it was found.\<close>

definition Cut :: "string \<Rightarrow> char \<Rightarrow> string \<times> string \<times> bool" where
  "Cut s c = (if c \<in> set s then (before c s, after c s, True) else (s, [], False))"

text \<open>\<open>strings.Split\<close> at a byte: never empty.\<close>

fun Split :: "string \<Rightarrow> char \<Rightarrow> string list" where
  "Split [] c = [[]]"
| "Split (x # xs) c =
     (if x = c then [] # Split xs c
      else (case Split xs c of [] \<Rightarrow> [[x]] | w # ws \<Rightarrow> (x # w) # ws))"

fun Join :: "string list \<Rightarrow> string \<Rightarrow> string" where
  "Join [] sep = []"
| "Join [w] sep = w"
| "Join (w # ws) sep = w @ sep @ Join ws sep"

text \<open>\<open>strings.TrimRight\<close> with a one-byte cut set.\<close>

definition TrimRightByte :: "string \<Rightarrow> char \<Rightarrow> string" where
  "TrimRightByte s c = rev (dropWhile (\<lambda>x. x = c) (rev s))"

definition Repeat :: "string \<Rightarrow> nat \<Rightarrow> string" where
  "Repeat s n = concat (replicate n s)"

lemma Split_nonempty [simp]: "Split s c \<noteq> []"
  by (induction s c rule: Split.induct) (auto split: list.splits)

lemma Join_Cons: "ws \<noteq> [] \<Longrightarrow> Join (w # ws) sep = w @ sep @ Join ws sep"
  by (cases ws) auto

lemma Split_no_sep: "c \<notin> set s \<Longrightarrow> Split s c = [s]"
  by (induction s) auto

lemma Split_append_sep [str_simps]: "c \<notin> set w \<Longrightarrow> Split (w @ c # s) c = w # Split s c"
  by (induction w) (auto split: list.splits)

lemma Split_Join: "ws \<noteq> [] \<Longrightarrow> \<forall>w \<in> set ws. c \<notin> set w \<Longrightarrow> Split (Join ws [c]) c = ws"
proof (induction ws)
  case Nil
  then show ?case by simp
next
  case (Cons w ws)
  then show ?case
    by (cases "ws = []") (auto simp: Split_no_sep Join_Cons Split_append_sep)
qed

lemma Join_Split: "Join (Split s c) [c] = s"
proof (induction s c rule: Split.induct)
  case (1 c)
  show ?case by simp
next
  case (2 x xs c)
  show ?case
  proof (cases "x = c")
    case True
    with 2 show ?thesis by (simp add: Join_Cons)
  next
    case False
    obtain w ws where ws: "Split xs c = w # ws"
      by (cases "Split xs c") auto
    with 2 False show ?thesis
      by (cases "ws = []") (auto simp: Join_Cons)
  qed
qed

lemma Split_parts_no_sep: "w \<in> set (Split s c) \<Longrightarrow> c \<notin> set w"
  by (induction s c arbitrary: w rule: Split.induct) (auto split: if_splits list.splits)

lemma HasPrefix_drop: "HasPrefix s p \<Longrightarrow> p @ drop (length p) s = s"
  using append_take_drop_id [of "length p" s] by (simp only: HasPrefix_def)

lemma before_after: "c \<in> set s \<Longrightarrow> before c s @ c # after c s = s"
  by (induction s) (auto simp: before_def after_def)

lemma before_append [str_simps]: "c \<notin> set w \<Longrightarrow> before c (w @ c # s) = w"
  unfolding before_def by (rule takeWhile_stop) auto

lemma after_append [str_simps]: "c \<notin> set w \<Longrightarrow> after c (w @ c # s) = s"
  unfolding after_def by (subst dropWhile_stop) auto

lemma before_none [str_simps]: "c \<notin> set s \<Longrightarrow> before c s = s"
  unfolding before_def by (rule takeWhile_eq_all_conv [THEN iffD2]) auto

lemma Cut_append [str_simps]: "c \<notin> set k \<Longrightarrow> Cut (k @ c # v) c = (k, v, True)"
  by (simp add: Cut_def before_append after_append)

lemma before_no_sep [simp]: "c \<notin> set (before c s)"
  unfolding before_def by (auto dest: set_takeWhileD)

lemma HasPrefix_append [str_simps, simp]: "HasPrefix (p @ s) p"
  by (simp add: HasPrefix_def)

lemma HasPrefix_prefix: "HasPrefix s p \<longleftrightarrow> prefix p s"
  by (metis HasPrefix_def append_eq_conv_conj prefix_def)

lemma TrimPrefix_append [str_simps, simp]: "TrimPrefix (p @ s) p = s"
  by (simp add: TrimPrefix_def)

section \<open>White space\<close>

text \<open>
  The UTF-8 encodings of the runes of \<open>unicode.IsSpace\<close>: U+0009 to U+000D, U+0020, U+0085,
  U+00A0, U+1680, U+2000 to U+200A, U+2028, U+2029, U+202F, U+205F, U+3000.
\<close>

definition space_encodings :: "string list" where
  "space_encodings =
    [[CHR 0x09], [CHR 0x0A], [CHR 0x0B], [CHR 0x0C], [CHR 0x0D], [CHR 0x20],
     [CHR 0xC2, CHR 0x85], [CHR 0xC2, CHR 0xA0], [CHR 0xE1, CHR 0x9A, CHR 0x80],
     [CHR 0xE2, CHR 0x80, CHR 0x80], [CHR 0xE2, CHR 0x80, CHR 0x81],
     [CHR 0xE2, CHR 0x80, CHR 0x82], [CHR 0xE2, CHR 0x80, CHR 0x83],
     [CHR 0xE2, CHR 0x80, CHR 0x84], [CHR 0xE2, CHR 0x80, CHR 0x85],
     [CHR 0xE2, CHR 0x80, CHR 0x86], [CHR 0xE2, CHR 0x80, CHR 0x87],
     [CHR 0xE2, CHR 0x80, CHR 0x88], [CHR 0xE2, CHR 0x80, CHR 0x89],
     [CHR 0xE2, CHR 0x80, CHR 0x8A], [CHR 0xE2, CHR 0x80, CHR 0xA8],
     [CHR 0xE2, CHR 0x80, CHR 0xA9], [CHR 0xE2, CHR 0x80, CHR 0xAF],
     [CHR 0xE2, CHR 0x81, CHR 0x9F], [CHR 0xE3, CHR 0x80, CHR 0x80]]"

text \<open>The length of the white-space rune at the start (end) of a string, 0 if there is none.\<close>

definition space_at :: "string \<Rightarrow> nat" where
  "space_at s = (case find (\<lambda>w. HasPrefix s w) space_encodings of None \<Rightarrow> 0 | Some w \<Rightarrow> length w)"

definition space_end :: "string \<Rightarrow> nat" where
  "space_end s = (case find (\<lambda>w. HasSuffix s w) space_encodings of None \<Rightarrow> 0 | Some w \<Rightarrow> length w)"

function TrimLeftSpace :: "string \<Rightarrow> string" where
  "TrimLeftSpace s =
     (if s = [] \<or> space_at s = 0 then s else TrimLeftSpace (drop (space_at s) s))"
  by pat_completeness auto
termination
  by (relation "measure length") auto

function TrimRightSpace :: "string \<Rightarrow> string" where
  "TrimRightSpace s =
     (if s = [] \<or> space_end s = 0 then s else TrimRightSpace (take (length s - space_end s) s))"
  by pat_completeness auto
termination
  by (relation "measure length") auto

definition TrimSpace :: "string \<Rightarrow> string" where
  "TrimSpace s = TrimRightSpace (TrimLeftSpace s)"

text \<open>\<open>strings.Fields\<close>: the maximal runs of bytes at which no white-space rune starts.\<close>

fun take_word :: "string \<Rightarrow> string \<times> string" where
  "take_word [] = ([], [])"
| "take_word (c # s) =
     (if space_at (c # s) > 0 then ([], c # s)
      else (let (w, r) = take_word s in (c # w, r)))"

lemma take_word_append: "fst (take_word s) @ snd (take_word s) = s"
  by (induction s) (auto simp: Let_def split: prod.splits)

lemma take_word_shorter:
  assumes "s \<noteq> []" and "space_at s = 0"
  shows "length (snd (take_word s)) < length s"
proof -
  obtain c t where s: "s = c # t" using assms(1) by (cases s) auto
  have "length (snd (take_word t)) \<le> length t"
    by (metis take_word_append length_append le_add2)
  with s assms(2) show ?thesis by (auto simp: Let_def split: prod.splits)
qed

function Fields :: "string \<Rightarrow> string list" where
  "Fields s =
     (if s = [] then []
      else if space_at s > 0 then Fields (drop (space_at s) s)
      else fst (take_word s) # Fields (snd (take_word s)))"
  by pat_completeness auto
termination
  by (relation "measure length") (auto simp: take_word_shorter)

declare TrimLeftSpace.simps [simp del] TrimRightSpace.simps [simp del] Fields.simps [simp del]

section \<open>Facts on white space\<close>

text \<open>No white-space rune starts inside the word, so \<open>Fields\<close> keeps it whole.\<close>

fun spaceless :: "string \<Rightarrow> bool" where
  "spaceless [] = True"
| "spaceless (c # s) = (space_at (c # s) = 0 \<and> spaceless s)"

text \<open>Bytes that start no white-space rune.\<close>

definition plain_char :: "char \<Rightarrow> bool" where
  "plain_char c \<longleftrightarrow> 
     c \<notin> {CHR 0x09, CHR 0x0A, CHR 0x0B, CHR 0x0C, CHR 0x0D, CHR 0x20, CHR 0xC2, CHR 0xE1,
          CHR 0xE2, CHR 0xE3}"

definition trimmed :: "string \<Rightarrow> bool" where
  "trimmed s \<longleftrightarrow> s = [] \<or> space_at s = 0 \<and> space_end s = 0"

lemma HasPrefix_Nil [simp]: "HasPrefix s []"
  by (simp add: HasPrefix_def)

lemma HasPrefix_Cons [simp]:
  "HasPrefix [] (d # p) = False"
  "HasPrefix (c # s) (d # p) = (c = d \<and> HasPrefix s p)"
  by (auto simp: HasPrefix_def)

lemma HasPrefix_append_left: "HasPrefix s p \<Longrightarrow> HasPrefix (s @ t) p"
  by (simp add: HasPrefix_prefix)

lemma find_length_0:
  assumes "\<forall>w \<in> set ws. w \<noteq> []"
  shows "(case find P ws of None \<Rightarrow> 0 | Some w \<Rightarrow> length w) = 0 \<longleftrightarrow> (\<forall>w \<in> set ws. \<not> P w)"
  using assms by (induction ws) auto

lemma space_encodings_nonempty: "w \<in> set space_encodings \<Longrightarrow> w \<noteq> []"
  by (auto simp: space_encodings_def)

lemma space_at_0: "space_at s = 0 \<longleftrightarrow> (\<forall>w \<in> set space_encodings. \<not> HasPrefix s w)"
  unfolding space_at_def by (rule find_length_0) (simp add: space_encodings_nonempty)

lemma space_end_0: "space_end s = 0 \<longleftrightarrow> (\<forall>w \<in> set space_encodings. \<not> HasSuffix s w)"
  unfolding space_end_def by (rule find_length_0) (simp add: space_encodings_nonempty)

lemma space_at_blank [simp]: "space_at (CHR '' '' # s) = 1"
  by (simp add: space_at_def space_encodings_def)

lemma space_at_Nil [simp]: "space_at [] = 0"
  by (simp add: space_at_def space_encodings_def)

lemma space_at_plain: "plain_char c \<Longrightarrow> space_at (c # s) = 0"
  by (auto simp: space_at_0 plain_char_def space_encodings_def)

lemma spaceless_plain: "\<forall>c \<in> set w. plain_char c \<Longrightarrow> spaceless w"
  by (induction w) (auto simp: space_at_plain)

lemma spaceless_drop: "spaceless w \<Longrightarrow> i < length w \<Longrightarrow> space_at (drop i w) = 0"
  by (induction w arbitrary: i) (auto simp: drop_Cons split: nat.splits)

lemma HasPrefix_stop:
  "HasPrefix (u @ c # r) e \<Longrightarrow> c \<notin> set e \<Longrightarrow> HasPrefix u e"
proof (induction u arbitrary: e)
  case Nil
  then show ?case by (cases e) auto
next
  case (Cons x u)
  then show ?case by (cases e) auto
qed

lemma blank_encoding: "w \<in> set space_encodings \<Longrightarrow> CHR '' '' \<in> set w \<Longrightarrow> w = '' ''"
  by (auto simp: space_encodings_def)

lemma space_at_before_blank:
  assumes "space_at u = 0" and "u \<noteq> []"
  shows "space_at (u @ CHR '' '' # r) = 0"
proof -
  have "\<not> HasPrefix (u @ CHR '' '' # r) w" if w: "w \<in> set space_encodings" for w
  proof (cases "CHR '' '' \<in> set w")
    case True
    with w have "w = '' ''" by (rule blank_encoding)
    moreover have "\<not> HasPrefix u w"
      using assms(1) w by (simp add: space_at_0)
    ultimately show ?thesis using assms(2) by (cases u) auto
  next
    case False
    with w assms(1) show ?thesis by (auto simp: space_at_0 dest: HasPrefix_stop)
  qed
  then show ?thesis by (simp add: space_at_0)
qed

lemma space_at_prefix: "space_at (u @ r) = 0 \<Longrightarrow> space_at u = 0"
  by (auto simp: space_at_0 dest: HasPrefix_append_left)

lemma HasSuffix_append_right: "HasSuffix s w \<Longrightarrow> HasSuffix (u @ s) w"
  by (simp add: HasSuffix_def HasPrefix_append_left)

lemma space_end_suffix: "space_end (u @ s) = 0 \<Longrightarrow> space_end s = 0"
  by (auto simp: space_end_0 dest: HasSuffix_append_right)

lemma HasSuffix_drop:
  "HasSuffix s w \<Longrightarrow> HasPrefix (drop (length s - length w) s) w \<and> length w \<le> length s"
  unfolding HasSuffix_def HasPrefix_prefix
  by (metis suffix_to_prefix suffix_length_le suffix_take append_eq_conv_conj length_drop
      prefix_order.refl append_take_drop_id)

lemma space_end_spaceless:
  assumes "spaceless w" and "w \<noteq> []"
  shows "space_end w = 0"
proof -
  have "\<not> HasSuffix w e" if e: "e \<in> set space_encodings" for e
  proof
    assume "HasSuffix w e"
    then have p: "HasPrefix (drop (length w - length e) w) e" and l: "length e \<le> length w"
      by (auto dest: HasSuffix_drop)
    from e have "e \<noteq> []" by (rule space_encodings_nonempty)
    with assms l have "space_at (drop (length w - length e) w) = 0"
      by (intro spaceless_drop) auto
    with p e show False by (simp add: space_at_0)
  qed
  then show ?thesis by (simp add: space_end_0)
qed

lemma space_end_after_blank:
  assumes "spaceless w" and "w \<noteq> []"
  shows "space_end (u @ CHR '' '' # w) = 0"
proof -
  have "\<not> HasSuffix (u @ CHR '' '' # w) e" if e: "e \<in> set space_encodings" for e
  proof (cases "CHR '' '' \<in> set e")
    case True
    with e have "e = '' ''" by (rule blank_encoding)
    moreover have "\<not> HasSuffix w e"
      using space_end_spaceless [OF assms] e by (simp add: space_end_0)
    ultimately show ?thesis
      using assms(2) by (cases w rule: rev_cases) (auto simp: HasSuffix_def)
  next
    case False
    have "\<not> HasSuffix w e"
      using space_end_spaceless [OF assms] e by (simp add: space_end_0)
    with False show ?thesis
      by (auto simp: HasSuffix_def dest: HasPrefix_stop)
  qed
  then show ?thesis by (simp add: space_end_0)
qed

section \<open>Trimming and splitting into fields\<close>

lemma TrimLeft_id [simp]: "space_at s = 0 \<Longrightarrow> TrimLeftSpace s = s"
  by (subst TrimLeftSpace.simps) simp

lemma TrimRight_id [simp]: "space_end s = 0 \<Longrightarrow> TrimRightSpace s = s"
  by (subst TrimRightSpace.simps) simp

lemma TrimRight_Nil [simp]: "TrimRightSpace [] = []"
  by (simp add: TrimRightSpace.simps)

lemma TrimSpace_Nil [simp]: "TrimSpace [] = []"
  by (simp add: TrimSpace_def TrimLeftSpace.simps TrimRightSpace.simps)

lemma TrimSpace_id [str_simps]: "trimmed s \<Longrightarrow> TrimSpace s = s"
  by (auto simp: trimmed_def TrimSpace_def)

lemma space_at_TrimLeft: "TrimLeftSpace s \<noteq> [] \<Longrightarrow> space_at (TrimLeftSpace s) = 0"
proof (induction s rule: TrimLeftSpace.induct)
  case (1 s)
  then show ?case by (cases "s = [] \<or> space_at s = 0") (auto simp: TrimLeftSpace.simps [of s])
qed

lemma space_end_TrimRight: "TrimRightSpace s \<noteq> [] \<Longrightarrow> space_end (TrimRightSpace s) = 0"
proof (induction s rule: TrimRightSpace.induct)
  case (1 s)
  then show ?case by (cases "s = [] \<or> space_end s = 0") (auto simp: TrimRightSpace.simps [of s])
qed

lemma TrimRight_prefix: "\<exists>r. s = TrimRightSpace s @ r"
proof (induction s rule: TrimRightSpace.induct)
  case (1 s)
  show ?case
  proof (cases "s = [] \<or> space_end s = 0")
    case True
    then show ?thesis by (subst TrimRightSpace.simps) auto
  next
    case False
    let ?t = "take (length s - space_end s) s"
    from 1 False obtain r where "?t = TrimRightSpace ?t @ r" by auto
    then have "s = TrimRightSpace ?t @ r @ drop (length s - space_end s) s"
      by (metis append.assoc append_take_drop_id)
    moreover from False have "TrimRightSpace s = TrimRightSpace ?t"
      by (subst TrimRightSpace.simps) simp
    ultimately show ?thesis by metis
  qed
qed

lemma TrimLeft_suffix: "\<exists>r. s = r @ TrimLeftSpace s"
proof (induction s rule: TrimLeftSpace.induct)
  case (1 s)
  show ?case
  proof (cases "s = [] \<or> space_at s = 0")
    case True
    then show ?thesis by (subst TrimLeftSpace.simps) auto
  next
    case False
    let ?t = "drop (space_at s) s"
    from 1 False obtain r where "?t = r @ TrimLeftSpace ?t" by auto
    then have "s = (take (space_at s) s @ r) @ TrimLeftSpace ?t"
      by (metis append.assoc append_take_drop_id)
    moreover from False have "TrimLeftSpace s = TrimLeftSpace ?t"
      by (subst TrimLeftSpace.simps) simp
    ultimately show ?thesis by metis
  qed
qed

lemma trimmed_TrimSpace [simp, intro]: "trimmed (TrimSpace s)"
proof (cases "TrimSpace s = []")
  case True
  then show ?thesis by (simp add: trimmed_def)
next
  case False
  let ?l = "TrimLeftSpace s"
  obtain r where r: "?l = TrimRightSpace ?l @ r" using TrimRight_prefix by blast
  from False have e: "space_end (TrimSpace s) = 0"
    by (simp add: TrimSpace_def space_end_TrimRight)
  from False r have "?l \<noteq> []" by (auto simp: TrimSpace_def)
  then have "space_at ?l = 0" by (rule space_at_TrimLeft)
  with r have "space_at (TrimSpace s) = 0"
    by (metis TrimSpace_def space_at_prefix)
  with e show ?thesis by (simp add: trimmed_def)
qed

lemma TrimSpace_idem [simp]: "TrimSpace (TrimSpace s) = TrimSpace s"
  by (rule TrimSpace_id) simp

lemma TrimSpace_part: "\<exists>a b. s = a @ TrimSpace s @ b"
  unfolding TrimSpace_def by (metis TrimLeft_suffix TrimRight_prefix)

lemma set_TrimSpace: "set (TrimSpace s) \<subseteq> set s"
  by (metis TrimSpace_part set_append Un_upper2 Un_upper1 subset_trans)

lemma length_TrimSpace: "length (TrimSpace s) \<le> length s"
proof -
  obtain a b where "s = a @ TrimSpace s @ b" using TrimSpace_part by blast
  then show ?thesis by (metis length_append le_add1 le_add2 le_trans)
qed

lemma trimmed_spaceless: "spaceless w \<Longrightarrow> trimmed w"
  by (cases w) (auto simp: trimmed_def space_end_spaceless)

lemma TrimSpace_spaceless [str_simps]: "spaceless w \<Longrightarrow> TrimSpace w = w"
  by (simp add: TrimSpace_id trimmed_spaceless)

lemma take_word_blank: "spaceless w \<Longrightarrow> take_word (w @ CHR '' '' # r) = (w, CHR '' '' # r)"
proof (induction w)
  case Nil
  show ?case by simp
next
  case (Cons c w)
  then have "space_at ((c # w) @ CHR '' '' # r) = 0"
    by (intro space_at_before_blank) auto
  with Cons show ?case by simp
qed

lemma take_word_all: "spaceless w \<Longrightarrow> take_word w = (w, [])"
  by (induction w) auto

lemma Fields_word: "spaceless w \<Longrightarrow> w \<noteq> [] \<Longrightarrow> Fields w = [w]"
  by (cases w) (auto simp: Fields.simps take_word_all)

lemma Fields_blank: "Fields (CHR '' '' # r) = Fields r"
  by (subst Fields.simps) simp

lemma Fields_word_blank:
  assumes "spaceless w" and "w \<noteq> []"
  shows "Fields (w @ CHR '' '' # r) = w # Fields r"
proof -
  have "space_at (w @ CHR '' '' # r) = 0"
    using assms by (intro space_at_before_blank) (cases w; auto)+
  with assms show ?thesis
    by (subst Fields.simps) (simp add: take_word_blank Fields_blank)
qed

lemma Fields_Join:
  assumes "\<forall>w \<in> set ws. w \<noteq> [] \<and> spaceless w"
  shows "Fields (Join ws '' '') = ws"
  using assms
proof (induction ws)
  case Nil
  show ?case by (simp add: Fields.simps)
next
  case (Cons w ws)
  then show ?case
    by (cases "ws = []") (auto simp: Fields_word Join_Cons Fields_word_blank)
qed

lemma take_word_spaceless: "spaceless (fst (take_word s))"
proof (induction s)
  case Nil
  show ?case by simp
next
  case (Cons c s)
  have "space_at (c # s) = 0 \<Longrightarrow> space_at (c # fst (take_word s)) = 0"
    using space_at_prefix [of "c # fst (take_word s)" "snd (take_word s)"]
    by (simp add: take_word_append)
  with Cons show ?case by (auto simp: Let_def split: prod.splits)
qed

lemma Fields_spaceless: "w \<in> set (Fields s) \<Longrightarrow> w \<noteq> [] \<and> spaceless w"
proof (induction s rule: Fields.induct)
  case (1 s)
  have w0: "s \<noteq> [] \<Longrightarrow> space_at s = 0 \<Longrightarrow> fst (take_word s) \<noteq> []"
    by (cases s) (auto simp: Let_def split: prod.splits)
  from 1 w0 show ?case
    by (auto simp: Fields.simps [of s] take_word_spaceless split: if_splits)
qed

lemma set_Fields: "w \<in> set (Fields s) \<Longrightarrow> set w \<subseteq> set s"
proof (induction s rule: Fields.induct)
  case (1 s)
  have t: "set (fst (take_word s)) \<subseteq> set s" "set (snd (take_word s)) \<subseteq> set s"
    by (metis take_word_append set_append Un_upper1, metis take_word_append set_append Un_upper2)
  from 1 t show ?case
    by (auto simp: Fields.simps [of s] split: if_splits dest!: in_set_dropD)
qed

lemma trimmed_Join:
  assumes "\<forall>w \<in> set ws. w \<noteq> [] \<and> spaceless w"
  shows "trimmed (Join ws '' '')"
  using assms
proof (induction ws rule: rev_induct)
  case Nil
  show ?case by (simp add: trimmed_def)
next
  case (snoc w ws)
  show ?case
  proof (cases "ws = []")
    case True
    with snoc.prems show ?thesis by (simp add: trimmed_spaceless)
  next
    case False
    then have J: "Join (ws @ [w]) '' '' = Join ws '' '' @ CHR '' '' # w"
    proof (induction ws)
      case Nil
      then show ?case by simp
    next
      case (Cons v ws)
      then show ?case by (cases "ws = []") (auto simp: Join_Cons)
    qed
    from False snoc.prems obtain v vs where ws: "ws = v # vs" "v \<noteq> []" "spaceless v"
      by (cases ws) auto
    have ne: "Join ws '' '' \<noteq> []"
      using ws by (cases "vs = []") (auto simp: Join_Cons)
    with snoc have "space_at (Join ws '' '') = 0" by (simp add: trimmed_def)
    with ne have "space_at (Join ws '' '' @ CHR '' '' # w) = 0"
      by (intro space_at_before_blank)
    moreover have "space_end (Join ws '' '' @ CHR '' '' # w) = 0"
      using snoc.prems by (intro space_end_after_blank) auto
    ultimately show ?thesis by (simp add: trimmed_def J)
  qed
qed

end
