(* ===== verification/Go_Numbers.thy ===== *)
theory Go_Numbers
  imports Go_Strings
begin

text \<open>
  Numbers, hexadecimal text, case mapping, time and the line scanner of Go's standard library.
  A Go \<open>int\<close> or \<open>int64\<close> is an \<open>int\<close> in the 64-bit range with the wrap-around written out
  (\<open>wrap64\<close>).  An instant is the number of nanoseconds since the Unix epoch; Go's zero
  \<open>time.Time\<close> (1 January of year 1) is \<open>zero_time\<close>.
\<close>

section \<open>64-bit integers and time\<close>

definition wrap64 :: "int \<Rightarrow> int" where
  "wrap64 i = (i + 2 ^ 63) mod 2 ^ 64 - 2 ^ 63"

definition int64 :: "int \<Rightarrow> bool" where
  "int64 i \<longleftrightarrow> - (2 ^ 63) \<le> i \<and> i < 2 ^ 63"

text \<open>Go's \<open>/\<close> on signed integers truncates towards zero.\<close>

definition go_div :: "int \<Rightarrow> int \<Rightarrow> int" where
  "go_div a b = sgn a * sgn b * (\<bar>a\<bar> div \<bar>b\<bar>)"

type_synonym time = int
type_synonym duration = int

definition second :: duration where
  "second = 1000000000"

definition minute :: duration where
  "minute = 60 * second"

definition hour :: duration where
  "hour = 60 * minute"

definition zero_time :: time where
  "zero_time = - 62135596800 * second"

definition Unix :: "time \<Rightarrow> int" where
  "Unix t = t div second"

definition FromUnix :: "int \<Rightarrow> time" where
  "FromUnix s = s * second"

text \<open>\<open>t.Sub(u)\<close> saturates at the ends of \<open>time.Duration\<close>.\<close>

definition Sub :: "time \<Rightarrow> time \<Rightarrow> duration" where
  "Sub t u = max (- (2 ^ 63)) (min (2 ^ 63 - 1) (t - u))"

lemma wrap64_id [simp]: "int64 i \<Longrightarrow> wrap64 i = i"
  by (simp add: wrap64_def int64_def)

lemma int64_wrap64: "int64 (wrap64 i)"
proof -
  have "0 \<le> (i + 2 ^ 63) mod 2 ^ 64" "(i + 2 ^ 63) mod 2 ^ 64 < (2::int) ^ 64"
    by simp_all
  then show ?thesis unfolding wrap64_def int64_def by simp
qed

lemma go_div_nonneg: "0 \<le> a \<Longrightarrow> 0 < b \<Longrightarrow> go_div a b = a div b"
  by (cases "a = 0") (auto simp: go_div_def)

lemma Unix_FromUnix [simp]: "Unix (FromUnix s) = s"
  by (simp add: Unix_def FromUnix_def second_def)

lemma Sub_le_iff: "0 \<le> d \<Longrightarrow> d < 2 ^ 63 - 1 \<Longrightarrow> Sub t u \<le> d \<longleftrightarrow> t - u \<le> d"
  by (auto simp: Sub_def max_def min_def)

section \<open>Decimal text\<close>

definition digit_char :: "nat \<Rightarrow> char" where
  "digit_char n = ''0123456789'' ! n"

definition digit_val :: "char \<Rightarrow> nat option" where
  "digit_val c =
     (let n = (of_char c :: nat) in if 48 \<le> n \<and> n \<le> 57 then Some (n - 48) else None)"

fun dec_digits :: "nat \<Rightarrow> string" where
  "dec_digits n =
     (if n < 10 then [digit_char n] else dec_digits (n div 10) @ [digit_char (n mod 10)])"

declare dec_digits.simps [simp del]

text \<open>\<open>strconv.FormatInt(i, 10)\<close>, \<open>strconv.Itoa\<close> and the \<open>%d\<close> verb.\<close>

definition FormatInt :: "int \<Rightarrow> string" where
  "FormatInt i = (if i < 0 then CHR ''-'' # dec_digits (nat (- i)) else dec_digits (nat i))"

fun digits_value :: "nat \<Rightarrow> string \<Rightarrow> nat option" where
  "digits_value a [] = Some a"
| "digits_value a (c # s) =
     (case digit_val c of None \<Rightarrow> None | Some d \<Rightarrow> digits_value (10 * a + d) s)"

definition ParseUint10 :: "string \<Rightarrow> nat option" where
  "ParseUint10 s = (if s = [] then None else digits_value 0 s)"

definition int64_option :: "int \<Rightarrow> int option" where
  "int64_option i = (if int64 i then Some i else None)"

text \<open>
  \<open>strconv.ParseInt(s, 10, 64)\<close> and \<open>strconv.Atoi(s)\<close>: an optional sign, then one or more
  digits; \<open>None\<close> is the error (syntax or range).
\<close>

definition ParseInt :: "string \<Rightarrow> int option" where
  "ParseInt s =
     (let neg = HasPrefix s ''-'';
          ds = (if neg \<or> HasPrefix s ''+'' then tl s else s)
      in case ParseUint10 ds of None \<Rightarrow> None
         | Some n \<Rightarrow> int64_option (if neg then - int n else int n))"

abbreviation is_digit :: "char \<Rightarrow> bool" where
  "is_digit c \<equiv> digit_val c \<noteq> None"

text \<open>
  \<open>fmt.Sscanf(s, "%d", &n)\<close>: skips white space (a newline is an error), accepts a sign, reads the
  longest run of digits and ignores what follows.  \<open>None\<close> is the error, in which \<open>n\<close> keeps its
  value.
\<close>

function skip_blanks :: "string \<Rightarrow> string option" where
  "skip_blanks s =
     (if s = [] \<or> space_at s = 0 then Some s
      else if hd s = newline then None
      else skip_blanks (drop (space_at s) s))"
  by pat_completeness auto
termination
  by (relation "measure length") auto

declare skip_blanks.simps [simp del]

definition Sscanf_d :: "string \<Rightarrow> int option" where
  "Sscanf_d s =
     (case skip_blanks s of None \<Rightarrow> None
      | Some t \<Rightarrow>
         (let neg = HasPrefix t ''-'';
              ds = takeWhile is_digit (if neg \<or> HasPrefix t ''+'' then tl t else t)
          in case ParseUint10 ds of None \<Rightarrow> None
             | Some n \<Rightarrow> int64_option (if neg then - int n else int n)))"

lemma digit_cases:
  fixes d :: nat
  assumes "d < 10"
  shows "d \<in> {0, 1, 2, 3, 4, 5, 6, 7, 8, 9}"
  using assms by auto

lemma digit_val_char [simp]: "d < 10 \<Longrightarrow> digit_val (digit_char d) = Some d"
  by (drule digit_cases) (auto simp: digit_val_def digit_char_def)

lemma digits_value_snoc:
  "digits_value a s = Some n \<Longrightarrow> d < 10 \<Longrightarrow>
     digits_value a (s @ [digit_char d]) = Some (10 * n + d)"
  by (induction s arbitrary: a) (auto split: option.splits)

lemma digits_value_dec: "digits_value 0 (dec_digits n) = Some n"
proof (induction n rule: dec_digits.induct)
  case (1 n)
  show ?case
  proof (cases "n < 10")
    case True
    then show ?thesis by (simp add: dec_digits.simps)
  next
    case False
    with 1 have "digits_value 0 (dec_digits (n div 10) @ [digit_char (n mod 10)])
      = Some (10 * (n div 10) + n mod 10)"
      by (intro digits_value_snoc) auto
    with False show ?thesis by (simp add: dec_digits.simps [of n])
  qed
qed

lemma dec_digits_nonempty [simp]: "dec_digits n \<noteq> []"
  by (subst dec_digits.simps) simp

lemma dec_digits_chars: "c \<in> set (dec_digits n) \<Longrightarrow> \<exists>d<10. c = digit_char d"
proof (induction n rule: dec_digits.induct)
  case (1 n)
  show ?case
  proof (cases "n < 10")
    case True
    with 1 show ?thesis by (auto simp: dec_digits.simps [of n])
  next
    case False
    with 1 have "c \<in> set (dec_digits (n div 10)) \<or> c = digit_char (n mod 10)"
      by (auto simp: dec_digits.simps [of n])
    moreover have "n mod 10 < 10" by simp
    ultimately show ?thesis using "1.IH" [OF False] by blast
  qed
qed

lemma digit_char_in: "d < 10 \<Longrightarrow> digit_char d \<in> set ''0123456789''"
  unfolding digit_char_def by (rule nth_mem) simp

lemma dec_digits_set: "set (dec_digits n) \<subseteq> set ''0123456789''"
  using dec_digits_chars digit_char_in by blast

lemma ParseUint10_dec [simp]: "ParseUint10 (dec_digits n) = Some n"
  by (simp add: ParseUint10_def digits_value_dec)

lemma dec_no_sign:
  "HasPrefix (dec_digits n) ''-'' = False" "HasPrefix (dec_digits n) ''+'' = False"
proof -
  obtain c t where ct: "dec_digits n = c # t" by (cases "dec_digits n") auto
  then have "c \<in> set ''0123456789''" using dec_digits_set [of n] by auto
  then have "c \<noteq> CHR ''-'' \<and> c \<noteq> CHR ''+''" by auto
  with ct show "HasPrefix (dec_digits n) ''-'' = False" "HasPrefix (dec_digits n) ''+'' = False"
    by simp_all
qed

lemma ParseInt_dec: "ParseInt (dec_digits n) = int64_option (int n)"
  by (simp add: ParseInt_def Let_def dec_no_sign)

lemma ParseInt_neg_dec: "ParseInt (CHR ''-'' # dec_digits n) = int64_option (- int n)"
  by (simp add: ParseInt_def Let_def)

lemma int64_optionI: "int64 i \<Longrightarrow> int64_option i = Some i"
  by (simp add: int64_option_def)

theorem ParseInt_FormatInt:
  assumes "int64 i"
  shows "ParseInt (FormatInt i) = Some i"
proof (cases "i < 0")
  case True
  then have "- int (nat (- i)) = i" by simp
  with True assms show ?thesis
    by (simp only: FormatInt_def ParseInt_neg_dec int64_optionI if_True)
next
  case False
  then have "int (nat i) = i" by simp
  with False assms show ?thesis
    by (simp only: FormatInt_def ParseInt_dec int64_optionI if_False)
qed

lemma FormatInt_set: "set (FormatInt i) \<subseteq> set ''-0123456789''"
proof -
  have "set (dec_digits n) \<subseteq> set ''-0123456789''" for n
    by (rule order_trans [OF dec_digits_set]) simp
  then show ?thesis by (simp add: FormatInt_def)
qed

lemma FormatInt_nonempty [simp]: "FormatInt i \<noteq> []"
  by (simp add: FormatInt_def)

lemma FormatInt_plain: "\<forall>c \<in> set (FormatInt i). plain_char c"
proof
  fix c assume "c \<in> set (FormatInt i)"
  with FormatInt_set have "c \<in> set ''-0123456789''" by blast
  then show "plain_char c" by (auto simp: plain_char_def)
qed

lemma FormatInt_spaceless [simp]: "spaceless (FormatInt i)"
  by (rule spaceless_plain) (rule FormatInt_plain)

lemma dec_digits_is_digit: "c \<in> set (dec_digits n) \<Longrightarrow> is_digit c"
  by (auto dest: dec_digits_chars)

lemma skip_blanks_id: "space_at s = 0 \<Longrightarrow> skip_blanks s = Some s"
  by (subst skip_blanks.simps) simp

lemma takeWhile_digits: "takeWhile is_digit (dec_digits n) = dec_digits n"
  by (simp add: takeWhile_eq_all_conv dec_digits_is_digit del: not_None_eq)

theorem Sscanf_FormatInt: "int64 i \<Longrightarrow> Sscanf_d (FormatInt i) = Some i"
proof -
  assume i: "int64 i"
  have "space_at (FormatInt i) = 0"
    using FormatInt_spaceless [of i] by (cases "FormatInt i") auto
  with i show ?thesis
    by (auto simp: Sscanf_d_def skip_blanks_id FormatInt_def Let_def dec_no_sign
        takeWhile_digits int64_option_def simp del: not_None_eq)
qed

lemma FormatInt_inj: "int64 i \<Longrightarrow> int64 j \<Longrightarrow> FormatInt i = FormatInt j \<longleftrightarrow> i = j"
  by (metis ParseInt_FormatInt option.inject)

lemma digits_value_digits: "digits_value a s = Some n \<Longrightarrow> \<forall>c \<in> set s. is_digit c"
  by (induction a s arbitrary: n rule: digits_value.induct) (auto split: option.splits)

lemma is_digit_plain:
  assumes "is_digit c"
  shows "plain_char c"
proof (rule ccontr)
  assume "\<not> plain_char c"
  then have "digit_val c = None" unfolding plain_char_def by (auto simp: digit_val_def)
  with assms show False by blast
qed

lemma ParseInt_Sscanf:
  assumes "ParseInt v = Some n"
  shows "Sscanf_d v = Some n"
proof -
  let ?ds = "if HasPrefix v ''-'' \<or> HasPrefix v ''+'' then tl v else v"
  from assms obtain k where k: "digits_value 0 ?ds = Some k" "?ds \<noteq> []"
    by (auto simp: ParseInt_def ParseUint10_def Let_def split: if_splits option.splits)
  have digits: "\<forall>c \<in> set ?ds. is_digit c" by (rule digits_value_digits [OF k(1)])
  then have "takeWhile is_digit ?ds = ?ds" by (simp only: takeWhile_eq_all_conv)
  moreover have "space_at v = 0"
  proof (cases v)
    case (Cons c w)
    have "plain_char c"
    proof (cases "HasPrefix v ''-'' \<or> HasPrefix v ''+''")
      case True
      with Cons have "c = CHR ''-'' \<or> c = CHR ''+''" by (auto simp: HasPrefix_def)
      then show ?thesis by (auto simp: plain_char_def)
    next
      case False
      with digits Cons have "is_digit c" by simp
      then show ?thesis by (rule is_digit_plain)
    qed
    with Cons show ?thesis by (simp add: space_at_plain)
  qed (use k(2) in simp)
  ultimately have "Sscanf_d v = ParseInt v"
    unfolding Sscanf_d_def ParseInt_def Let_def by (simp only: skip_blanks_id option.case)
  with assms show ?thesis by simp
qed

end
