(* ===== verification/Go_Text.thy ===== *)
theory Go_Text
  imports Go_Numbers
begin

text \<open>
  Hexadecimal text (\<open>encoding/hex\<close>), case mapping (\<open>strings.ToUpper\<close>, \<open>strings.ToLower\<close>) and the
  default line scanner of \<open>bufio\<close>.
\<close>

section \<open>Hexadecimal text\<close>

definition hex_char :: "nat \<Rightarrow> char" where
  "hex_char n = ''0123456789abcdef'' ! n"

definition hex_val :: "char \<Rightarrow> nat option" where
  "hex_val c =
     (let n = (of_char c :: nat)
      in if 48 \<le> n \<and> n \<le> 57 then Some (n - 48)
         else if 97 \<le> n \<and> n \<le> 102 then Some (n - 87)
         else if 65 \<le> n \<and> n \<le> 70 then Some (n - 55)
         else None)"

text \<open>\<open>hex.EncodeToString\<close>.\<close>

definition hex_byte :: "char \<Rightarrow> string" where
  "hex_byte c = (let n = (of_char c :: nat) in [hex_char (n div 16), hex_char (n mod 16)])"

definition EncodeHex :: "string \<Rightarrow> string" where
  "EncodeHex s = concat (map hex_byte s)"

text \<open>\<open>hex.DecodeString\<close>: \<open>None\<close> for an odd length or a byte that is no hex digit.\<close>

fun DecodeHex :: "string \<Rightarrow> string option" where
  "DecodeHex [] = Some []"
| "DecodeHex [c] = None"
| "DecodeHex (c # d # s) =
     (case (hex_val c, hex_val d) of
        (Some a, Some b) \<Rightarrow> map_option (\<lambda>t. char_of (16 * a + b) # t) (DecodeHex s)
      | _ \<Rightarrow> None)"

definition hex_digits :: string where
  "hex_digits = ''0123456789abcdef''"

lemma hex_char_in: "n < 16 \<Longrightarrow> hex_char n \<in> set hex_digits"
  unfolding hex_char_def hex_digits_def by (rule nth_mem) simp

lemma length_EncodeHex [simp]: "length (EncodeHex s) = 2 * length s"
  unfolding EncodeHex_def by (induction s) (auto simp: hex_byte_def Let_def)

lemma EncodeHex_set: "set (EncodeHex s) \<subseteq> set hex_digits"
proof -
  have "set (hex_byte c) \<subseteq> set hex_digits" for c
  proof -
    have "(of_char c :: nat) div 16 < 16" "(of_char c :: nat) mod 16 < 16"
      by (auto simp: less_mult_imp_div_less)
    then show ?thesis by (simp add: hex_byte_def Let_def hex_char_in)
  qed
  then show ?thesis unfolding EncodeHex_def by (auto simp only: set_concat set_map)
qed

lemma hex_cases:
  fixes d :: nat
  assumes "d < 16"
  shows "d \<in> {0, 1, 2, 3, 4, 5, 6, 7, 8, 9, 10, 11, 12, 13, 14, 15}"
  unfolding insert_iff empty_iff using assms by presburger

lemma hex_val_char [simp]: "d < 16 \<Longrightarrow> hex_val (hex_char d) = Some d"
  by (drule hex_cases) (auto simp: hex_val_def hex_char_def)

theorem DecodeHex_EncodeHex: "DecodeHex (EncodeHex s) = Some s"
proof (induction s)
  case Nil
  show ?case by (simp add: EncodeHex_def)
next
  case (Cons c s)
  have "(of_char c :: nat) div 16 < 16" "(of_char c :: nat) mod 16 < 16"
    by (auto simp: less_mult_imp_div_less)
  with Cons show ?case by (simp add: EncodeHex_def hex_byte_def Let_def)
qed

lemma EncodeHex_inj: "EncodeHex s = EncodeHex t \<longleftrightarrow> s = t"
  by (metis DecodeHex_EncodeHex option.inject)

lemma hex_val_plain:
  assumes "hex_val c \<noteq> None"
  shows "plain_char c" "c \<noteq> CHR ''#''" "c \<noteq> CHR ''.''" "c \<noteq> CHR ''|''" "c \<noteq> newline"
  using assms by (auto simp: hex_val_def plain_char_def Let_def)

lemma DecodeHex_digits: "DecodeHex s \<noteq> None \<Longrightarrow> c \<in> set s \<Longrightarrow> hex_val c \<noteq> None"
  by (induction s rule: DecodeHex.induct) (auto split: option.splits)

section \<open>Case mapping\<close>

text \<open>The case tables for strings that are not ASCII.\<close>

record unicode =
  upper_table :: "string \<Rightarrow> string"
  lower_table :: "string \<Rightarrow> string"

definition ascii :: "string \<Rightarrow> bool" where
  "ascii s \<longleftrightarrow> list_all (\<lambda>c. (of_char c :: nat) < 128) s"

definition upper_char :: "char \<Rightarrow> char" where
  "upper_char c =
     (let n = (of_char c :: nat) in if 97 \<le> n \<and> n \<le> 122 then char_of (n - 32) else c)"

definition lower_char :: "char \<Rightarrow> char" where
  "lower_char c =
     (let n = (of_char c :: nat) in if 65 \<le> n \<and> n \<le> 90 then char_of (n + 32) else c)"

definition ToUpper :: "unicode \<Rightarrow> string \<Rightarrow> string" where
  "ToUpper U s = (if ascii s then map upper_char s else upper_table U s)"

definition ToLower :: "unicode \<Rightarrow> string \<Rightarrow> string" where
  "ToLower U s = (if ascii s then map lower_char s else lower_table U s)"

lemma upper_char_id: "\<not> (97 \<le> (of_char c :: nat) \<and> (of_char c :: nat) \<le> 122) \<Longrightarrow> upper_char c = c"
  unfolding upper_char_def Let_def by (rule if_not_P)

lemma of_char_upper:
  "(of_char (upper_char c) :: nat) =
     (if 97 \<le> (of_char c :: nat) \<and> (of_char c :: nat) \<le> 122 then of_char c - 32 else of_char c)"
proof (cases "97 \<le> (of_char c :: nat) \<and> (of_char c :: nat) \<le> 122")
  case True
  then have "((of_char c :: nat) - 32) mod 256 = of_char c - 32" by auto
  with True show ?thesis by (simp add: upper_char_def Let_def)
next
  case False
  then show ?thesis by (simp only: upper_char_id [OF False] if_False)
qed

lemma upper_char_idem [simp]: "upper_char (upper_char c) = upper_char c"
  by (rule upper_char_id) (auto simp: of_char_upper)

lemma ascii_upper: "ascii s \<Longrightarrow> ascii (map upper_char s)"
  by (auto simp: ascii_def list_all_iff of_char_upper)

lemma ToUpper_idem: "ascii s \<Longrightarrow> ToUpper U (ToUpper U s) = ToUpper U s"
  by (simp add: ToUpper_def ascii_upper o_def)

lemma ascii_ToUpper: "ascii s \<Longrightarrow> ascii (ToUpper U s)"
  by (simp add: ToUpper_def ascii_upper)

lemma upper_char_ne:
  assumes "(of_char d :: nat) < 65"
  shows "upper_char c = d \<longleftrightarrow> c = d"
proof (cases "97 \<le> (of_char c :: nat) \<and> (of_char c :: nat) \<le> 122")
  case True
  then have "65 \<le> (of_char (upper_char c) :: nat)" by (auto simp: of_char_upper)
  with True assms show ?thesis by auto
next
  case False
  then show ?thesis by (simp only: upper_char_id [OF False])
qed

text \<open>On ASCII strings white space is one byte wide and upper-casing does not move it.\<close>

definition ascii_space :: "char \<Rightarrow> bool" where
  "ascii_space c \<longleftrightarrow> c \<in> {CHR 0x09, CHR 0x0A, CHR 0x0B, CHR 0x0C, CHR 0x0D, CHR 0x20}"

lemma space_at_ascii:
  assumes "(of_char c :: nat) < 128"
  shows "space_at (c # s) = 0 \<longleftrightarrow> \<not> ascii_space c"
proof -
  have "c \<notin> {CHR 0xC2, CHR 0xE1, CHR 0xE2, CHR 0xE3}" using assms by auto
  then show ?thesis by (simp add: space_at_0 space_encodings_def ascii_space_def)
qed

lemma ascii_space_upper [simp]: "ascii_space (upper_char c) = ascii_space c"
  unfolding ascii_space_def by (simp add: upper_char_ne)

lemma spaceless_ascii: "ascii s \<Longrightarrow> spaceless s \<longleftrightarrow> (\<forall>c \<in> set s. \<not> ascii_space c)"
  by (induction s) (auto simp: ascii_def space_at_ascii)

lemma spaceless_ToUpper: "ascii s \<Longrightarrow> spaceless (ToUpper U s) = spaceless s"
  by (simp add: ToUpper_def spaceless_ascii ascii_upper)

section \<open>The line scanner\<close>

text \<open>
  \<open>bufio.NewScanner(r)\<close> with the default split function, on the whole input: the lines that
  \<open>Scan\<close> yields, and whether \<open>Err\<close> is \<open>bufio.ErrTooLong\<close> (a line does not fit the
  65536-byte buffer; the lines before it are still delivered).
\<close>

definition max_token :: nat where
  "max_token = 65536"

definition drop_cr :: "string \<Rightarrow> string" where
  "drop_cr l = (if l \<noteq> [] \<and> last l = CHR 0x0D then butlast l else l)"

definition raw_lines :: "string \<Rightarrow> string list" where
  "raw_lines s = (let ls = Split s newline in if last ls = [] then butlast ls else ls)"

definition ScanLines :: "string \<Rightarrow> string list \<times> bool" where
  "ScanLines s =
     (let ls = raw_lines s; ok = takeWhile (\<lambda>l. length l < max_token) ls
      in (map drop_cr ok, length ok < length ls))"

end
