(* ===== verification/Sha256.thy ===== *)
theory Sha256
  imports Go_Text
begin

unbundle bit_operations_syntax

text \<open>
  Go's \<open>crypto/sha256\<close> and \<open>crypto/hmac\<close>: SHA-256 of FIPS 180-4 over 32-bit words and HMAC of
  RFC 2104 with 64-byte blocks, on byte strings.  A 32-bit word is an \<open>int\<close> kept in range by
  \<open>take_bit 32\<close> after every addition and left shift, which the simplifier evaluates on numerals.
\<close>

type_synonym w32 = int

definition add32 :: "w32 \<Rightarrow> w32 \<Rightarrow> w32" where
  "add32 x y = take_bit 32 (x + y)"

text \<open>The round constants and the initial state of the standard, in decimal.\<close>

definition sha_K :: "w32 list" where
  "sha_K =
    [1116352408, 1899447441, 3049323471, 3921009573, 961987163, 1508970993, 2453635748, 2870763221,
     3624381080, 310598401, 607225278, 1426881987, 1925078388, 2162078206, 2614888103, 3248222580,
     3835390401, 4022224774, 264347078, 604807628, 770255983, 1249150122, 1555081692, 1996064986,
     2554220882, 2821834349, 2952996808, 3210313671, 3336571891, 3584528711, 113926993, 338241895,
     666307205, 773529912, 1294757372, 1396182291, 1695183700, 1986661051, 2177026350, 2456956037,
     2730485921, 2820302411, 3259730800, 3345764771, 3516065817, 3600352804, 4094571909, 275423344,
     430227734, 506948616, 659060556, 883997877, 958139571, 1322822218, 1537002063, 1747873779,
     1955562222, 2024104815, 2227730452, 2361852424, 2428436474, 2756734187, 3204031479, 3329325298]"

definition sha_H0 :: "w32 list" where
  "sha_H0 =
    [1779033703, 3144134277, 1013904242, 2773480762, 1359893119, 2600822924, 528734635, 1541459225]"

definition rotr :: "nat \<Rightarrow> w32 \<Rightarrow> w32" where
  "rotr n x = (drop_bit n x) OR (take_bit 32 (push_bit (32 - n) x))"

definition Ch :: "w32 \<Rightarrow> w32 \<Rightarrow> w32 \<Rightarrow> w32" where
  "Ch x y z = (x AND y) XOR ((NOT x) AND z)"

definition Maj :: "w32 \<Rightarrow> w32 \<Rightarrow> w32 \<Rightarrow> w32" where
  "Maj x y z = (x AND y) XOR (x AND z) XOR (y AND z)"

definition Sigma0 :: "w32 \<Rightarrow> w32" where
  "Sigma0 x = rotr 2 x XOR rotr 13 x XOR rotr 22 x"

definition Sigma1 :: "w32 \<Rightarrow> w32" where
  "Sigma1 x = rotr 6 x XOR rotr 11 x XOR rotr 25 x"

definition sigma0 :: "w32 \<Rightarrow> w32" where
  "sigma0 x = rotr 7 x XOR rotr 18 x XOR drop_bit 3 x"

definition sigma1 :: "w32 \<Rightarrow> w32" where
  "sigma1 x = rotr 17 x XOR rotr 19 x XOR drop_bit 10 x"

text \<open>Big-endian words and bytes.\<close>

fun be_words :: "string \<Rightarrow> w32 list" where
  "be_words (a # b # c # d # s) =
     (((of_char a * 256 + of_char b) * 256 + of_char c) * 256 + of_char d) # be_words s"
| "be_words _ = []"

definition be_bytes :: "nat \<Rightarrow> int \<Rightarrow> string" where
  "be_bytes k n = map (\<lambda>i. char_of (drop_bit (8 * i) n)) (rev [0..<k])"

definition sha_pad :: "string \<Rightarrow> string" where
  "sha_pad s =
     (let n = length s
      in s @ [CHR 0x80] @ replicate ((119 - n mod 64) mod 64) (CHR 0x00) @ be_bytes 8 (8 * int n))"

text \<open>
  One round consumes one schedule word.  The window \<open>w\<close> holds the next sixteen schedule words;
  each round drops its head and appends the next one.
\<close>

definition next_window :: "w32 list \<Rightarrow> w32 list" where
  "next_window w = tl w @ [add32 (add32 (sigma1 (w ! 14)) (w ! 9)) (add32 (sigma0 (w ! 1)) (w ! 0))]"

type_synonym regs = "w32 \<times> w32 \<times> w32 \<times> w32 \<times> w32 \<times> w32 \<times> w32 \<times> w32"

fun sha_round :: "w32 \<Rightarrow> w32 \<Rightarrow> regs \<Rightarrow> regs" where
  "sha_round k w (a, b, c, d, e, f, g, h) =
     (let t1 = add32 (add32 (add32 (add32 h (Sigma1 e)) (Ch e f g)) k) w;
          t2 = add32 (Sigma0 a) (Maj a b c)
      in (add32 t1 t2, a, b, c, add32 d t1, e, f, g))"

fun sha_rounds :: "w32 list \<Rightarrow> w32 list \<Rightarrow> regs \<Rightarrow> regs" where
  "sha_rounds [] w r = r"
| "sha_rounds (k # ks) w r = sha_rounds ks (next_window w) (sha_round k (hd w) r)"

fun add_regs :: "regs \<Rightarrow> regs \<Rightarrow> regs" where
  "add_regs (a, b, c, d, e, f, g, h) (a', b', c', d', e', f', g', h') =
     (add32 a a', add32 b b', add32 c c', add32 d d', add32 e e', add32 f f', add32 g g', add32 h h')"

definition sha_block :: "regs \<Rightarrow> string \<Rightarrow> regs" where
  "sha_block r blk = add_regs r (sha_rounds sha_K (be_words blk) r)"

function sha_blocks :: "regs \<Rightarrow> string \<Rightarrow> regs" where
  "sha_blocks r s =
     (if length s < 64 then r else sha_blocks (sha_block r (take 64 s)) (drop 64 s))"
  by pat_completeness auto
termination
  by (relation "measure (\<lambda>(r, s). length s)") auto

declare sha_blocks.simps [simp del]

definition sha_init :: regs where
  "sha_init =
     (sha_H0 ! 0, sha_H0 ! 1, sha_H0 ! 2, sha_H0 ! 3, sha_H0 ! 4, sha_H0 ! 5, sha_H0 ! 6, sha_H0 ! 7)"

fun regs_bytes :: "regs \<Rightarrow> string" where
  "regs_bytes (a, b, c, d, e, f, g, h) =
     concat (map (\<lambda>w. be_bytes 4 w) [a, b, c, d, e, f, g, h])"

text \<open>\<open>sha256.Sum256\<close>.\<close>

definition Sum256 :: "string \<Rightarrow> string" where
  "Sum256 s = regs_bytes (sha_blocks sha_init (sha_pad s))"

definition xor_byte :: "int \<Rightarrow> char \<Rightarrow> char" where
  "xor_byte k c = char_of ((of_char c :: int) XOR k)"

text \<open>\<open>hmac.New(sha256.New, key)\<close> followed by \<open>Write(msg)\<close> and \<open>Sum(nil)\<close>.\<close>

definition hmac_key :: "string \<Rightarrow> string" where
  "hmac_key k =
     (let k' = (if length k > 64 then Sum256 k else k)
      in k' @ replicate (64 - length k') (CHR 0x00))"

definition HMAC :: "string \<Rightarrow> string \<Rightarrow> string" where
  "HMAC k msg =
     (let key = hmac_key k
      in Sum256 (map (xor_byte 0x5c) key @ Sum256 (map (xor_byte 0x36) key @ msg)))"

lemma length_be_bytes [simp]: "length (be_bytes k n) = k"
  by (simp add: be_bytes_def)

lemma length_Sum256 [simp]: "length (Sum256 s) = 32"
proof -
  have "length (regs_bytes r) = 32" for r
    by (cases r rule: regs_bytes.cases) simp
  then show ?thesis by (simp add: Sum256_def)
qed

lemma length_HMAC [simp]: "length (HMAC k m) = 32"
  by (simp add: HMAC_def Let_def)

lemma sha_pad_blocks: "length (sha_pad s) mod 64 = 0"
proof -
  define n where "n = length s"
  define r where "r = n mod 64"
  have "r < 64" by (simp add: r_def)
  have "(n + (Suc ((119 - r) mod 64 + 8))) mod 64 = (r + Suc ((119 - r) mod 64 + 8)) mod 64"
    by (simp add: r_def mod_simps del: add_Suc_right)
  also have "\<dots> = 0"
  proof (cases "r \<le> 55")
    case True
    then have "(119 - r) mod 64 = 55 - r" by (simp add: mod_if)
    with True show ?thesis by simp
  next
    case False
    with \<open>r < 64\<close> have "(119 - r) mod 64 = 119 - r" by simp
    with False \<open>r < 64\<close> show ?thesis by simp
  qed
  finally show ?thesis
    by (simp add: sha_pad_def Let_def n_def r_def)
qed

end
