(* ===== verification/Sha256_Test.thy ===== *)
theory Sha256_Test
  imports Sha256
begin

text \<open>
  The FIPS 180-4 one-block example, evaluated by the simplifier: it checks the constants, the
  schedule, the padding and the byte order of \<open>Sum256\<close> in one go.
\<close>

lemma sha_pad_abc:
  "be_words (take 64 (sha_pad ''abc'')) =
     [0x61626380, 0, 0, 0, 0, 0, 0, 0, 0, 0, 0, 0, 0, 0, 0, 0x18]"
  by code_simp

lemma length_sha_pad_abc: "length (sha_pad ''abc'') = 64"
  by code_simp

lemma sha_rounds_abc:
  "sha_block sha_init (take 64 (sha_pad ''abc'')) =
     (0xba7816bf, 0x8f01cfea, 0x414140de, 0x5dae2223,
      0xb00361a3, 0x96177a9c, 0xb410ff61, 0xf20015ad)"
  unfolding sha_block_def sha_pad_abc
  by (simp add: add32_def sha_K_def sha_H0_def sha_init_def rotr_def Ch_def Maj_def Sigma0_def
      Sigma1_def sigma0_def sigma1_def next_window_def)

lemma digest_abc:
  "EncodeHex (regs_bytes (0xba7816bf, 0x8f01cfea, 0x414140de, 0x5dae2223,
       0xb00361a3, 0x96177a9c, 0xb410ff61, 0xf20015ad)) =
     ''ba7816bf8f01cfea414140de5dae2223b00361a396177a9cb410ff61f20015ad''"
  by code_simp

lemma sha_blocks_abc:
  "sha_blocks sha_init (sha_pad ''abc'') = sha_block sha_init (take 64 (sha_pad ''abc''))"
proof -
  have "drop 64 (sha_pad ''abc'') = []" using length_sha_pad_abc by simp
  then show ?thesis
    by (subst sha_blocks.simps) (simp add: length_sha_pad_abc sha_blocks.simps [of _ "[]"])
qed

theorem Sum256_abc:
  "EncodeHex (Sum256 ''abc'') =
     ''ba7816bf8f01cfea414140de5dae2223b00361a396177a9cb410ff61f20015ad''"
  by (simp only: Sum256_def sha_blocks_abc sha_rounds_abc digest_abc)

end
