(* ===== verification/Gate_Token.thy ===== *)
theory Gate_Token
  imports Sha256
begin

text \<open>
  \<open>server/internal/gate/gate.go\<close>: the allow-list entry, the code id, the per-day message
  authentication code, the token the app sends and the check of a token (\<open>CodeID\<close>, \<open>mac\<close>,
  \<open>Token\<close>, \<open>CheckSkew\<close>, \<open>Check\<close>, \<open>Valid\<close>).  The lemmas characterise acceptance exactly and
  show that the authenticated message determines code, fingerprint and day.
\<close>

section \<open>Entries, codes and tokens\<close>

record entry =
  Code :: string
  CreatorFp :: string
  Note :: string

type_synonym entries = "(string, entry) gmap"

definition bucketSeconds :: int where
  "bucketSeconds = 86400"

definition auth_header :: string where
  "auth_header = ''X-Oversea-Auth''"

definition CodeID :: "string \<Rightarrow> string" where
  "CodeID code = EncodeHex (take 8 (Sum256 (''ovsea-code-id|'' @ code)))"

definition mac_msg :: "string \<Rightarrow> string \<Rightarrow> int \<Rightarrow> string" where
  "mac_msg code fp day = ''ovsea-gate-v2|'' @ code @ ''|'' @ fp @ ''|'' @ FormatInt day"

definition mac :: "string \<Rightarrow> string \<Rightarrow> string \<Rightarrow> int \<Rightarrow> string" where
  "mac appKey code fp day = EncodeHex (HMAC appKey (mac_msg code fp day))"

definition day_of :: "time \<Rightarrow> int" where
  "day_of t = go_div (Unix t) bucketSeconds"

definition Token :: "string \<Rightarrow> string \<Rightarrow> string \<Rightarrow> time \<Rightarrow> string" where
  "Token appKey code fp t =
     (let day = day_of t
      in CodeID code @ ''.'' @ FormatInt day @ ''.'' @ mac appKey code fp day)"

datatype result = OK | NoToken | BadFormat | UnknownCode | BadDay | BadMAC | NoKeys

fun result_String :: "result \<Rightarrow> string" where
  "result_String OK = ''ok''"
| "result_String NoToken = ''no_token''"
| "result_String BadFormat = ''bad_format''"
| "result_String UnknownCode = ''unknown_code''"
| "result_String BadDay = ''bad_day''"
| "result_String BadMAC = ''bad_mac''"
| "result_String NoKeys = ''no_keys''"

definition CheckSkew ::
  "string \<Rightarrow> entries \<Rightarrow> string list \<Rightarrow> time \<Rightarrow> int \<Rightarrow> result \<times> string" where
  "CheckSkew tok entries appKeys now skewDays =
     (if appKeys = [] then (NoKeys, [])
      else if tok = [] then (NoToken, [])
      else (case Split tok (CHR ''.'') of
          [p0, p1, p2] \<Rightarrow>
            if length p2 \<noteq> 64 then (BadFormat, [])
            else (case lookup entries p0 of
                None \<Rightarrow> (UnknownCode, [])
              | Some e \<Rightarrow>
                  (case ParseInt p1 of
                     None \<Rightarrow> (BadFormat, [])
                   | Some day \<Rightarrow>
                       (let cur = day_of now
                        in if day < wrap64 (cur - skewDays) \<or> day > wrap64 (cur + skewDays)
                           then (BadDay, [])
                           else if list_ex (\<lambda>k. mac k (Code e) (CreatorFp e) day = p2) appKeys
                           then (OK, p0)
                           else (BadMAC, []))))
        | _ \<Rightarrow> (BadFormat, [])))"

definition Check :: "string \<Rightarrow> entries \<Rightarrow> string list \<Rightarrow> time \<Rightarrow> result \<times> string" where
  "Check tok entries appKeys now = CheckSkew tok entries appKeys now 1"

definition Valid :: "string \<Rightarrow> entries \<Rightarrow> string list \<Rightarrow> time \<Rightarrow> bool" where
  "Valid tok entries appKeys now \<longleftrightarrow> fst (Check tok entries appKeys now) = OK"

section \<open>The authenticated message\<close>

lemma length_mac [simp]: "length (mac k c f d) = 64"
  by (simp add: mac_def)

lemma mac_no_dot: "CHR ''.'' \<notin> set (mac k c f d)"
  using EncodeHex_set by (fastforce simp: mac_def hex_digits_def)

lemma CodeID_set: "set (CodeID c) \<subseteq> set hex_digits"
  unfolding CodeID_def by (rule EncodeHex_set)

lemma CodeID_no_dot: "CHR ''.'' \<notin> set (CodeID c)"
  using CodeID_set [of c] by (auto simp: hex_digits_def)

lemma length_CodeID [simp]: "length (CodeID c) = 16"
  by (simp add: CodeID_def)

lemma FormatInt_no_char: "c \<notin> set ''-0123456789'' \<Longrightarrow> c \<notin> set (FormatInt d)"
  using FormatInt_set [of d] by blast

lemma FormatInt_no_dot: "CHR ''.'' \<notin> set (FormatInt d)"
  by (rule FormatInt_no_char) simp

lemma FormatInt_no_bar: "CHR ''|'' \<notin> set (FormatInt d)"
  by (rule FormatInt_no_char) simp

lemma append_sep_inj:
  assumes "a @ c # x = b @ c # y" and "c \<notin> set x" and "c \<notin> set y"
  shows "a = b \<and> x = y"
proof -
  from assms(1) obtain us where
    "a = b @ us \<and> us @ c # x = c # y \<or> a @ us = b \<and> c # x = us @ c # y"
    by (auto simp: append_eq_append_conv2)
  with assms(2,3) show ?thesis by (cases us) auto
qed

lemma mac_msg_inj:
  assumes "length c = length c'" and "int64 d" and "int64 d'"
    and eq: "mac_msg c f d = mac_msg c' f' d'"
  shows "c = c' \<and> f = f' \<and> d = d'"
proof -
  from eq have "c @ CHR ''|'' # f @ CHR ''|'' # FormatInt d =
      c' @ CHR ''|'' # f' @ CHR ''|'' # FormatInt d'"
    by (simp add: mac_msg_def)
  with assms(1) have c: "c = c'" and r: "f @ CHR ''|'' # FormatInt d = f' @ CHR ''|'' # FormatInt d'"
    by auto
  from append_sep_inj [OF r FormatInt_no_bar FormatInt_no_bar]
  have "f = f'" and "FormatInt d = FormatInt d'" by auto
  with c assms(2,3) show ?thesis by (simp add: FormatInt_inj)
qed

section \<open>Acceptance\<close>

lemma Split_three:
  "Split tok c = [a, b, d] \<longleftrightarrow> tok = a @ c # b @ c # d \<and> c \<notin> set a \<and> c \<notin> set b \<and> c \<notin> set d"
proof
  assume s: "Split tok c = [a, b, d]"
  have "Join (Split tok c) [c] = tok" by (rule Join_Split)
  moreover have "w \<in> set [a, b, d] \<Longrightarrow> c \<notin> set w" for w
    using Split_parts_no_sep [of w tok c] s by simp
  ultimately show "tok = a @ c # b @ c # d \<and> c \<notin> set a \<and> c \<notin> set b \<and> c \<notin> set d"
    using s by simp
qed (auto simp: Split_append_sep Split_no_sep)

lemma ParseInt_no_dot: "ParseInt s = Some i \<Longrightarrow> CHR ''.'' \<notin> set s"
proof
  assume p: "ParseInt s = Some i" and d: "CHR ''.'' \<in> set s"
  let ?ds = "if HasPrefix s ''-'' \<or> HasPrefix s ''+'' then tl s else s"
  from p obtain n where "digits_value 0 ?ds = Some n"
    by (auto simp: ParseInt_def ParseUint10_def Let_def split: option.splits if_splits)
  then have "\<forall>c \<in> set ?ds. is_digit c" by (rule digits_value_digits)
  moreover have "CHR ''.'' \<in> set ?ds"
    using d by (cases s) (auto simp: HasPrefix_def)
  ultimately show False by (auto simp: digit_val_def)
qed

lemma ParseInt_int64: "ParseInt s = Some i \<Longrightarrow> int64 i"
  by (auto simp: ParseInt_def int64_option_def Let_def split: option.splits if_splits)

text \<open>The parts of a token, as the check reads them.\<close>

lemma CheckSkew_parts:
  assumes "appKeys \<noteq> []" and "CHR ''.'' \<notin> set p0" and "CHR ''.'' \<notin> set p1"
    and "CHR ''.'' \<notin> set p2" and "length p2 = 64"
  shows "CheckSkew (p0 @ CHR ''.'' # p1 @ CHR ''.'' # p2) entries appKeys now skew =
     (case lookup entries p0 of None \<Rightarrow> (UnknownCode, [])
      | Some e \<Rightarrow> (case ParseInt p1 of None \<Rightarrow> (BadFormat, [])
         | Some day \<Rightarrow>
            if day < wrap64 (day_of now - skew) \<or> day > wrap64 (day_of now + skew) then (BadDay, [])
            else if \<exists>k \<in> set appKeys. mac k (Code e) (CreatorFp e) day = p2 then (OK, p0)
            else (BadMAC, [])))"
proof -
  have "Split (p0 @ CHR ''.'' # p1 @ CHR ''.'' # p2) (CHR ''.'') = [p0, p1, p2]"
    using assms by (simp add: Split_three)
  with assms show ?thesis
    by (simp add: CheckSkew_def Let_def list_ex_iff split: option.splits)
qed

lemma CheckSkew_OK:
  "CheckSkew tok entries appKeys now skew = (OK, lid) \<longleftrightarrow>
     CHR ''.'' \<notin> set lid \<and>
     (\<exists>e p1 day k. tok = lid @ ''.'' @ p1 @ ''.'' @ mac k (Code e) (CreatorFp e) day \<and>
        k \<in> set appKeys \<and> lookup entries lid = Some e \<and> ParseInt p1 = Some day \<and>
        wrap64 (day_of now - skew) \<le> day \<and> day \<le> wrap64 (day_of now + skew))"
  (is "?L \<longleftrightarrow> ?R")
proof
  assume ?L
  then obtain p0 p1 p2 where s: "Split tok (CHR ''.'') = [p0, p1, p2]"
    by (auto simp: CheckSkew_def split: if_splits list.splits)
  with \<open>?L\<close> have "appKeys \<noteq> []" and "length p2 = 64"
    by (auto simp: CheckSkew_def split: if_splits)
  moreover from s have t: "tok = p0 @ CHR ''.'' # p1 @ CHR ''.'' # p2" and "CHR ''.'' \<notin> set p0"
    and "CHR ''.'' \<notin> set p1" and "CHR ''.'' \<notin> set p2"
    by (auto simp: Split_three)
  ultimately show ?R
    using \<open>?L\<close> unfolding t
    by (subst (asm) CheckSkew_parts) (auto split: option.splits if_splits)
next
  assume ?R
  then obtain e p1 day k where r: "CHR ''.'' \<notin> set lid"
    "tok = lid @ ''.'' @ p1 @ ''.'' @ mac k (Code e) (CreatorFp e) day"
    "k \<in> set appKeys" "lookup entries lid = Some e" "ParseInt p1 = Some day"
    "wrap64 (day_of now - skew) \<le> day" "day \<le> wrap64 (day_of now + skew)"
    by blast
  moreover from r(5) have "CHR ''.'' \<notin> set p1" by (rule ParseInt_no_dot)
  moreover from r(3) have "appKeys \<noteq> []" by auto
  ultimately show ?L
    by (auto simp: CheckSkew_parts mac_no_dot)
qed

lemma CheckSkew_no_keys [simp]: "CheckSkew tok entries [] now skew = (NoKeys, [])"
  by (simp add: CheckSkew_def)

lemma CheckSkew_snd: "fst (CheckSkew tok entries appKeys now skew) \<noteq> OK \<Longrightarrow>
    snd (CheckSkew tok entries appKeys now skew) = []"
  by (auto simp: CheckSkew_def Let_def split: list.splits option.splits)

section \<open>The day window\<close>

lemma day_of_bound: "int64 (Unix t) \<Longrightarrow> \<bar>day_of t\<bar> \<le> 2 ^ 63 div 86400"
proof -
  assume "int64 (Unix t)"
  then have "\<bar>Unix t\<bar> \<le> 2 ^ 63" by (auto simp: int64_def)
  then have "\<bar>Unix t\<bar> div 86400 \<le> 2 ^ 63 div 86400" by (rule zdiv_mono1) simp
  moreover have "\<bar>day_of t\<bar> = \<bar>Unix t\<bar> div 86400" if "Unix t \<noteq> 0"
    using that by (simp add: day_of_def go_div_def bucketSeconds_def abs_mult abs_sgn_eq
        pos_imp_zdiv_nonneg_iff)
  moreover have "day_of t = 0" if "Unix t = 0"
    using that by (simp add: day_of_def go_div_def)
  ultimately show ?thesis by (cases "Unix t = 0") auto
qed

lemma int64_day_of: "int64 (Unix t) \<Longrightarrow> int64 (day_of t)"
  by (drule day_of_bound) (simp add: int64_def abs_le_iff)

lemma window_no_wrap:
  assumes "int64 (Unix now)" and "0 \<le> skew" and "skew \<le> 2 ^ 62"
  shows "wrap64 (day_of now - skew) = day_of now - skew"
    and "wrap64 (day_of now + skew) = day_of now + skew"
  using day_of_bound [OF assms(1)] assms(2,3)
  by (auto intro!: wrap64_id simp: int64_def abs_le_iff)

lemma CheckSkew_Token:
  assumes "int64 (Unix t)" and "int64 (Unix now)" and "0 \<le> skew" and "skew \<le> 2 ^ 62"
    and "lookup entries (CodeID code) = Some e" and "appKeys \<noteq> []"
  shows "CheckSkew (Token key code fp t) entries appKeys now skew =
     (if skew < \<bar>day_of t - day_of now\<bar> then (BadDay, [])
      else if \<exists>k \<in> set appKeys. mac k (Code e) (CreatorFp e) (day_of t) = mac key code fp (day_of t)
      then (OK, CodeID code) else (BadMAC, []))"
proof -
  have "Token key code fp t =
      CodeID code @ CHR ''.'' # FormatInt (day_of t) @ CHR ''.'' # mac key code fp (day_of t)"
    by (simp add: Token_def Let_def)
  moreover have "ParseInt (FormatInt (day_of t)) = Some (day_of t)"
    using assms(1) by (simp add: ParseInt_FormatInt int64_day_of)
  ultimately show ?thesis
    using assms(5,6)
    by (simp add: CheckSkew_parts CodeID_no_dot FormatInt_no_dot mac_no_dot
        window_no_wrap [OF assms(2-4)]) auto
qed

section \<open>Properties\<close>

text \<open>
  C1: A token is accepted exactly when it is \<open>id.day.mac\<close> for an id on the allow-list, a day
  within the window around the gate's day, and the authentication code that one of the configured
  app keys gives for that entry's secret code, that entry's creator fingerprint and that day; the
  reported id is the token's.
\<close>

theorem token_accepted_iff:
  assumes "int64 (Unix now)" and "0 \<le> skew" and "skew \<le> 7"
  shows "CheckSkew tok entries appKeys now skew = (OK, lid) \<longleftrightarrow>
     CHR ''.'' \<notin> set lid \<and>
     (\<exists>e p1 day k. tok = lid @ ''.'' @ p1 @ ''.'' @ mac k (Code e) (CreatorFp e) day \<and>
        k \<in> set appKeys \<and> lookup entries lid = Some e \<and> ParseInt p1 = Some day \<and>
        \<bar>day - day_of now\<bar> \<le> skew)"
  unfolding CheckSkew_OK
  using assms by (simp add: window_no_wrap abs_le_iff) (smt (verit))

text \<open>
  C14: A token that the app makes at time \<open>t\<close> for an allow-listed code, with the entry's
  fingerprint and a configured key, is accepted at every time whose day is at most \<open>skew\<close> days
  away and refused as \<open>BadDay\<close> at every other time, so it can be replayed for exactly
  \<open>2 * skew + 1\<close> days.
\<close>

theorem token_window:
  assumes "int64 (Unix t)" and "int64 (Unix now)" and "0 \<le> skew" and "skew \<le> 7"
    and "lookup entries (CodeID code) = Some e" and "Code e = code" and "CreatorFp e = fp"
    and "key \<in> set appKeys"
  shows "CheckSkew (Token key code fp t) entries appKeys now skew =
     (if \<bar>day_of t - day_of now\<bar> \<le> skew then (OK, CodeID code) else (BadDay, []))"
proof -
  have "skew \<le> 2 ^ 62" "appKeys \<noteq> []" using assms(4,8) by auto
  then show ?thesis
    using assms by (auto simp: CheckSkew_Token)
qed

text \<open>
  A stolen file re-locked under another identity: the messages that the app and the gate
  authenticate differ, so a token made with a fingerprint other than the entry's is accepted
  exactly when HMAC-SHA-256 gives these two different messages the same value (a collision)
  under a configured key, within the day window.
\<close>

theorem relocked_token_needs_collision:
  assumes "lookup entries (CodeID code) = Some e" and "CreatorFp e \<noteq> fp"
    and "length code = 32" and "length (Code e) = 32"
    and "int64 (Unix t)" and "int64 (Unix now)" and "0 \<le> skew" and "skew \<le> 7"
  shows "mac_msg (Code e) (CreatorFp e) (day_of t) \<noteq> mac_msg code fp (day_of t) \<and>
    (CheckSkew (Token key code fp t) entries appKeys now skew = (OK, CodeID code) \<longleftrightarrow>
       \<bar>day_of t - day_of now\<bar> \<le> skew \<and>
       (\<exists>k \<in> set appKeys. HMAC k (mac_msg (Code e) (CreatorFp e) (day_of t)) =
          HMAC key (mac_msg code fp (day_of t))))"
proof
  show "mac_msg (Code e) (CreatorFp e) (day_of t) \<noteq> mac_msg code fp (day_of t)"
    using assms mac_msg_inj [of "Code e" code] by (metis int64_day_of)
  have "skew \<le> 2 ^ 62" using assms(8) by auto
  then show "CheckSkew (Token key code fp t) entries appKeys now skew = (OK, CodeID code) \<longleftrightarrow>
       \<bar>day_of t - day_of now\<bar> \<le> skew \<and>
       (\<exists>k \<in> set appKeys. HMAC k (mac_msg (Code e) (CreatorFp e) (day_of t)) =
          HMAC key (mac_msg code fp (day_of t)))"
    using assms by (cases "appKeys = []") (auto simp: CheckSkew_Token mac_def EncodeHex_inj)
qed

text \<open>Witnesses: one lock on the list, one app key, noon of the first Unix day.\<close>

definition wit_code :: string where
  "wit_code = ''0123456789abcdef0123456789abcdef''"

definition wit_entries :: entries where
  "wit_entries =
     [(CodeID wit_code, \<lparr>Code = wit_code, CreatorFp = ''3FA9-0C21-B7D4-9E10'', Note = []\<rparr>)]"

lemma wit_lookup:
  "lookup wit_entries (CodeID wit_code) =
     Some \<lparr>Code = wit_code, CreatorFp = ''3FA9-0C21-B7D4-9E10'', Note = []\<rparr>"
  by (simp add: wit_entries_def)

lemma int64_Unix_small: "0 \<le> s \<Longrightarrow> s < 2 ^ 63 \<Longrightarrow> int64 (Unix (FromUnix s))"
  by (simp add: int64_def)

theorem token_accepted_iff_witness:
  "CheckSkew (Token ''app-key'' wit_code ''3FA9-0C21-B7D4-9E10'' (FromUnix 43200)) wit_entries
     [''app-key''] (FromUnix 43200) 1 = (OK, CodeID wit_code)"
proof -
  have "int64 (Unix (FromUnix 43200))" by (rule int64_Unix_small) simp_all
  note iff = token_accepted_iff [OF this, of 1]
  have "day_of (FromUnix 43200) = 0" by (simp add: day_of_def go_div_def bucketSeconds_def)
  moreover have "ParseInt (FormatInt 0) = Some 0"
    by (rule ParseInt_FormatInt) (simp add: int64_def)
  ultimately show ?thesis
    by (simp add: iff CodeID_no_dot wit_lookup Token_def Let_def)
qed

theorem token_window_witness:
  "CheckSkew (Token ''app-key'' wit_code ''3FA9-0C21-B7D4-9E10'' (FromUnix 43200)) wit_entries
     [''old-key'', ''app-key''] (FromUnix 345600) 3 = (BadDay, [])"
proof -
  have i: "int64 (Unix (FromUnix 43200))" "int64 (Unix (FromUnix 345600))"
    by (simp_all add: int64_def)
  have "day_of (FromUnix 43200) = 0" "day_of (FromUnix 345600) = 4"
    by (simp_all add: day_of_def go_div_def bucketSeconds_def)
  then show ?thesis
    using token_window [OF i, of 3, OF _ _ wit_lookup, of "''3FA9-0C21-B7D4-9E10''"
        "''app-key''" "[''old-key'', ''app-key'']"] by simp
qed

theorem relocked_token_needs_collision_witness:
  "CheckSkew (Token ''app-key'' wit_code ''AAAA-0000-AAAA-0000'' (FromUnix 43200)) wit_entries
     [''app-key''] (FromUnix 43200) 1 = (OK, CodeID wit_code) \<longleftrightarrow>
   HMAC ''app-key'' (mac_msg wit_code ''3FA9-0C21-B7D4-9E10'' 0) =
     HMAC ''app-key'' (mac_msg wit_code ''AAAA-0000-AAAA-0000'' 0)"
proof -
  have i: "int64 (Unix (FromUnix 43200))" by (rule int64_Unix_small) simp_all
  have "day_of (FromUnix 43200) = 0" by (simp add: day_of_def go_div_def bucketSeconds_def)
  then show ?thesis
    using relocked_token_needs_collision [OF wit_lookup _ _ _ i i, of "''AAAA-0000-AAAA-0000''" 1
        "''app-key''" "[''app-key'']"] by (simp add: wit_code_def)
qed

end
