(* ===== verification/Gate_Lists.thy ===== *)
theory Gate_Lists
  imports Gate_Token
begin

text \<open>
  The line formats of the gate's two secret files: \<open>ParseAllowList\<close> and \<open>isHex\<close> of
  \<open>server/internal/gate/gate.go\<close> and \<open>ParseKeys\<close> of \<open>server/internal/gate/keys.go\<close>.  The input is
  the whole text; the scanner's only failure is an overlong line.  The lemmas give the parsed
  map line by line (the last line of a code wins) and show when parsing fails.
\<close>

section \<open>Lines and comments\<close>

text \<open>
  The three file formats share this loop head: trim, cut a \<open>#\<close> comment and trim again.
\<close>

definition strip_comment :: "string \<Rightarrow> string" where
  "strip_comment raw =
     (let line = TrimSpace raw
      in if CHR ''#'' \<in> set line then TrimSpace (before (CHR ''#'') line) else line)"

definition isHex :: "string \<Rightarrow> bool" where
  "isHex s \<longleftrightarrow> DecodeHex s \<noteq> None"

section \<open>The allow-list\<close>

datatype allow_error = AllowBadLine nat | AllowTooLong

text \<open>What one line of the loop body does: skip it, refuse the file, or add an entry.\<close>

datatype allow_line = Blank | Malformed | Good entry

definition allow_line_of :: "unicode \<Rightarrow> string \<Rightarrow> allow_line" where
  "allow_line_of U raw =
     (let line = strip_comment raw
      in if line = [] then Blank
         else (case Fields line of
             f0 # f1 # rest \<Rightarrow>
               if length f0 \<noteq> 32 \<or> \<not> isHex f0 then Malformed
               else Good \<lparr>Code = f0, CreatorFp = ToUpper U f1, Note = Join rest '' ''\<rparr>
           | _ \<Rightarrow> Malformed))"

fun allow_lines ::
  "unicode \<Rightarrow> nat \<Rightarrow> string list \<Rightarrow> entries \<Rightarrow> allow_error + entries" where
  "allow_lines U n [] out = Inr out"
| "allow_lines U n (raw # ls) out =
     (case allow_line_of U raw of
        Blank \<Rightarrow> allow_lines U (Suc n) ls out
      | Malformed \<Rightarrow> Inl (AllowBadLine (Suc n))
      | Good e \<Rightarrow> allow_lines U (Suc n) ls (put (CodeID (Code e)) e out))"

definition ParseAllowList :: "unicode \<Rightarrow> string \<Rightarrow> allow_error + entries" where
  "ParseAllowList U s =
     (let (ls, too_long) = ScanLines s
      in case allow_lines U 0 ls [] of
           Inl e \<Rightarrow> Inl e
         | Inr m \<Rightarrow> if too_long then Inl AllowTooLong else Inr m)"

section \<open>App keys\<close>

fun key_lines :: "string list \<Rightarrow> string list" where
  "key_lines [] = []"
| "key_lines (raw # ls) =
     (let line = strip_comment raw in if line \<noteq> [] then line # key_lines ls else key_lines ls)"

text \<open>\<open>None\<close> is the scanner's error.\<close>

definition ParseKeys :: "string \<Rightarrow> string list option" where
  "ParseKeys s = (let (ls, too_long) = ScanLines s in if too_long then None else Some (key_lines ls))"

section \<open>Carriage returns and trailing newlines do not matter\<close>

lemma cr_encoding: "w \<in> set space_encodings \<Longrightarrow> CHR 0x0D \<in> set w \<Longrightarrow> w = [CHR 0x0D]"
  by (auto simp: space_encodings_def)

lemma space_at_cr:
  assumes "u \<noteq> []"
  shows "space_at (u @ [CHR 0x0D]) = space_at u"
proof -
  have "HasPrefix (u @ [CHR 0x0D]) w = HasPrefix u w" if w: "w \<in> set space_encodings" for w
  proof (cases "CHR 0x0D \<in> set w")
    case True
    with w have "w = [CHR 0x0D]" by (rule cr_encoding)
    with assms show ?thesis by (cases u) auto
  next
    case False
    then show ?thesis by (auto dest: HasPrefix_stop HasPrefix_append_left)
  qed
  then have "find (HasPrefix (u @ [CHR 0x0D])) space_encodings = find (HasPrefix u) space_encodings"
    by (intro find_cong) auto
  then show ?thesis by (simp add: space_at_def)
qed

lemma space_at_le: "space_at s \<le> length s"
proof (cases "find (HasPrefix s) space_encodings")
  case None
  then show ?thesis by (simp add: space_at_def)
next
  case (Some w)
  then have "HasPrefix s w" by (auto simp: find_Some_iff)
  then have "length w \<le> length s" by (simp add: HasPrefix_prefix prefix_length_le)
  with Some show ?thesis by (simp add: space_at_def)
qed

lemma space_end_cr: "space_end (u @ [CHR 0x0D]) = 1"
  by (simp add: space_end_def HasSuffix_def space_encodings_def)

lemma TrimRight_cr: "TrimRightSpace (u @ [CHR 0x0D]) = TrimRightSpace u"
  by (subst TrimRightSpace.simps) (simp add: space_end_cr)

lemma TrimLeft_cr:
  "TrimLeftSpace (u @ [CHR 0x0D]) =
     (if TrimLeftSpace u = [] then [] else TrimLeftSpace u @ [CHR 0x0D])"
proof (induction u rule: TrimLeftSpace.induct)
  case (1 u)
  have cr: "TrimLeftSpace [CHR 0x0D] = []"
    by (simp add: TrimLeftSpace.simps space_at_def space_encodings_def)
  show ?case
  proof (cases "u = [] \<or> space_at u = 0")
    case True
    then show ?thesis
      using cr by (cases "u = []") (auto simp: TrimLeftSpace.simps [of u] space_at_cr)
  next
    case False
    then have "TrimLeftSpace (u @ [CHR 0x0D]) = TrimLeftSpace (drop (space_at u) u @ [CHR 0x0D])"
      using space_at_le [of u] by (subst TrimLeftSpace.simps) (simp add: space_at_cr)
    with False 1 show ?thesis by (simp add: TrimLeftSpace.simps [of u])
  qed
qed

lemma TrimSpace_cr: "TrimSpace (u @ [CHR 0x0D]) = TrimSpace u"
  by (simp add: TrimSpace_def TrimLeft_cr TrimRight_cr)

lemma TrimSpace_drop_cr [simp]: "TrimSpace (drop_cr l) = TrimSpace l"
  by (cases l rule: rev_cases) (auto simp: drop_cr_def TrimSpace_cr)

lemma strip_comment_drop_cr [simp]: "strip_comment (drop_cr l) = strip_comment l"
  by (simp add: strip_comment_def)

lemma allow_line_of_drop_cr [simp]: "allow_line_of U (drop_cr l) = allow_line_of U l"
  by (simp add: allow_line_of_def)

lemma strip_comment_Nil [simp]: "strip_comment [] = []"
  by (simp add: strip_comment_def)

lemma allow_line_of_Nil [simp]: "allow_line_of U [] = Blank"
  by (simp add: allow_line_of_def)

lemma key_lines_append: "key_lines (xs @ ys) = key_lines xs @ key_lines ys"
  by (induction xs) (auto simp: Let_def)

lemma key_lines_map_cr: "key_lines (map drop_cr ls) = key_lines ls"
  by (induction ls) (auto simp: Let_def)

lemma key_lines_blank: "key_lines (replicate k []) = []"
  by (induction k) auto

lemma allow_lines_map_cr: "allow_lines U n (map drop_cr ls) out = allow_lines U n ls out"
  by (induction ls arbitrary: n out) (auto split: allow_line.splits)

lemma Split_trailing: "\<exists>k. Split s c = Split (TrimRightByte s c) c @ replicate k []"
proof (induction s rule: rev_induct)
  case Nil
  show ?case by (simp add: TrimRightByte_def)
next
  case (snoc x s)
  have snoc_sep: "Split (s @ [c]) c = Split s c @ [[]]" for s
    by (induction s) (auto split: list.splits)
  show ?case
  proof (cases "x = c")
    case True
    from snoc obtain k where "Split s c = Split (TrimRightByte s c) c @ replicate k []" by blast
    with True have "Split (s @ [x]) c = Split (TrimRightByte (s @ [x]) c) c @ replicate (Suc k) []"
      by (simp add: snoc_sep TrimRightByte_def replicate_append_same)
    then show ?thesis by blast
  next
    case False
    then have "TrimRightByte (s @ [x]) c = s @ [x]" by (simp add: TrimRightByte_def)
    then have "Split (s @ [x]) c = Split (TrimRightByte (s @ [x]) c) c @ replicate 0 []" by simp
    then show ?thesis by blast
  qed
qed

section \<open>What a parsed allow-list holds\<close>

text \<open>The entries of the well-formed lines, in file order.\<close>

fun good_entries :: "unicode \<Rightarrow> string list \<Rightarrow> entry list" where
  "good_entries U [] = []"
| "good_entries U (l # ls) =
     (case allow_line_of U l of Good e \<Rightarrow> e # good_entries U ls | _ \<Rightarrow> good_entries U ls)"

definition well_formed_lines :: "unicode \<Rightarrow> string list \<Rightarrow> bool" where
  "well_formed_lines U ls \<longleftrightarrow> list_all (\<lambda>l. allow_line_of U l \<noteq> Malformed) ls"

definition fits :: "string \<Rightarrow> bool" where
  "fits s \<longleftrightarrow> list_all (\<lambda>l. length l < max_token) (raw_lines s)"

definition put_entry :: "entry \<Rightarrow> entries \<Rightarrow> entries" where
  "put_entry e m = put (CodeID (Code e)) e m"

definition entry_ok :: "string \<Rightarrow> entry \<Rightarrow> bool" where
  "entry_ok lid e \<longleftrightarrow> lid = CodeID (Code e) \<and> length (Code e) = 32 \<and> isHex (Code e)"

lemma allow_lines_Inr:
  "allow_lines U n ls out = Inr m \<longleftrightarrow>
     well_formed_lines U ls \<and> m = fold put_entry (good_entries U ls) out"
  by (induction ls arbitrary: n out)
    (auto simp: well_formed_lines_def put_entry_def split: allow_line.splits)

lemma takeWhile_all: "list_all P xs \<Longrightarrow> takeWhile P xs = xs"
  by (induction xs) auto

lemma ScanLines_fits: "fits s \<Longrightarrow> ScanLines s = (map drop_cr (raw_lines s), False)"
  by (simp add: fits_def ScanLines_def Let_def takeWhile_all)

lemma ScanLines_snd: "snd (ScanLines s) = (\<not> fits s)"
proof -
  have "length (takeWhile P xs) < length xs \<longleftrightarrow> \<not> list_all P xs" for P :: "string \<Rightarrow> bool" and xs
    by (induction xs) auto
  then show ?thesis by (simp add: ScanLines_def fits_def Let_def)
qed

lemma well_formed_map_cr: "well_formed_lines U (map drop_cr ls) = well_formed_lines U ls"
  by (simp add: well_formed_lines_def list_all_iff)

lemma good_entries_map_cr: "good_entries U (map drop_cr ls) = good_entries U ls"
  by (induction ls) (auto split: allow_line.splits)

lemma ParseAllowList_lines:
  "ParseAllowList U s = Inr m \<longleftrightarrow> fits s \<and> allow_lines U 0 (raw_lines s) [] = Inr m"
proof (cases "fits s")
  case True
  then show ?thesis
    by (simp add: ParseAllowList_def ScanLines_fits allow_lines_map_cr split: sum.splits)
next
  case False
  then show ?thesis
    using ScanLines_snd [of s]
    by (cases "ScanLines s") (simp add: ParseAllowList_def split: sum.splits)
qed

lemma ParseAllowList_Inr:
  "ParseAllowList U s = Inr m \<longleftrightarrow>
     fits s \<and> well_formed_lines U (raw_lines s) \<and>
     m = fold put_entry (good_entries U (raw_lines s)) []"
  by (simp add: ParseAllowList_lines allow_lines_Inr)

lemma allow_line_Good:
  "allow_line_of U l = Good e \<Longrightarrow> entry_ok (CodeID (Code e)) e"
  by (auto simp: allow_line_of_def entry_ok_def Let_def split: if_splits list.splits)

lemma good_entries_ok: "e \<in> set (good_entries U ls) \<Longrightarrow> entry_ok (CodeID (Code e)) e"
  by (induction ls) (auto split: allow_line.splits dest: allow_line_Good)

lemma lookup_fold_put:
  "lookup (fold put_entry es m) lid =
     (case find (\<lambda>e. CodeID (Code e) = lid) (rev es) of None \<Rightarrow> lookup m lid | Some e \<Rightarrow> Some e)"
  by (induction es rule: rev_induct) (auto simp: put_entry_def)

lemma gmap_ok_fold_put: "gmap_ok m \<Longrightarrow> gmap_ok (fold put_entry es m)"
  by (induction es arbitrary: m) (auto simp: put_entry_def)

lemma good_entries_append: "good_entries U (xs @ ys) = good_entries U xs @ good_entries U ys"
  by (induction xs) (auto split: allow_line.splits)

lemma well_formed_append:
  "well_formed_lines U (xs @ ys) \<longleftrightarrow> well_formed_lines U xs \<and> well_formed_lines U ys"
  by (simp add: well_formed_lines_def)

lemma good_entries_blank: "good_entries U (replicate k []) = []"
  by (induction k) auto

lemma well_formed_blank: "well_formed_lines U (replicate k [])"
  by (induction k) (auto simp: well_formed_lines_def)

text \<open>Lines that \<open>readLines\<close> of the tool and the scanner of the gate read alike.\<close>

lemma Split_snoc:
  "Split (s @ [x]) c =
     (if x = c then Split s c @ [[]] else butlast (Split s c) @ [last (Split s c) @ [x]])"
  by (induction s) (auto split: list.splits)

lemma last_Split: "last (Split s c) = [] \<longleftrightarrow> s = [] \<or> last s = c"
  by (cases s rule: rev_cases) (auto simp: Split_snoc)

lemma TrimRightByte_snoc: "TrimRightByte (s @ [x]) c = (if x = c then TrimRightByte s c else s @ [x])"
  by (simp add: TrimRightByte_def)

lemma length_TrimRightByte: "length (TrimRightByte s c) \<le> length s"
  unfolding TrimRightByte_def by (metis length_dropWhile_le length_rev)

lemma TrimRightByte_id: "TrimRightByte s c = s \<Longrightarrow> s = [] \<or> last s \<noteq> c"
proof (cases s rule: rev_cases)
  case (snoc t x)
  assume "TrimRightByte s c = s"
  with snoc length_TrimRightByte [of t c] show ?thesis
    by (auto simp: TrimRightByte_snoc split: if_splits)
qed simp

lemma raw_lines_tool:
  "(\<exists>k. raw_lines s = Split (TrimRightByte s newline) newline @ replicate k []) \<or>
   raw_lines s = [] \<and> Split (TrimRightByte s newline) newline = [[]]"
proof -
  obtain k where k: "Split s newline = Split (TrimRightByte s newline) newline @ replicate k []"
    using Split_trailing by blast
  show ?thesis
  proof (cases k)
    case 0
    have nt: "TrimRightByte s newline = s"
      by (metis "0" Join_Split append.right_neutral k replicate_0)
    show ?thesis
    proof (cases "s = []")
      case True
      then show ?thesis by (simp add: raw_lines_def TrimRightByte_def)
    next
      case False
      with nt have "last (Split s newline) \<noteq> []"
        by (auto simp: last_Split dest: TrimRightByte_id)
      then have "raw_lines s = Split (TrimRightByte s newline) newline @ replicate 0 []"
        by (simp add: raw_lines_def nt)
      then show ?thesis by blast
    qed
  next
    case (Suc j)
    then have "Split s newline = (Split (TrimRightByte s newline) newline @ replicate j []) @ [[]]"
      using k by (simp add: replicate_append_same)
    then have "raw_lines s = Split (TrimRightByte s newline) newline @ replicate j []"
      unfolding raw_lines_def by (simp add: butlast_append)
    then show ?thesis by blast
  qed
qed

text \<open>A case-mapping table for the witnesses; ASCII text does not use it.\<close>

definition wit_unicode :: unicode where
  "wit_unicode = \<lparr>upper_table = (\<lambda>s. s), lower_table = (\<lambda>s. s)\<rparr>"

end
