(* ===== verification/Gate_Reload.thy ===== *)
theory Gate_Reload
  imports Gate_Lists
begin

text \<open>
  The hot-reloaded files of the gate: \<open>AllowList\<close> (\<open>server/internal/gate/gate.go\<close>) and \<open>KeyFile\<close>
  (\<open>server/internal/gate/keys.go\<close>).  \<open>TrustedProxies\<close> has the same shape and is interpreted in
  the theory Gate_Proxy.  The locale \<open>hot_file\<close> is their common contract: what a reload and a
  tick of the watcher may do to the value in force.
\<close>

section \<open>What the process sees of a file\<close>

text \<open>
  The outcome of \<open>os.Open\<close>, \<open>f.Stat\<close> (its modification time, \<open>None\<close> when \<open>Stat\<close> fails) and
  reading.  The watcher's own \<open>os.Stat\<close> is a separate observation, because the file may change
  between the two.
\<close>

datatype disk = Missing | Denied | OnDisk string "time option"

datatype reload_error = NotExist | OpenFailed | ParseFailed

section \<open>The contract\<close>

text \<open>
  \<open>value s c\<close> is the value that a state with the configuration of \<open>s\<close> takes from the text \<open>c\<close>,
  \<open>None\<close> when the text is refused.
\<close>

fun seen_value :: "('s \<Rightarrow> string \<Rightarrow> 'v option) \<Rightarrow> 's \<Rightarrow> disk \<Rightarrow> 'v option" where
  "seen_value value s (OnDisk c t) = value s c"
| "seen_value value s _ = None"

fun seen_time :: "disk \<Rightarrow> time option" where
  "seen_time (OnDisk c t) = t"
| "seen_time _ = None"

text \<open>A run of the watcher over the observations of successive ticks.\<close>

fun watch_run ::
  "(time option \<Rightarrow> disk \<Rightarrow> 's \<Rightarrow> reload_error option \<times> 's) \<Rightarrow> (time option \<times> disk) list \<Rightarrow> 's \<Rightarrow> 's"
where
  "watch_run tick [] s = s"
| "watch_run tick ((st, d) # obs) s = watch_run tick obs (snd (tick st d s))"

text \<open>The watcher's loop body, shared by the three files, over a component's \<open>reload\<close>.\<close>

definition watch_tick ::
  "(disk \<Rightarrow> 's \<Rightarrow> reload_error option \<times> 's) \<Rightarrow> ('s \<Rightarrow> time) \<Rightarrow> (time \<Rightarrow> 's \<Rightarrow> 's) \<Rightarrow>
     time option \<Rightarrow> disk \<Rightarrow> 's \<Rightarrow> reload_error option \<times> 's" where
  "watch_tick reload modTime set_mod st d s =
     (case st of
        None \<Rightarrow> (None, s)
      | Some m \<Rightarrow>
          if m = modTime s then (None, s)
          else (case reload d s of
                  (None, s') \<Rightarrow> (None, s')
                | (Some err, s') \<Rightarrow> (Some err, set_mod m s')))"

locale hot_file =
  fixes val :: "'s \<Rightarrow> string \<Rightarrow> 'v option"
    and cur :: "'s \<Rightarrow> 'v"
    and modTime :: "'s \<Rightarrow> time"
    and set_mod :: "time \<Rightarrow> 's \<Rightarrow> 's"
    and reload :: "disk \<Rightarrow> 's \<Rightarrow> reload_error option \<times> 's"
    and tick :: "time option \<Rightarrow> disk \<Rightarrow> 's \<Rightarrow> reload_error option \<times> 's"
  assumes tick_eq: "tick st d s = watch_tick reload modTime set_mod st d s"
    and reload_refused: "seen_value val s d = None \<Longrightarrow> snd (reload d s) = s \<and> fst (reload d s) \<noteq> None"
    and reload_taken: "seen_value val s d = Some v \<Longrightarrow>
      fst (reload d s) = None \<and> cur (snd (reload d s)) = v \<and>
      modTime (snd (reload d s)) = (case seen_time d of None \<Rightarrow> modTime s | Some t \<Rightarrow> t)"
    and reload_config: "val (snd (reload d s)) = val s"
    and cur_set_mod: "cur (set_mod m s) = cur s"
    and modTime_set_mod: "modTime (set_mod m s) = m"
    and val_set_mod: "val (set_mod m s) = val s"
begin

lemma tick_unchanged: "st = None \<or> st = Some (modTime s) \<Longrightarrow> tick st d s = (None, s)"
  by (auto simp: tick_eq watch_tick_def)

lemma tick_bad:
  assumes "seen_value val s d = None" and "m \<noteq> modTime s"
  shows "fst (tick (Some m) d s) \<noteq> None" and "cur (snd (tick (Some m) d s)) = cur s"
    and "modTime (snd (tick (Some m) d s)) = m"
  using reload_refused [OF assms(1)] assms(2)
  by (auto simp: tick_eq watch_tick_def cur_set_mod modTime_set_mod split: prod.splits option.splits)

lemma tick_good:
  assumes "seen_value val s d = Some v" and "m \<noteq> modTime s"
  shows "fst (tick (Some m) d s) = None" and "cur (snd (tick (Some m) d s)) = v"
    and "modTime (snd (tick (Some m) d s)) = (case seen_time d of None \<Rightarrow> modTime s | Some t \<Rightarrow> t)"
  using reload_taken [OF assms(1)] assms(2)
  by (auto simp: tick_eq watch_tick_def split: prod.splits option.splits)

lemma tick_config: "val (snd (tick st d s)) = val s"
  using reload_config [of d s]
  by (auto simp: tick_eq watch_tick_def val_set_mod split: prod.splits option.splits)

lemma tick_cur:
  "cur (snd (tick st d s)) = cur s \<or> seen_value val s d = Some (cur (snd (tick st d s)))"
proof (cases "st = None \<or> st = Some (modTime s)")
  case True
  then show ?thesis by (simp add: tick_unchanged)
next
  case False
  then obtain m where "st = Some m" "m \<noteq> modTime s" by auto
  then show ?thesis
    by (cases "seen_value val s d") (auto simp: tick_bad tick_good)
qed

text \<open>
  The value in force is the one it started with or one that a single observed version of the
  whole file parses to; never a part of a file and never a refused edit.
\<close>

lemma run_cur:
  "cur (watch_run tick obs s) = cur s \<or>
     (\<exists>(st, d) \<in> set obs. seen_value val s d = Some (cur (watch_run tick obs s)))"
proof (induction obs arbitrary: s)
  case Nil
  show ?case by simp
next
  case (Cons o1 obs)
  obtain st d where o1: "o1 = (st, d)" by (cases o1)
  let ?s = "snd (tick st d s)"
  have sv: "seen_value val ?s = seen_value val s"
  proof
    fix x show "seen_value val ?s x = seen_value val s x"
      by (cases x) (simp_all add: tick_config)
  qed
  from Cons [of ?s] tick_cur [of st d s] show ?case
    by (auto simp: o1 sv)
qed

lemma bad_edit_once:
  assumes "seen_value val s d = None" and "m \<noteq> modTime s"
  shows "tick (Some m) d' (snd (tick (Some m) d s)) = (None, snd (tick (Some m) d s))"
  using tick_bad(3) [OF assms] by (simp add: tick_unchanged)

lemma recovers:
  assumes "seen_value val s d = None" and "m \<noteq> modTime s"
    and "seen_value val s d' = Some v" and "m' \<noteq> m"
  shows "cur (watch_run tick [(Some m, d), (Some m', d')] s) = v"
proof -
  let ?s = "snd (tick (Some m) d s)"
  have "seen_value val ?s d' = Some v"
    using assms(3) by (cases d') (simp_all add: tick_config)
  moreover have "m' \<noteq> modTime ?s" using tick_bad(3) [OF assms(1,2)] assms(4) by simp
  ultimately show ?thesis by (simp add: tick_good)
qed

end

section \<open>The allow-list file\<close>

record allow_file =
  al_cur :: entries
  al_modTime :: time

definition AllowList_reload ::
  "unicode \<Rightarrow> disk \<Rightarrow> allow_file \<Rightarrow> reload_error option \<times> allow_file" where
  "AllowList_reload U d a =
     (case d of
        Missing \<Rightarrow> (Some NotExist, a)
      | Denied \<Rightarrow> (Some OpenFailed, a)
      | OnDisk s st \<Rightarrow>
          (case ParseAllowList U s of
             Inl _ \<Rightarrow> (Some ParseFailed, a)
           | Inr m \<Rightarrow>
               (let a' = a\<lparr>al_cur := m\<rparr>
                in (None, case st of None \<Rightarrow> a' | Some t \<Rightarrow> a'\<lparr>al_modTime := t\<rparr>))))"

definition LoadAllowList :: "unicode \<Rightarrow> disk \<Rightarrow> reload_error + allow_file" where
  "LoadAllowList U d =
     (case AllowList_reload U d \<lparr>al_cur = [], al_modTime = zero_time\<rparr> of
        (Some err, _) \<Rightarrow> Inl err
      | (None, a) \<Rightarrow> Inr a)"

definition AllowList_tick ::
  "unicode \<Rightarrow> time option \<Rightarrow> disk \<Rightarrow> allow_file \<Rightarrow> reload_error option \<times> allow_file" where
  "AllowList_tick U st d a =
     watch_tick (AllowList_reload U) al_modTime (\<lambda>m a. a\<lparr>al_modTime := m\<rparr>) st d a"

definition AllowList_Get :: "allow_file \<Rightarrow> entries" where
  "AllowList_Get a = al_cur a"

definition allow_value :: "unicode \<Rightarrow> allow_file \<Rightarrow> string \<Rightarrow> entries option" where
  "allow_value U a s = (case ParseAllowList U s of Inl _ \<Rightarrow> None | Inr m \<Rightarrow> Some m)"

interpretation allow: hot_file "allow_value U" al_cur al_modTime
  "\<lambda>m a. a\<lparr>al_modTime := m\<rparr>" "AllowList_reload U" "AllowList_tick U" for U
proof unfold_locales
  fix st d s show "AllowList_tick U st d s =
      watch_tick (AllowList_reload U) al_modTime (\<lambda>m a. a\<lparr>al_modTime := m\<rparr>) st d s"
    by (simp add: AllowList_tick_def)
qed (auto simp: AllowList_reload_def allow_value_def fun_eq_iff Let_def
    split: disk.splits sum.splits option.splits)

section \<open>The key file\<close>

record key_file =
  kf_extra :: "string list"
  kf_cur :: "string list"
  kf_modTime :: time

definition KeyFile_store :: "string list \<Rightarrow> key_file \<Rightarrow> key_file" where
  "KeyFile_store fileKeys k = k\<lparr>kf_cur := fileKeys @ kf_extra k\<rparr>"

definition KeyFile_reload :: "disk \<Rightarrow> key_file \<Rightarrow> reload_error option \<times> key_file" where
  "KeyFile_reload d k =
     (case d of
        Missing \<Rightarrow> (Some NotExist, k)
      | Denied \<Rightarrow> (Some OpenFailed, k)
      | OnDisk s st \<Rightarrow>
          (case ParseKeys s of
             None \<Rightarrow> (Some ParseFailed, k)
           | Some ks \<Rightarrow>
               (let k' = KeyFile_store ks k
                in (None, case st of None \<Rightarrow> k' | Some t \<Rightarrow> k'\<lparr>kf_modTime := t\<rparr>))))"

text \<open>
  A missing file is tolerated: the pointer is still nil then, so only the extra keys are stored.
\<close>

definition LoadKeyFile :: "disk \<Rightarrow> string list \<Rightarrow> reload_error + key_file" where
  "LoadKeyFile d extra =
     (case KeyFile_reload d \<lparr>kf_extra = extra, kf_cur = [], kf_modTime = zero_time\<rparr> of
        (None, k) \<Rightarrow> Inr k
      | (Some err, k) \<Rightarrow> if err = NotExist then Inr (KeyFile_store [] k) else Inl err)"

definition KeyFile_tick :: "time option \<Rightarrow> disk \<Rightarrow> key_file \<Rightarrow> reload_error option \<times> key_file" where
  "KeyFile_tick st d k = watch_tick KeyFile_reload kf_modTime (\<lambda>m k. k\<lparr>kf_modTime := m\<rparr>) st d k"

definition KeyFile_Get :: "key_file \<Rightarrow> string list" where
  "KeyFile_Get k = kf_cur k"

definition key_value :: "key_file \<Rightarrow> string \<Rightarrow> string list option" where
  "key_value k s = map_option (\<lambda>ks. ks @ kf_extra k) (ParseKeys s)"

interpretation keyfile: hot_file key_value kf_cur kf_modTime
  "\<lambda>m k. k\<lparr>kf_modTime := m\<rparr>" KeyFile_reload KeyFile_tick
proof unfold_locales
  fix st d s show "KeyFile_tick st d s =
      watch_tick KeyFile_reload kf_modTime (\<lambda>m k. k\<lparr>kf_modTime := m\<rparr>) st d s"
    by (simp add: KeyFile_tick_def)
qed (auto simp: KeyFile_reload_def KeyFile_store_def key_value_def fun_eq_iff Let_def
    split: disk.splits sum.splits option.splits)

end
