(* ===== verification/Net_IP.thy ===== *)
theory Net_IP
  imports Go_Text "HOL-Library.Word"
begin

unbundle bit_operations_syntax

text \<open>
  The parts of Go's \<open>net\<close> package that the gate and the doctor use: \<open>ParseIP\<close>, \<open>IP.To4\<close>,
  \<open>IP.String\<close>, \<open>IP.IsLoopback\<close>, \<open>ParseCIDR\<close>, \<open>CIDRMask\<close>, \<open>IPNet.Contains\<close> and \<open>SplitHostPort\<close>.
  An address is the list of its bytes (16 from \<open>ParseIP\<close>, 4 from \<open>To4\<close>), \<open>None\<close> is the nil
  address or an error.
\<close>

type_synonym byte = "8 word"
type_synonym ip = "byte list"

definition v4InV6Prefix :: ip where
  "v4InV6Prefix = [0, 0, 0, 0, 0, 0, 0, 0, 0, 0, 255, 255]"

definition To4 :: "ip \<Rightarrow> ip option" where
  "To4 a =
     (if length a = 4 then Some a
      else if length a = 16 \<and> take 12 a = v4InV6Prefix then Some (drop 12 a)
      else None)"

section \<open>Parsing addresses\<close>

text \<open>One decimal octet: no empty field, no leading zero, at most 255.\<close>

definition parse_octet :: "string \<Rightarrow> byte option" where
  "parse_octet s =
     (if s = [] \<or> length s > 1 \<and> hd s = CHR ''0'' then None
      else (case digits_value 0 s of None \<Rightarrow> None
            | Some n \<Rightarrow> if n \<le> 255 then Some (word_of_nat n) else None))"

definition parse_v4 :: "string \<Rightarrow> ip option" where
  "parse_v4 s =
     (case map parse_octet (Split s (CHR ''.'')) of
        [Some a, Some b, Some c, Some d] \<Rightarrow> Some [a, b, c, d]
      | _ \<Rightarrow> None)"

abbreviation is_hex :: "char \<Rightarrow> bool" where
  "is_hex c \<equiv> hex_val c \<noteq> None"

fun hex_value :: "nat \<Rightarrow> string \<Rightarrow> nat" where
  "hex_value a [] = a"
| "hex_value a (c # s) = hex_value (16 * a + (case hex_val c of None \<Rightarrow> 0 | Some d \<Rightarrow> d)) s"

text \<open>
  The loop of \<open>netip.parseIPv6\<close>: the bytes read so far, the position of the ellipsis and the
  rest of the text.
\<close>

function v6_loop :: "ip \<Rightarrow> nat option \<Rightarrow> string \<Rightarrow> (ip \<times> nat option \<times> string) option" where
  "v6_loop a ell s =
     (if length a \<ge> 16 then Some (a, ell, s)
      else
        (let hs = takeWhile is_hex s; rest = dropWhile is_hex s; acc = hex_value 0 hs;
             a' = a @ [word_of_nat (acc div 256), word_of_nat acc]
         in if hs = [] \<or> length hs > 4 then None
            else if rest \<noteq> [] \<and> hd rest = CHR ''.'' then
              (if ell = None \<and> length a \<noteq> 12 \<or> length a + 4 > 16 then None
               else (case parse_v4 s of None \<Rightarrow> None | Some v4 \<Rightarrow> Some (a @ v4, ell, [])))
            else if rest = [] then Some (a', ell, [])
            else if hd rest \<noteq> CHR '':'' \<or> length rest = 1 then None
            else if hd (tl rest) = CHR '':'' then
              (if ell \<noteq> None then None
               else if length rest = 2 then Some (a', Some (length a'), [])
               else v6_loop a' (Some (length a')) (drop 2 rest))
            else v6_loop a' ell (tl rest)))"
  by pat_completeness auto
termination
proof (relation "measure (\<lambda>(a, ell, s). length s)", goal_cases)
  case 1
  then show ?case by simp
next
  case (2 a ell s hs rest acc a')
  then have "length rest < length s"
    by (metis length_append less_add_same_cancel2 length_greater_0_conv takeWhile_dropWhile_id)
  then show ?case by simp
next
  case (3 a ell s hs rest acc a')
  then have "length rest < length s"
    by (metis length_append less_add_same_cancel2 length_greater_0_conv takeWhile_dropWhile_id)
  then show ?case by simp
qed

declare v6_loop.simps [simp del]

definition parse_v6 :: "string \<Rightarrow> ip option" where
  "parse_v6 s =
     (let lead = HasPrefix s ''::'';
          t = (if lead then drop 2 s else s)
      in if lead \<and> t = [] then Some (replicate 16 0)
         else (case v6_loop [] (if lead then Some 0 else None) t of
             None \<Rightarrow> None
           | Some (a, ell, rest) \<Rightarrow>
               if rest \<noteq> [] then None
               else if length a < 16 then
                 (case ell of None \<Rightarrow> None
                  | Some k \<Rightarrow> Some (take k a @ replicate (16 - length a) 0 @ drop k a))
               else if ell \<noteq> None then None
               else Some a))"

text \<open>
  \<open>netip.ParseAddr\<close> for an address without zone: the first of \<open>.\<close>, \<open>:\<close> and \<open>%\<close> decides the
  family.  The second component is the number of address bits.
\<close>

definition ParseAddr :: "string \<Rightarrow> (ip \<times> nat) option" where
  "ParseAddr s =
     (case dropWhile (\<lambda>c. c \<noteq> CHR ''.'' \<and> c \<noteq> CHR '':'' \<and> c \<noteq> CHR ''%'') s of
        [] \<Rightarrow> None
      | c # _ \<Rightarrow>
          if c = CHR ''.'' then map_option (\<lambda>a. (v4InV6Prefix @ a, 32)) (parse_v4 s)
          else if c = CHR '':'' \<and> CHR ''%'' \<notin> set s then map_option (\<lambda>a. (a, 128)) (parse_v6 s)
          else None)"

definition ParseIP :: "string \<Rightarrow> ip option" where
  "ParseIP s = map_option fst (ParseAddr s)"

section \<open>Printing addresses\<close>

fun hex_of_nat :: "nat \<Rightarrow> string" where
  "hex_of_nat n = (if n < 16 then [hex_char n] else hex_of_nat (n div 16) @ [hex_char (n mod 16)])"

declare hex_of_nat.simps [simp del]

fun v6_groups :: "ip \<Rightarrow> nat list" where
  "v6_groups (a # b # s) = (256 * unat a + unat b) # v6_groups s"
| "v6_groups _ = []"

definition zero_run :: "nat list \<Rightarrow> nat \<Rightarrow> nat" where
  "zero_run gs i = length (takeWhile (\<lambda>g. g = 0) (drop i gs))"

definition best_run :: "nat list \<Rightarrow> nat \<times> nat" where
  "best_run gs =
     fold (\<lambda>i (st, en). if zero_run gs i \<ge> 2 \<and> zero_run gs i > en - st
                         then (i, i + zero_run gs i) else (st, en)) [0..<8] (255, 255)"

definition v6_string :: "ip \<Rightarrow> string" where
  "v6_string a =
     (let gs = v6_groups a; (st, en) = best_run gs; show = (\<lambda>gs. Join (map hex_of_nat gs) '':'')
      in if st = 255 then show gs else show (take st gs) @ ''::'' @ show (drop en gs))"

definition v4_string :: "ip \<Rightarrow> string" where
  "v4_string a = Join (map (\<lambda>b. dec_digits (unat b)) a) ''.''"

text \<open>\<open>IP.String\<close> of a 4-byte or 16-byte address.\<close>

definition IP_String :: "ip \<Rightarrow> string" where
  "IP_String a = (case To4 a of Some b \<Rightarrow> v4_string b | None \<Rightarrow> v6_string a)"

definition IsLoopback :: "ip \<Rightarrow> bool" where
  "IsLoopback a =
     (case To4 a of Some b \<Rightarrow> hd b = 127 | None \<Rightarrow> a = replicate 15 0 @ [1])"

section \<open>Networks\<close>

record ipnet =
  net_IP :: ip
  net_Mask :: ip

definition mask_byte :: "nat \<Rightarrow> byte" where
  "mask_byte k = word_of_nat (256 - 2 ^ (8 - k))"

definition CIDRMask :: "nat \<Rightarrow> nat \<Rightarrow> ip" where
  "CIDRMask ones bits = map (\<lambda>i. mask_byte (min 8 (ones - 8 * i))) [0..<bits div 8]"

definition and_bytes :: "ip \<Rightarrow> ip \<Rightarrow> ip" where
  "and_bytes a m = map2 (\<lambda>x y. x AND y) a m"

definition ParseCIDR :: "string \<Rightarrow> ipnet option" where
  "ParseCIDR s =
     (let (addr, mask, found) = Cut s (CHR ''/'')
      in if \<not> found then None
         else (case (ParseAddr addr, ParseUint10 mask) of
             (Some (a, bits), Some n) \<Rightarrow>
               if n > bits then None
               else
                 (let m = CIDRMask n bits
                  in Some \<lparr>net_IP = and_bytes (if bits = 32 then drop 12 a else a) m,
                           net_Mask = m\<rparr>)
           | _ \<Rightarrow> None))"

text \<open>\<open>networkNumberAndMask\<close> and \<open>IPNet.Contains\<close>.\<close>

definition network_number :: "ipnet \<Rightarrow> (ip \<times> ip) option" where
  "network_number n =
     (let m = net_Mask n
      in case To4 (net_IP n) of
           Some a \<Rightarrow>
             (if length m = 4 then Some (a, m)
              else if length m = 16 then Some (a, drop 12 m) else None)
         | None \<Rightarrow> if length (net_IP n) = 16 \<and> length m = 16 then Some (net_IP n, m) else None)"

definition net_contains :: "ipnet \<Rightarrow> ip \<Rightarrow> bool" where
  "net_contains n a =
     (let a' = (case To4 a of Some b \<Rightarrow> b | None \<Rightarrow> a)
      in case network_number n of
           None \<Rightarrow> False
         | Some (nn, m) \<Rightarrow> length a' = length nn \<and> and_bytes nn m = and_bytes a' m)"

section \<open>Host and port\<close>

text \<open>\<open>net.SplitHostPort\<close>; \<open>None\<close> is the error.\<close>

definition SplitHostPort :: "string \<Rightarrow> (string \<times> string) option" where
  "SplitHostPort hp =
     (if CHR '':'' \<notin> set hp then None
      else
        (let port = after_last (CHR '':'') hp; front = before_last (CHR '':'') hp
         in if hd hp = CHR ''['' then
              (if CHR '']'' \<notin> set hp then None
               else
                 (let host = tl (before (CHR '']'') hp); rest = after (CHR '']'') hp
                  in if \<not> (rest \<noteq> [] \<and> hd rest = CHR '':'' \<and> CHR '':'' \<notin> set (tl rest)) then None
                     else if CHR ''['' \<in> set (tl hp) \<or> CHR '']'' \<in> set rest then None
                     else Some (host, port)))
            else if CHR '':'' \<in> set front then None
            else if CHR ''['' \<in> set hp \<or> CHR '']'' \<in> set hp then None
            else Some (front, port)))"

end
