(* ===== verification/Gate_Proxy.thy ===== *)
theory Gate_Proxy
  imports Gate_Reload Net_IP
begin

text \<open>
  \<open>server/internal/gate/proxy.go\<close>: CDN providers, the trusted network list (\<open>ParseCIDRs\<close>,
  \<open>TrustedProxies\<close>) and the resolution of the client address from a request
  (\<open>ResolveClientIP\<close>, \<open>parseSingleIP\<close>).  The lemmas show which parts of a request can influence
  the address: nothing but the peer for an untrusted peer, and in an \<open>X-Forwarded-For\<close> chain
  nothing to the left of the rightmost untrusted hop.
\<close>

section \<open>Requests\<close>

text \<open>
  The fields of \<open>http.Request\<close> that the server reads.  The server stores header names in
  canonical form.
\<close>

record request =
  Method :: string
  RemoteAddr :: string
  Path :: string
  Header :: "(string, string list) gmap"

definition token_char :: "char \<Rightarrow> bool" where
  "token_char c \<longleftrightarrow> c \<in> set (''0123456789abcdefghijklmnopqrstuvwxyz'' @
     ''ABCDEFGHIJKLMNOPQRSTUVWXYZ!#$%&*+-.^_|~'' @ [CHR 0x27, CHR 0x60])"

fun canonical_aux :: "bool \<Rightarrow> string \<Rightarrow> string" where
  "canonical_aux up [] = []"
| "canonical_aux up (c # s) =
     (if up then upper_char c else lower_char c) # canonical_aux (c = CHR ''-'') s"

text \<open>\<open>textproto.CanonicalMIMEHeaderKey\<close>.\<close>

definition CanonicalHeaderKey :: "string \<Rightarrow> string" where
  "CanonicalHeaderKey s = (if list_all token_char s then canonical_aux True s else s)"

definition Header_Values :: "request \<Rightarrow> string \<Rightarrow> string list" where
  "Header_Values r k =
     (case lookup (Header r) (CanonicalHeaderKey k) of None \<Rightarrow> [] | Some vs \<Rightarrow> vs)"

definition Header_Get :: "request \<Rightarrow> string \<Rightarrow> string" where
  "Header_Get r k = (case Header_Values r k of [] \<Rightarrow> [] | v # _ \<Rightarrow> v)"

definition Header_Del :: "string \<Rightarrow> request \<Rightarrow> request" where
  "Header_Del k r = r\<lparr>Header := filter (\<lambda>kv. fst kv \<noteq> CanonicalHeaderKey k) (Header r)\<rparr>"

section \<open>Providers\<close>

type_synonym provider = string

definition ProviderNone :: provider where
  "ProviderNone = []"

definition ProviderCloudflare :: provider where
  "ProviderCloudflare = ''cloudflare''"

definition ProviderFastly :: provider where
  "ProviderFastly = ''fastly''"

definition ProviderGeneric :: provider where
  "ProviderGeneric = ''generic''"

definition provider_valid :: "provider \<Rightarrow> bool" where
  "provider_valid p \<longleftrightarrow>
     p \<in> {ProviderNone, ProviderCloudflare, ProviderFastly, ProviderGeneric}"

definition ParseProvider :: "unicode \<Rightarrow> string \<Rightarrow> provider option" where
  "ParseProvider U s =
     (let p = ToLower U (TrimSpace s);
          p = (if p = ''none'' then ProviderNone else p)
      in if provider_valid p then Some p else None)"

section \<open>The trusted networks\<close>

datatype cidr_error = NotIP nat string | BadCIDR nat | CIDRTooLong

fun cidr_lines :: "nat \<Rightarrow> string list \<Rightarrow> ipnet list \<Rightarrow> cidr_error + ipnet list" where
  "cidr_lines n [] out = Inr out"
| "cidr_lines n (raw # ls) out =
     (let line = strip_comment raw
      in if line = [] then cidr_lines (Suc n) ls out
         else
           (case (if CHR ''/'' \<in> set line then Some line
                  else map_option
                    (\<lambda>a. line @ (if To4 a \<noteq> None then ''/32'' else ''/128'')) (ParseIP line)) of
              None \<Rightarrow> Inl (NotIP (Suc n) line)
            | Some cidr \<Rightarrow>
                (case ParseCIDR cidr of
                   None \<Rightarrow> Inl (BadCIDR (Suc n))
                 | Some nw \<Rightarrow> cidr_lines (Suc n) ls (out @ [nw]))))"

definition ParseCIDRs :: "string \<Rightarrow> cidr_error + ipnet list" where
  "ParseCIDRs s =
     (let (ls, too_long) = ScanLines s
      in case cidr_lines 0 ls [] of
           Inl err \<Rightarrow> Inl err
         | Inr nets \<Rightarrow> if too_long then Inl CIDRTooLong else Inr nets)"

record trusted_proxies =
  tp_cur :: "ipnet list"
  tp_modTime :: time

definition NewTrustedProxies :: "ipnet list \<Rightarrow> trusted_proxies" where
  "NewTrustedProxies nets = \<lparr>tp_cur = nets, tp_modTime = zero_time\<rparr>"

definition TrustedProxies_reload ::
  "disk \<Rightarrow> trusted_proxies \<Rightarrow> reload_error option \<times> trusted_proxies" where
  "TrustedProxies_reload d t =
     (case d of
        Missing \<Rightarrow> (Some NotExist, t)
      | Denied \<Rightarrow> (Some OpenFailed, t)
      | OnDisk s st \<Rightarrow>
          (case ParseCIDRs s of
             Inl _ \<Rightarrow> (Some ParseFailed, t)
           | Inr nets \<Rightarrow>
               (let t' = t\<lparr>tp_cur := nets\<rparr>
                in (None, case st of None \<Rightarrow> t' | Some m \<Rightarrow> t'\<lparr>tp_modTime := m\<rparr>))))"

text \<open>A missing file means an empty set.\<close>

definition LoadTrustedProxies :: "disk \<Rightarrow> reload_error + trusted_proxies" where
  "LoadTrustedProxies d =
     (case TrustedProxies_reload d \<lparr>tp_cur = [], tp_modTime = zero_time\<rparr> of
        (None, t) \<Rightarrow> Inr t
      | (Some err, t) \<Rightarrow> if err = NotExist then Inr t else Inl err)"

definition TrustedProxies_tick ::
  "time option \<Rightarrow> disk \<Rightarrow> trusted_proxies \<Rightarrow> reload_error option \<times> trusted_proxies" where
  "TrustedProxies_tick st d t =
     watch_tick TrustedProxies_reload tp_modTime (\<lambda>m t. t\<lparr>tp_modTime := m\<rparr>) st d t"

definition TrustedProxies_Len :: "trusted_proxies \<Rightarrow> nat" where
  "TrustedProxies_Len t = length (tp_cur t)"

definition proxies_value :: "trusted_proxies \<Rightarrow> string \<Rightarrow> ipnet list option" where
  "proxies_value t s = (case ParseCIDRs s of Inl _ \<Rightarrow> None | Inr nets \<Rightarrow> Some nets)"

interpretation trusted: hot_file proxies_value tp_cur tp_modTime
  "\<lambda>m t. t\<lparr>tp_modTime := m\<rparr>" TrustedProxies_reload TrustedProxies_tick
proof unfold_locales
  fix st d s show "TrustedProxies_tick st d s =
      watch_tick TrustedProxies_reload tp_modTime (\<lambda>m t. t\<lparr>tp_modTime := m\<rparr>) st d s"
    by (simp add: TrustedProxies_tick_def)
qed (auto simp: TrustedProxies_reload_def proxies_value_def fun_eq_iff Let_def
    split: disk.splits sum.splits option.splits)

text \<open>\<open>None\<close> is a nil receiver or a nil address.\<close>

definition TrustedProxies_Contains :: "trusted_proxies option \<Rightarrow> ip option \<Rightarrow> bool" where
  "TrustedProxies_Contains t a =
     (case (t, a) of
        (Some tp, Some ip) \<Rightarrow> list_ex (\<lambda>n. net_contains n ip) (tp_cur tp)
      | _ \<Rightarrow> False)"

section \<open>The client's address\<close>

definition parseSingleIP :: "string \<Rightarrow> string" where
  "parseSingleIP v0 =
     (let v = TrimSpace v0
      in if v = [] \<or> ContainsAny v '', '' then []
         else (case ParseIP v of None \<Rightarrow> [] | Some a \<Rightarrow> IP_String a))"

text \<open>The loop over \<open>X-Forwarded-For\<close>, on the reversed parts.\<close>

fun xff_scan :: "string \<Rightarrow> trusted_proxies option \<Rightarrow> string list \<Rightarrow> string \<times> bool" where
  "xff_scan host tp [] = (host, True)"
| "xff_scan host tp (p # ps) =
     (case ParseIP (TrimSpace p) of
        None \<Rightarrow> (host, True)
      | Some cand \<Rightarrow>
          if \<not> TrustedProxies_Contains tp (Some cand) then (IP_String cand, True)
          else xff_scan host tp ps)"

definition peer_host :: "request \<Rightarrow> string" where
  "peer_host r = (case SplitHostPort (RemoteAddr r) of None \<Rightarrow> RemoteAddr r | Some (h, _) \<Rightarrow> h)"

definition ResolveClientIP ::
  "request \<Rightarrow> trusted_proxies option \<Rightarrow> provider \<Rightarrow> string \<times> bool" where
  "ResolveClientIP r tp prov =
     (let host = peer_host r; peer = ParseIP host
      in if prov = ProviderNone \<or> \<not> TrustedProxies_Contains tp peer then (host, False)
         else if prov = ProviderCloudflare then
           (let ip = parseSingleIP (Header_Get r ''CF-Connecting-IP'')
            in if ip \<noteq> [] then (ip, True) else (host, True))
         else if prov = ProviderFastly then
           (let ip = parseSingleIP (Header_Get r ''Fastly-Client-IP'')
            in if ip \<noteq> [] then (ip, True) else (host, True))
         else if prov = ProviderGeneric then
           xff_scan host tp
             (rev (Split (Join (Header_Values r ''X-Forwarded-For'') '','') (CHR '','')))
         else (host, True))"

lemmas provider_defs = ProviderNone_def ProviderCloudflare_def ProviderFastly_def
  ProviderGeneric_def

lemma xff_scan_via [simp]: "snd (xff_scan host tp ps) = True"
  by (induction ps) (auto split: option.splits)

lemma Resolve_untrusted:
  "prov = ProviderNone \<or> \<not> TrustedProxies_Contains tp (ParseIP (peer_host r)) \<Longrightarrow>
     ResolveClientIP r tp prov = (peer_host r, False)"
  by (auto simp: ResolveClientIP_def Let_def)

lemma Resolve_via:
  "snd (ResolveClientIP r tp prov) \<longleftrightarrow>
     prov \<noteq> ProviderNone \<and> TrustedProxies_Contains tp (ParseIP (peer_host r))"
  by (auto simp: ResolveClientIP_def Let_def)

lemma xff_scan_trusted:
  assumes "\<forall>p \<in> set ps. \<exists>a. ParseIP (TrimSpace p) = Some a \<and> TrustedProxies_Contains tp (Some a)"
  shows "xff_scan host tp (ps @ qs) = xff_scan host tp qs"
  using assms by (induction ps) auto

end
