(* ===== verification/Gate_Limiter.thy ===== *)
theory Gate_Limiter
  imports Go_Numbers Prelude
begin

text \<open>
  \<open>server/internal/gate/limiter.go\<close>: the limiter that blocks an address after repeated bad
  tokens.  \<open>Fail\<close> includes the sweep that bounds the memory under a flood of addresses.  The
  lemmas show that the limiter refines one independent automaton per address (\<open>addr_run\<close>), the
  sweep and the other addresses being invisible, and what a block means in terms of the failures.
\<close>

section \<open>State and operations\<close>

record bucket =
  fails :: int
  windowStart :: time
  blockedUntil :: time

record limiter =
  MaxFails :: int
  Window :: duration
  BlockFor :: duration
  lim_m :: "(string, bucket) gmap"

definition NewLimiter :: "int \<Rightarrow> duration \<Rightarrow> duration \<Rightarrow> limiter" where
  "NewLimiter maxFails window blockFor =
     \<lparr>MaxFails = maxFails, Window = window, BlockFor = blockFor, lim_m = []\<rparr>"

definition Blocked :: "limiter \<Rightarrow> string \<Rightarrow> time \<Rightarrow> bool" where
  "Blocked l ip now =
     (case lookup (lim_m l) ip of None \<Rightarrow> False | Some b \<Rightarrow> now < blockedUntil b)"

text \<open>The buckets that the sweep deletes.\<close>

definition stale :: "limiter \<Rightarrow> time \<Rightarrow> bucket \<Rightarrow> bool" where
  "stale l now b \<longleftrightarrow> blockedUntil b < now \<and> Window l < Sub now (windowStart b)"

definition sweep :: "limiter \<Rightarrow> time \<Rightarrow> limiter" where
  "sweep l now = (if 100000 < length (lim_m l)
     then l\<lparr>lim_m := delete_if (stale l now) (lim_m l)\<rparr> else l)"

definition new_bucket :: "time \<Rightarrow> bucket" where
  "new_bucket now = \<lparr>fails = 0, windowStart = now, blockedUntil = zero_time\<rparr>"

definition bucket_fail :: "limiter \<Rightarrow> time \<Rightarrow> bucket \<Rightarrow> bucket" where
  "bucket_fail l now b0 =
     (let b1 = (if Window l < Sub now (windowStart b0)
                then b0\<lparr>fails := 0, windowStart := now\<rparr> else b0);
          b2 = b1\<lparr>fails := fails b1 + 1\<rparr>
      in if MaxFails l \<le> fails b2
         then b2\<lparr>blockedUntil := now + BlockFor l, fails := 0, windowStart := now\<rparr>
         else b2)"

definition Fail :: "limiter \<Rightarrow> string \<Rightarrow> time \<Rightarrow> limiter" where
  "Fail l0 ip now =
     (let l = sweep l0 now;
          b = (case lookup (lim_m l) ip of None \<Rightarrow> new_bucket now | Some b \<Rightarrow> b)
      in l\<lparr>lim_m := put ip (bucket_fail l now b) (lim_m l)\<rparr>)"

text \<open>A sequence of failures, in the order in which the lock is taken.\<close>

definition fail_all :: "(string \<times> time) list \<Rightarrow> limiter \<Rightarrow> limiter" where
  "fail_all evs l = fold (\<lambda>(ip, t) l. Fail l ip t) evs l"

section \<open>The automaton of one address\<close>

fun addr_step :: "limiter \<Rightarrow> time \<Rightarrow> bucket option \<Rightarrow> bucket option" where
  "addr_step l now None = Some (bucket_fail l now (new_bucket now))"
| "addr_step l now (Some b) = Some (bucket_fail l now b)"

definition addr_run :: "limiter \<Rightarrow> time list \<Rightarrow> bucket option" where
  "addr_run l ts = fold (addr_step l) ts None"

fun addr_blocked :: "bucket option \<Rightarrow> time \<Rightarrow> bool" where
  "addr_blocked None now = False"
| "addr_blocked (Some b) now = (now < blockedUntil b)"

definition own_times :: "string \<Rightarrow> (string \<times> time) list \<Rightarrow> time list" where
  "own_times ip evs = map snd (filter (\<lambda>e. fst e = ip) evs)"

section \<open>Facts on the operations\<close>

lemma sweep_config [simp]:
  "MaxFails (sweep l now) = MaxFails l" "Window (sweep l now) = Window l"
  "BlockFor (sweep l now) = BlockFor l"
  by (simp_all add: sweep_def)

lemma Fail_config [simp]:
  "MaxFails (Fail l ip now) = MaxFails l" "Window (Fail l ip now) = Window l"
  "BlockFor (Fail l ip now) = BlockFor l"
  by (simp_all add: Fail_def Let_def)

lemma bucket_fail_config:
  "MaxFails l = MaxFails l' \<Longrightarrow> Window l = Window l' \<Longrightarrow> BlockFor l = BlockFor l' \<Longrightarrow>
     bucket_fail l now b = bucket_fail l' now b"
  by (simp add: bucket_fail_def Let_def)

lemma bucket_fail_sweep [simp]: "bucket_fail (sweep l now) t b = bucket_fail l t b"
  by (rule bucket_fail_config) simp_all

lemma addr_step_config:
  "MaxFails l = MaxFails l' \<Longrightarrow> Window l = Window l' \<Longrightarrow> BlockFor l = BlockFor l' \<Longrightarrow>
     addr_step l now b = addr_step l' now b"
  by (cases b) (auto intro: bucket_fail_config)

lemma gmap_ok_sweep: "gmap_ok (lim_m l) \<Longrightarrow> gmap_ok (lim_m (sweep l now))"
  by (auto simp: sweep_def)

lemma gmap_ok_Fail: "gmap_ok (lim_m l) \<Longrightarrow> gmap_ok (lim_m (Fail l ip now))"
  by (auto simp: Fail_def Let_def gmap_ok_sweep)

lemma lookup_sweep:
  "gmap_ok (lim_m l) \<Longrightarrow> lookup (lim_m (sweep l now)) ip = lookup (lim_m l) ip \<or>
     lookup (lim_m (sweep l now)) ip = None \<and>
       (\<exists>b. lookup (lim_m l) ip = Some b \<and> stale l now b)"
  by (auto simp: sweep_def lookup_delete_if split: option.splits)

lemma lookup_Fail_other:
  "j \<noteq> ip \<Longrightarrow> lookup (lim_m (Fail l ip now)) j = lookup (lim_m (sweep l now)) j"
  by (simp add: Fail_def Let_def)

lemma lookup_Fail_own:
  "lookup (lim_m (Fail l ip now)) ip = addr_step l now (lookup (lim_m (sweep l now)) ip)"
  by (cases "lookup (lim_m (sweep l now)) ip") (simp_all add: Fail_def Let_def)

lemma stale_later: "stale l now b \<Longrightarrow> now \<le> t \<Longrightarrow> stale l t b"
  by (auto simp: stale_def Sub_def)

lemma stale_not_blocked: "stale l now b \<Longrightarrow> now \<le> t \<Longrightarrow> \<not> t < blockedUntil b"
  by (simp add: stale_def)

section \<open>The contract of a limiter\<close>

locale address_limiter =
  fixes ok :: "'l \<Rightarrow> bool"
    and blocked :: "'l \<Rightarrow> string \<Rightarrow> time \<Rightarrow> bool"
    and fail :: "'l \<Rightarrow> string \<Rightarrow> time \<Rightarrow> 'l"
  assumes fail_ok: "ok l \<Longrightarrow> ok (fail l ip (now :: time))"
    and fail_other: "ok l \<Longrightarrow> j \<noteq> ip \<Longrightarrow> now \<le> t \<Longrightarrow> blocked (fail l ip now) j t = blocked l j t"
begin

lemma fails_of_others:
  assumes "ok l" and "j \<notin> fst ` set evs" and "\<forall>e \<in> set evs. snd e \<le> t"
  shows "blocked (fold (\<lambda>(ip, u) l. fail l ip u) evs l) j t = blocked l j t"
  using assms
proof (induction evs arbitrary: l)
  case Nil
  show ?case by simp
next
  case (Cons e evs)
  obtain ip u where e: "e = (ip, u)" by (cases e)
  with Cons.prems have "j \<noteq> ip" "u \<le> t" by auto
  with Cons.prems have "blocked (fail l ip u) j t = blocked l j t" by (simp add: fail_other)
  with Cons.IH [of "fail l ip u"] Cons.prems show ?case by (simp add: e fail_ok)
qed

lemma fold_ok: "ok l \<Longrightarrow> ok (fold (\<lambda>(ip, u) l. fail l ip u) evs l)"
  by (induction evs arbitrary: l) (auto simp: fail_ok)

end

interpretation lim: address_limiter "\<lambda>l. gmap_ok (lim_m l)" Blocked Fail
proof unfold_locales
  fix l :: limiter and j ip :: string and now t :: time
  assume ok: "gmap_ok (lim_m l)" and other: "j \<noteq> ip" and le: "now \<le> t"
  from lookup_sweep [OF ok, of now j] le show "Blocked (Fail l ip now) j t = Blocked l j t"
    by (auto simp: Blocked_def lookup_Fail_other [OF other] dest: stale_not_blocked)
qed (rule gmap_ok_Fail)

section \<open>The limiter refines the automaton\<close>

text \<open>
  The simulation relation at time \<open>now\<close>: the stored bucket is the automaton's, or the sweep
  deleted a stale one, or they differ only in a block that is over.
\<close>

definition addr_sim :: "limiter \<Rightarrow> time \<Rightarrow> bucket option \<Rightarrow> bucket option \<Rightarrow> bool" where
  "addr_sim l now c s \<longleftrightarrow> c = s \<or>
     (c = None \<and> (\<exists>b. s = Some b \<and> stale l now b)) \<or>
     (\<exists>b b'. c = Some b \<and> s = Some b' \<and> fails b = fails b' \<and> windowStart b = windowStart b' \<and>
        blockedUntil b < now \<and> blockedUntil b' < now)"

lemma addr_sim_later: "addr_sim l now c s \<Longrightarrow> now \<le> t \<Longrightarrow> addr_sim l t c s"
  unfolding addr_sim_def by (fastforce dest: stale_later)

lemma addr_sim_blocked: "addr_sim l now c s \<Longrightarrow> now \<le> t \<Longrightarrow> addr_blocked c t = addr_blocked s t"
  by (auto simp: addr_sim_def stale_def)

lemma addr_sim_drop:
  "addr_sim l now (Some b) s \<Longrightarrow> stale l now b \<Longrightarrow> addr_sim l now None s"
  by (auto simp: addr_sim_def stale_def)

lemma addr_sim_step:
  assumes "addr_sim l now c s" and "zero_time < now"
  shows "addr_sim l now (addr_step l now c) (addr_step l now s)"
proof -
  consider "c = s" | b where "c = None" "s = Some b" "stale l now b"
    | b b' where "c = Some b" "s = Some b'" "fails b = fails b'" "windowStart b = windowStart b'"
        "blockedUntil b < now" "blockedUntil b' < now"
    using assms(1) by (auto simp: addr_sim_def)
  then show ?thesis
  proof cases
    case 1
    then show ?thesis by (simp add: addr_sim_def)
  next
    case 2
    then show ?thesis using assms(2)
      by (auto simp: addr_sim_def bucket_fail_def new_bucket_def stale_def Let_def)
  next
    case 3
    then show ?thesis
      by (auto simp: addr_sim_def bucket_fail_def Let_def)
  qed
qed

lemma fail_all_config [simp]:
  "MaxFails (fail_all evs l) = MaxFails l" "Window (fail_all evs l) = Window l"
  "BlockFor (fail_all evs l) = BlockFor l"
  unfolding fail_all_def by (induction evs arbitrary: l) auto

lemma gmap_ok_fail_all: "gmap_ok (lim_m l) \<Longrightarrow> gmap_ok (lim_m (fail_all evs l))"
  unfolding fail_all_def by (rule lim.fold_ok)

lemma fail_all_snoc: "fail_all (evs @ [(ip, t)]) l = Fail (fail_all evs l) ip t"
  by (simp add: fail_all_def)

lemma addr_run_snoc: "addr_run l (ts @ [t]) = addr_step l t (addr_run l ts)"
  by (simp add: addr_run_def)

lemma stale_config: "Window l = Window l' \<Longrightarrow> stale l = stale l'"
  by (simp add: stale_def fun_eq_iff)

lemma fail_all_sim:
  assumes "sorted (map snd evs)" and "\<forall>e \<in> set evs. snd e \<le> now" and "\<forall>e \<in> set evs. zero_time < snd e"
    and ok: "gmap_ok (lim_m l)" and fresh: "lookup (lim_m l) ip = None"
  shows "addr_sim l now (lookup (lim_m (fail_all evs l)) ip) (addr_run l (own_times ip evs))"
  using assms(1-3)
proof (induction evs arbitrary: now rule: rev_induct)
  case Nil
  show ?case by (simp add: fail_all_def own_times_def addr_run_def addr_sim_def fresh)
next
  case (snoc e evs)
  obtain j t where e: "e = (j, t)" by (cases e)
  let ?l = "fail_all evs l"
  let ?s = "addr_run l (own_times ip evs)"
  have ok': "gmap_ok (lim_m ?l)" by (rule gmap_ok_fail_all [OF ok])
  have "addr_sim l t (lookup (lim_m ?l) ip) ?s"
    using snoc.prems by (intro snoc.IH) (auto simp: e sorted_append)
  then have sw: "addr_sim l t (lookup (lim_m (sweep ?l t)) ip) ?s"
    using lookup_sweep [OF ok', of t ip] stale_config [of ?l l] addr_sim_drop by auto
  have t: "zero_time < t" "t \<le> now" using snoc.prems by (auto simp: e)
  have step: "addr_step ?l t = addr_step l t"
    by (rule ext) (rule addr_step_config; simp)
  have "addr_sim l t (lookup (lim_m (fail_all (evs @ [(j, t)]) l)) ip)
      (addr_run l (own_times ip (evs @ [(j, t)])))"
  proof (cases "j = ip")
    case True
    with addr_sim_step [OF sw t(1)] show ?thesis
      by (simp add: fail_all_snoc lookup_Fail_own own_times_def addr_run_snoc step)
  next
    case False
    with sw show ?thesis
      by (simp add: fail_all_snoc lookup_Fail_other own_times_def)
  qed
  then show ?case unfolding e by (rule addr_sim_later) (rule t(2))
qed


section \<open>What a block means\<close>

text \<open>
  A burst: \<open>max 1 MaxFails\<close> failures, next to each other in the sequence, from the first to the
  last within \<open>Window\<close>.
\<close>

definition burst :: "limiter \<Rightarrow> time list \<Rightarrow> time \<Rightarrow> bool" where
  "burst l ts u \<longleftrightarrow> (\<exists>pre cur post. ts = pre @ cur @ post \<and> cur \<noteq> [] \<and>
     int (length cur) = max 1 (MaxFails l) \<and> last cur = u \<and> u - hd cur \<le> Window l)"

text \<open>\<open>cur\<close>: the failures counted in the open window.\<close>

definition bucket_inv :: "limiter \<Rightarrow> time list \<Rightarrow> bucket \<Rightarrow> bool" where
  "bucket_inv l ts b \<longleftrightarrow>
     (\<exists>pre cur. ts = pre @ cur \<and> int (length cur) = fails b \<and>
        (\<forall>x \<in> set cur. windowStart b \<le> x \<and> x \<le> windowStart b + Window l)) \<and>
     windowStart b \<le> last ts \<and> fails b < max 1 (MaxFails l) \<and>
     (blockedUntil b = zero_time \<or> (\<exists>u. burst l ts u \<and> blockedUntil b = u + BlockFor l))"

definition window_ok :: "limiter \<Rightarrow> bool" where
  "window_ok l \<longleftrightarrow> 0 \<le> Window l \<and> Window l < 2 ^ 63 - 1"

lemma burst_snoc: "burst l ts u \<Longrightarrow> burst l (ts @ [t]) u"
  unfolding burst_def by (metis append.assoc)

lemma bucket_inv_count:
  assumes w: "window_ok l"
    and "ts = pre @ cur" and "int (length cur) = fails b"
    and in_win: "\<forall>x \<in> set (cur @ [t]). windowStart b \<le> x \<and> x \<le> windowStart b + Window l"
    and less: "fails b < max 1 (MaxFails l)"
    and bu: "blockedUntil b = zero_time \<or> (\<exists>u. burst l ts u \<and> blockedUntil b = u + BlockFor l)"
  shows "bucket_inv l (ts @ [t]) (bucket_fail l t b)"
proof -
  have sub: "\<not> Window l < Sub t (windowStart b)"
    using w in_win by (auto simp: window_ok_def Sub_le_iff not_less)
  show ?thesis
  proof (cases "MaxFails l \<le> fails b + 1")
    case True
    have "hd (cur @ [t]) \<in> set (cur @ [t])" by (rule hd_in_set) simp
    with in_win have "windowStart b \<le> hd (cur @ [t])" by blast
    moreover have "t \<le> windowStart b + Window l" using in_win by simp
    ultimately have "t - hd (cur @ [t]) \<le> Window l" by simp
    moreover have "int (length (cur @ [t])) = max 1 (MaxFails l)"
      using True less assms(3) by (auto simp: max_def split: if_splits)
    ultimately have "burst l (ts @ [t]) t"
      unfolding burst_def using assms(2)
      by (intro exI [of _ pre] exI [of _ "cur @ [t]"] exI [of _ "[]"]) simp
    with True sub show ?thesis
      by (auto simp: bucket_inv_def bucket_fail_def Let_def)
  next
    case False
    have "\<exists>pre' cur'. ts @ [t] = pre' @ cur' \<and> int (length cur') = fails b + 1 \<and>
        (\<forall>x \<in> set cur'. windowStart b \<le> x \<and> x \<le> windowStart b + Window l)"
      using assms(2,3) in_win by (intro exI [of _ pre] exI [of _ "cur @ [t]"]) simp
    moreover have "blockedUntil b = zero_time \<or>
        (\<exists>u. burst l (ts @ [t]) u \<and> blockedUntil b = u + BlockFor l)"
      using bu by (auto intro: burst_snoc)
    moreover have "bucket_fail l t b = b\<lparr>fails := fails b + 1\<rparr>"
      using False sub by (simp add: bucket_fail_def Let_def)
    moreover have "windowStart b \<le> t" using in_win by simp
    ultimately show ?thesis
      using False by (simp add: bucket_inv_def)
  qed
qed

lemma bucket_fail_reset:
  "Window l < Sub t (windowStart b) \<Longrightarrow>
     bucket_fail l t b = bucket_fail l t (b\<lparr>fails := 0, windowStart := t\<rparr>)"
  by (auto simp: bucket_fail_def Let_def Sub_def)

lemma bucket_inv_fresh:
  assumes "window_ok l" and "blockedUntil b = zero_time \<or>
      (\<exists>u. burst l ts u \<and> blockedUntil b = u + BlockFor l)"
    and "fails b = 0" and "windowStart b = t"
  shows "bucket_inv l (ts @ [t]) (bucket_fail l t b)"
  using assms by (intro bucket_inv_count [where pre = ts and cur = "[]"])
    (auto simp: window_ok_def)

lemma addr_run_inv:
  assumes w: "window_ok l"
  shows "sorted ts \<Longrightarrow> ts \<noteq> [] \<Longrightarrow> \<exists>b. addr_run l ts = Some b \<and> bucket_inv l ts b"
proof (induction ts rule: rev_induct)
  case Nil
  then show ?case by simp
next
  case (snoc t ts)
  show ?case
  proof (cases "ts = []")
    case True
    have "bucket_inv l ([] @ [t]) (bucket_fail l t (new_bucket t))"
      by (rule bucket_inv_fresh [OF w]) (simp_all add: new_bucket_def)
    with True show ?thesis by (simp add: addr_run_def)
  next
    case False
    with snoc obtain b where b: "addr_run l ts = Some b" and inv: "bucket_inv l ts b"
      by (auto simp: sorted_append)
    have last: "windowStart b \<le> t"
    proof -
      have "last ts \<le> t" using snoc.prems(1) False by (simp add: sorted_append)
      moreover have "windowStart b \<le> last ts" using inv by (simp add: bucket_inv_def)
      ultimately show ?thesis by simp
    qed
    have "bucket_inv l (ts @ [t]) (bucket_fail l t b)"
    proof (cases "Window l < Sub t (windowStart b)")
      case True
      have "bucket_inv l (ts @ [t]) (bucket_fail l t (b\<lparr>fails := 0, windowStart := t\<rparr>))"
        by (rule bucket_inv_fresh [OF w]) (use inv in \<open>simp_all add: bucket_inv_def\<close>)
      with True show ?thesis by (simp add: bucket_fail_reset)
    next
      case False
      then have "t \<le> windowStart b + Window l"
        using w by (auto simp: window_ok_def Sub_le_iff not_less)
      with inv last show ?thesis
        unfolding bucket_inv_def [of l ts] by (auto intro!: bucket_inv_count [OF w])
    qed
    with b show ?thesis by (auto simp: addr_run_snoc)
  qed
qed

lemma bucket_inv_fails: "bucket_inv l ts b \<Longrightarrow> 0 \<le> fails b \<and> fails b < max 1 (MaxFails l)"
  by (auto simp: bucket_inv_def)

section \<open>How many failures certainly block\<close>

abbreviation bucket_run :: "limiter \<Rightarrow> time list \<Rightarrow> bucket \<Rightarrow> bucket" where
  "bucket_run l ts b \<equiv> fold (bucket_fail l) ts b"

lemma addr_run_append:
  "addr_run l ts = Some b \<Longrightarrow> addr_run l (ts @ cur) = Some (bucket_run l cur b)"
  by (induction cur rule: rev_induct) (simp_all add: addr_run_snoc flip: append_assoc)

lemma bucket_run_keeps:
  "x + BlockFor l \<le> blockedUntil b \<Longrightarrow> \<forall>t \<in> set ts. x \<le> t \<Longrightarrow>
     x + BlockFor l \<le> blockedUntil (bucket_run l ts b)"
proof (induction ts arbitrary: b)
  case (Cons t ts)
  have "x + BlockFor l \<le> blockedUntil (bucket_fail l t b)"
    using Cons.prems by (auto simp: bucket_fail_def Let_def)
  with Cons show ?case by simp
qed simp

lemma bucket_fail_cases:
  assumes w: "window_ok l"
  obtains (block) "blockedUntil (bucket_fail l t b) = t + BlockFor l"
  | (count) "t \<le> windowStart b + Window l" "fails b + 1 < MaxFails l"
      "bucket_fail l t b = b\<lparr>fails := fails b + 1\<rparr>"
  | (reset) "windowStart b + Window l < t" "1 < MaxFails l"
      "bucket_fail l t b = b\<lparr>fails := 1, windowStart := t\<rparr>"
proof (cases "Window l < Sub t (windowStart b)")
  case True
  then have "windowStart b + Window l < t"
    using w Sub_le_iff [of "Window l" t "windowStart b"] by (auto simp: window_ok_def)
  with True that show ?thesis
    by (cases "MaxFails l \<le> 1") (auto simp: bucket_fail_def Let_def)
next
  case False
  then have "t \<le> windowStart b + Window l"
    using w by (auto simp: window_ok_def Sub_le_iff not_less)
  with False that show ?thesis
    by (cases "MaxFails l \<le> fails b + 1") (auto simp: bucket_fail_def Let_def)
qed

lemma enough_fails_block:
  assumes w: "window_ok l"
  shows "\<forall>t \<in> set cur. x \<le> t \<and> t \<le> x + Window l \<Longrightarrow> sorted cur \<Longrightarrow> 0 \<le> fails b \<Longrightarrow>
     0 < int (length cur) \<Longrightarrow>
     (\<forall>t \<in> set cur. t \<le> windowStart b + Window l) \<and> MaxFails l - fails b \<le> int (length cur) \<or>
       fails b < max 1 (MaxFails l) \<and> 2 * MaxFails l - 1 - fails b \<le> int (length cur) \<Longrightarrow>
     x + BlockFor l \<le> blockedUntil (bucket_run l cur b)"
proof (induction cur arbitrary: b)
  case Nil
  then show ?case by simp
next
  case (Cons t cur)
  note keeps = bucket_run_keeps [of x l "bucket_fail l t b" cur]
  show ?case
  proof (cases b t rule: bucket_fail_cases [OF w, case_names block count reset])
    case block
    then show ?thesis using Cons.prems keeps by simp
  next
    case count
    have "x + BlockFor l \<le> blockedUntil (bucket_run l cur (b\<lparr>fails := fails b + 1\<rparr>))"
      using Cons.prems count by (intro Cons.IH) auto
    with count show ?thesis by simp
  next
    case reset
    have "x + BlockFor l \<le>
        blockedUntil (bucket_run l cur (b\<lparr>fails := 1, windowStart := t\<rparr>))"
      using Cons.prems reset by (intro Cons.IH disjI1) auto
    with reset show ?thesis by simp
  qed
qed

section \<open>Properties\<close>

lemma sorted_own_times: "sorted (map snd evs) \<Longrightarrow> sorted (own_times ip evs)"
  unfolding own_times_def by (rule sorted_filter)

lemma own_times_set: "u \<in> set (own_times ip evs) \<Longrightarrow> \<exists>e \<in> set evs. snd e = u"
  by (auto simp: own_times_def)

lemma Blocked_addr: "Blocked l ip t = addr_blocked (lookup (lim_m l) ip) t"
  by (simp add: Blocked_def split: option.splits)

lemma blocked_iff_automaton:
  assumes "sorted (map snd evs)" and "\<forall>e \<in> set evs. zero_time < snd e \<and> snd e \<le> t"
    and "gmap_ok (lim_m l)" and "lookup (lim_m l) ip = None"
  shows "Blocked (fail_all evs l) ip t = addr_blocked (addr_run l (own_times ip evs)) t"
  unfolding Blocked_addr
  by (rule addr_sim_blocked [OF fail_all_sim [OF assms(1)]]) (use assms in auto)

lemma addr_run_Cons: "addr_run l (t # ts) = Some (bucket_run l (t # ts) (new_bucket t))"
  using addr_run_append [of l "[t]" "bucket_fail l t (new_bucket t)" ts]
  by (simp add: addr_run_def)

lemma NewLimiter_simps [simp]:
  "MaxFails (NewLimiter m w b) = m" "Window (NewLimiter m w b) = w"
  "BlockFor (NewLimiter m w b) = b" "lim_m (NewLimiter m w b) = []"
  by (simp_all add: NewLimiter_def)

text \<open>
  C10: Refinement: after any sequence of failures of any addresses, in time order, the limiter
  answers for an address exactly as the automaton that has seen only that address's own failures;
  other clients cannot block or unblock it, and the memory sweep changes no answer.
\<close>

theorem limiter_refines_automaton:
  assumes "sorted (map snd evs)" and "\<forall>e \<in> set evs. zero_time < snd e \<and> snd e \<le> t"
  shows "Blocked (fail_all evs (NewLimiter maxFails window blockFor)) ip t =
    addr_blocked (addr_run (NewLimiter maxFails window blockFor) (own_times ip evs)) t"
  by (rule blocked_iff_automaton) (use assms in simp_all)

text \<open>
  A blocked address has earned it: it made \<open>MaxFails\<close> failures in a row within one
  \<open>Window\<close>, the last of them less than \<open>BlockFor\<close> ago.
\<close>

theorem blocked_only_after_burst:
  assumes "sorted (map snd evs)" and "\<forall>e \<in> set evs. zero_time < snd e \<and> snd e \<le> t"
    and "window_ok (NewLimiter maxFails window blockFor)"
    and "Blocked (fail_all evs (NewLimiter maxFails window blockFor)) ip t"
  shows "\<exists>u. burst (NewLimiter maxFails window blockFor) (own_times ip evs) u \<and> t < u + blockFor"
proof -
  let ?l = "NewLimiter maxFails window blockFor"
  have blocked: "addr_blocked (addr_run ?l (own_times ip evs)) t"
    using assms(4) blocked_iff_automaton [OF assms(1,2), of ?l ip] by simp
  then have ne: "own_times ip evs \<noteq> []" by (auto simp: addr_run_def)
  from addr_run_inv [OF assms(3) sorted_own_times [OF assms(1)] ne] blocked
  obtain b where "bucket_inv ?l (own_times ip evs) b" "t < blockedUntil b" by auto
  moreover have "zero_time < t"
    using ne assms(2) by (cases evs) (auto simp: own_times_def)
  ultimately show ?thesis by (auto simp: bucket_inv_def)
qed

text \<open>
  C34: Guessing is bounded: when the last \<open>2 * MaxFails - 1\<close> (or more) failures of an address lie
  within one \<open>Window\<close>, wherever the limiter's own windows begin, the address is blocked until at
  least \<open>BlockFor\<close> after the first of them.
\<close>

theorem enough_failures_block:
  assumes "sorted (map snd evs)" and "\<forall>e \<in> set evs. zero_time < snd e \<and> snd e \<le> t"
    and "window_ok (NewLimiter maxFails window blockFor)" and "1 \<le> maxFails"
    and "own_times ip evs = pre @ cur" and "2 * maxFails - 1 \<le> int (length cur)"
    and "last cur - hd cur \<le> window" and "t < hd cur + blockFor"
  shows "Blocked (fail_all evs (NewLimiter maxFails window blockFor)) ip t"
proof -
  let ?l = "NewLimiter maxFails window blockFor"
  have sorted: "sorted (pre @ cur)" using sorted_own_times [OF assms(1), of ip] assms(5) by simp
  obtain c cs where cur: "cur = c # cs" using assms(4,6) by (cases cur) auto
  have span: "\<forall>u \<in> set cur. hd cur \<le> u \<and> u \<le> hd cur + Window ?l"
  proof
    fix u assume u: "u \<in> set cur"
    then have "u \<le> last cur"
      using sorted by (cases cur rule: rev_cases) (auto simp: sorted_append)
    with u sorted assms(7) show "hd cur \<le> u \<and> u \<le> hd cur + Window ?l"
      by (auto simp: cur sorted_append)
  qed
  have "\<exists>b. addr_run ?l (pre @ cur) = Some (bucket_run ?l cur b) \<and> 0 \<le> fails b \<and>
      fails b < max 1 maxFails"
  proof (cases "pre = []")
    case True
    then show ?thesis
      by (auto simp: cur addr_run_Cons new_bucket_def simp del: fold_simps)
  next
    case False
    have "sorted pre" using sorted by (simp add: sorted_append)
    from addr_run_inv [OF assms(3) this False]
    obtain b where "addr_run ?l pre = Some b" "bucket_inv ?l pre b" by blast
    with bucket_inv_fails [of ?l pre b] show ?thesis
      by (intro exI [of _ b]) (simp add: addr_run_append)
  qed
  then obtain b where b: "addr_run ?l (pre @ cur) = Some (bucket_run ?l cur b)"
    and f: "0 \<le> fails b" "fails b < max 1 maxFails" by blast
  have "hd cur + BlockFor ?l \<le> blockedUntil (bucket_run ?l cur b)"
    by (rule enough_fails_block [OF assms(3) span])
      (use sorted f assms(4,6) in \<open>auto simp: sorted_append\<close>)
  with b assms(5,8) blocked_iff_automaton [OF assms(1,2), of ?l ip] show ?thesis by simp
qed

text \<open>Witnesses: a limiter of 2 failures in 60 ns, 100 ns of block; two addresses interleaved.\<close>

definition wit_fails :: "(string \<times> time) list" where
  "wit_fails = [(''192.0.2.1'', 10), (''198.51.100.7'', 15), (''192.0.2.1'', 20), (''192.0.2.1'', 30)]"

lemma wit_fails_sorted: "sorted (map snd wit_fails)"
  by (simp add: wit_fails_def)

lemma wit_fails_times: "\<forall>e \<in> set wit_fails. zero_time < snd e \<and> snd e \<le> 50"
  by (simp add: wit_fails_def zero_time_def second_def)

lemma wit_fails_own: "own_times ''192.0.2.1'' wit_fails = [] @ [10, 20, 30]"
  by (simp add: own_times_def wit_fails_def)

lemma wit_window: "window_ok (NewLimiter 2 60 100)"
  by (simp add: window_ok_def)

theorem limiter_refines_automaton_witness:
  "\<not> Blocked (fail_all wit_fails (NewLimiter 2 60 100)) ''198.51.100.7'' 50"
  using limiter_refines_automaton [OF wit_fails_sorted wit_fails_times, of 2 60 100 "''198.51.100.7''"]
  by (simp add: own_times_def wit_fails_def addr_run_def new_bucket_def bucket_fail_def Let_def
      Sub_def zero_time_def second_def)

theorem enough_failures_block_witness:
  "Blocked (fail_all wit_fails (NewLimiter 2 60 100)) ''192.0.2.1'' 50"
  by (rule enough_failures_block [OF wit_fails_sorted wit_fails_times wit_window _ wit_fails_own])
    simp_all

theorem blocked_only_after_burst_witness:
  "\<exists>u. burst (NewLimiter 2 60 100) (own_times ''192.0.2.1'' wit_fails) u \<and> 50 < u + 100"
proof (rule blocked_only_after_burst [OF wit_fails_sorted wit_fails_times wit_window])
  show "Blocked (fail_all wit_fails (NewLimiter 2 60 100)) ''192.0.2.1'' 50"
    by (simp add: wit_fails_def fail_all_def Fail_def sweep_def Blocked_def new_bucket_def put_def
        bucket_fail_def Let_def Sub_def zero_time_def second_def)
qed

end
