(* ===== verification/Gate_Stats.thy ===== *)
theory Gate_Stats
  imports Gate_Token "HOL-Library.List_Lexorder" "HOL-Library.Char_ord"
begin

text \<open>
  \<open>server/internal/gate/stats.go\<close>: the per-day counters of the gate, the cap on distinct
  addresses per lock and the snapshot.  The mutex makes every operation atomic; \<open>serve_step\<close>
  interleaves the two operations that the handler performs per admitted request.  The lemmas
  count distinct addresses exactly and bound them for any interleaving.
\<close>

section \<open>State and operations\<close>

text \<open>The set of address hashes is a list without repetitions.\<close>

record lock_stat =
  ls_accepted :: int
  ls_ips :: "nat list"
  ls_last :: time

record stats =
  st_salt :: string
  st_day :: int
  st_locks :: "(string, lock_stat) gmap"
  st_rejects :: "(string, int) gmap"
  st_maxIPs :: nat

text \<open>The salt comes from the system's random source.\<close>

definition NewStats :: "string \<Rightarrow> stats" where
  "NewStats salt =
     \<lparr>st_salt = salt, st_day = 0, st_locks = [], st_rejects = [], st_maxIPs = 20000\<rparr>"

definition roll :: "time \<Rightarrow> stats \<Rightarrow> stats" where
  "roll now s =
     (let d = day_of now
      in if d \<noteq> st_day s then s\<lparr>st_day := d, st_locks := [], st_rejects := []\<rparr> else s)"

definition BigEndian_Uint64 :: "string \<Rightarrow> nat" where
  "BigEndian_Uint64 h = foldl (\<lambda>a c. 256 * a + of_char c) 0 h"

definition hashIP :: "stats \<Rightarrow> string \<Rightarrow> nat" where
  "hashIP s ip = BigEndian_Uint64 (take 8 (Sum256 (st_salt s @ ip)))"

definition AllowIP :: "stats \<Rightarrow> string \<Rightarrow> string \<Rightarrow> int \<Rightarrow> time \<Rightarrow> bool \<times> stats" where
  "AllowIP s0 lid ip cap now =
     (if cap \<le> 0 then (True, s0)
      else
        (let s = roll now s0
         in case lookup (st_locks s) lid of
              None \<Rightarrow> (True, s)
            | Some ls \<Rightarrow>
                if hashIP s ip \<in> set (ls_ips ls) then (True, s)
                else (int (length (ls_ips ls)) < cap, s)))"

definition new_lock_stat :: lock_stat where
  "new_lock_stat = \<lparr>ls_accepted = 0, ls_ips = [], ls_last = zero_time\<rparr>"

definition accept_in :: "stats \<Rightarrow> string \<Rightarrow> time \<Rightarrow> lock_stat \<Rightarrow> lock_stat" where
  "accept_in s ip now ls0 =
     (let ls = ls0\<lparr>ls_accepted := ls_accepted ls0 + 1, ls_last := now\<rparr>
      in if length (ls_ips ls) < st_maxIPs s
         then ls\<lparr>ls_ips := List.insert (hashIP s ip) (ls_ips ls)\<rparr> else ls)"

definition accept :: "stats \<Rightarrow> string \<Rightarrow> string \<Rightarrow> time \<Rightarrow> stats" where
  "accept s0 lid ip now =
     (let s = roll now s0;
          ls = (case lookup (st_locks s) lid of None \<Rightarrow> new_lock_stat | Some ls \<Rightarrow> ls)
      in s\<lparr>st_locks := put lid (accept_in s ip now ls) (st_locks s)\<rparr>)"

text \<open>\<open>wall\<close> is the system clock, which \<open>reject\<close> reads itself.\<close>

definition reject :: "stats \<Rightarrow> string \<Rightarrow> time \<Rightarrow> stats" where
  "reject s0 reason wall =
     (let s = roll wall s0;
          n = (case lookup (st_rejects s) reason of None \<Rightarrow> 0 | Some n \<Rightarrow> n)
      in s\<lparr>st_rejects := put reason (n + 1) (st_rejects s)\<rparr>)"

section \<open>The snapshot\<close>

record lock_snapshot =
  CodeID' :: string
  Accepted :: int
  DistinctIPs :: nat
  Last :: time

record snapshot =
  Day :: string
  Updated :: time
  SLocks :: "lock_snapshot list"
  Rejects :: "(string, int) gmap"

text \<open>
  The proleptic Gregorian date of a day number (days since 1 January 1970), in the form
  \<open>2006-01-02\<close>.  The year is counted from March, the eras are 400 years.
\<close>

definition civil :: "int \<Rightarrow> int \<times> int \<times> int" where
  "civil z0 =
     (let z = z0 + 719468;
          era = z div 146097;
          doe = z mod 146097;
          yoe = (doe - doe div 1460 + doe div 36524 - doe div 146096) div 365;
          doy = doe - (365 * yoe + yoe div 4 - yoe div 100);
          mp = (5 * doy + 2) div 153;
          d = doy - (153 * mp + 2) div 5 + 1;
          m = (if mp < 10 then mp + 3 else mp - 9)
      in (yoe + era * 400 + (if m \<le> 2 then 1 else 0), m, d))"

definition pad_num :: "nat \<Rightarrow> int \<Rightarrow> string" where
  "pad_num w n = (let s = FormatInt n in replicate (w - length s) (CHR ''0'') @ s)"

definition date_string :: "time \<Rightarrow> string" where
  "date_string t = (case civil (Unix t div 86400) of
     (y, m, d) \<Rightarrow> pad_num 4 y @ ''-'' @ pad_num 2 m @ ''-'' @ pad_num 2 d)"

definition lock_line :: "string \<times> lock_stat \<Rightarrow> lock_snapshot" where
  "lock_line kv = \<lparr>CodeID' = fst kv, Accepted = ls_accepted (snd kv),
     DistinctIPs = length (ls_ips (snd kv)), Last = ls_last (snd kv)\<rparr>"

definition Snapshot :: "stats \<Rightarrow> time \<Rightarrow> snapshot \<times> stats" where
  "Snapshot s0 now =
     (let s = roll now s0
      in (\<lparr>Day = date_string now, Updated = now,
           SLocks = sort_key CodeID' (map lock_line (st_locks s)),
           Rejects = st_rejects s\<rparr>, s))"

section \<open>Well-formed counters\<close>

definition lock_stat_ok :: "nat \<Rightarrow> lock_stat \<Rightarrow> bool" where
  "lock_stat_ok m ls \<longleftrightarrow> distinct (ls_ips ls) \<and> length (ls_ips ls) \<le> m \<and> 0 \<le> ls_accepted ls"

definition stats_ok :: "stats \<Rightarrow> bool" where
  "stats_ok s \<longleftrightarrow> gmap_ok (st_locks s) \<and> gmap_ok (st_rejects s) \<and>
     (\<forall>lid ls. lookup (st_locks s) lid = Some ls \<longrightarrow> lock_stat_ok (st_maxIPs s) ls)"

lemma roll_simps [simp]:
  "st_salt (roll now s) = st_salt s" "st_maxIPs (roll now s) = st_maxIPs s"
  "st_day (roll now s) = day_of now"
  by (auto simp: roll_def Let_def)

lemma roll_same [simp]: "st_day s = day_of now \<Longrightarrow> roll now s = s"
  by (simp add: roll_def)

lemma roll_cases: "roll now s = s \<or> st_locks (roll now s) = [] \<and> st_rejects (roll now s) = []"
  by (auto simp: roll_def Let_def)

lemma hashIP_roll [simp]: "hashIP (roll now s) ip = hashIP s ip"
  by (simp add: hashIP_def)

lemma hashIP_salt: "st_salt s = st_salt s' \<Longrightarrow> hashIP s = hashIP s'"
  by (simp add: hashIP_def fun_eq_iff)

lemma stats_ok_NewStats: "stats_ok (NewStats salt)"
  by (simp add: stats_ok_def NewStats_def)

lemma stats_ok_roll: "stats_ok s \<Longrightarrow> stats_ok (roll now s)"
  by (auto simp: stats_ok_def roll_def Let_def)

lemma stats_ok_AllowIP: "stats_ok s \<Longrightarrow> stats_ok (snd (AllowIP s lid ip cap now))"
  by (auto simp: AllowIP_def Let_def stats_ok_roll split: option.splits)

lemma lock_stat_ok_accept_in:
  "lock_stat_ok (st_maxIPs s) ls \<Longrightarrow> lock_stat_ok (st_maxIPs s) (accept_in s ip now ls)"
  by (auto simp: lock_stat_ok_def accept_in_def Let_def List.insert_def)

lemma lock_stat_ok_new: "lock_stat_ok m new_lock_stat"
  by (simp add: lock_stat_ok_def new_lock_stat_def)

lemma stats_ok_accept: "stats_ok s \<Longrightarrow> stats_ok (accept s lid ip now)"
proof -
  assume "stats_ok s"
  then have r: "stats_ok (roll now s)" by (rule stats_ok_roll)
  let ?ls = "case lookup (st_locks (roll now s)) lid of None \<Rightarrow> new_lock_stat | Some ls \<Rightarrow> ls"
  have "lock_stat_ok (st_maxIPs (roll now s)) ?ls"
    using r by (auto simp: stats_ok_def lock_stat_ok_new split: option.splits)
  then have "lock_stat_ok (st_maxIPs (roll now s)) (accept_in (roll now s) ip now ?ls)"
    by (rule lock_stat_ok_accept_in)
  with r show ?thesis
    by (simp add: stats_ok_def accept_def Let_def gmap_ok_put)
qed

lemma stats_ok_reject: "stats_ok s \<Longrightarrow> stats_ok (reject s r wall)"
  using stats_ok_roll [of s wall] by (auto simp: stats_ok_def reject_def Let_def)

lemma accept_simps [simp]:
  "st_salt (accept s lid ip now) = st_salt s" "st_maxIPs (accept s lid ip now) = st_maxIPs s"
  "st_day (accept s lid ip now) = day_of now"
  by (simp_all add: accept_def Let_def)

lemma reject_simps [simp]:
  "st_salt (reject s r wall) = st_salt s" "st_maxIPs (reject s r wall) = st_maxIPs s"
  "st_day (reject s r wall) = day_of wall" "st_locks (reject s r wall) = st_locks (roll wall s)"
  by (simp_all add: reject_def Let_def)

lemma AllowIP_simps [simp]:
  "st_salt (snd (AllowIP s lid ip cap now)) = st_salt s"
  "st_maxIPs (snd (AllowIP s lid ip cap now)) = st_maxIPs s"
  by (auto simp: AllowIP_def Let_def split: option.splits)

section \<open>Distinct addresses and the cap\<close>

text \<open>The recorded hashes of a lock today.\<close>

definition seen_ips :: "stats \<Rightarrow> string \<Rightarrow> nat list" where
  "seen_ips s lid = (case lookup (st_locks s) lid of None \<Rightarrow> [] | Some ls \<Rightarrow> ls_ips ls)"

definition accepted_count :: "stats \<Rightarrow> string \<Rightarrow> int" where
  "accepted_count s lid = (case lookup (st_locks s) lid of None \<Rightarrow> 0 | Some ls \<Rightarrow> ls_accepted ls)"

lemma seen_ips_roll: "seen_ips (roll now s) lid = seen_ips s lid \<or> seen_ips (roll now s) lid = []"
  using roll_cases [of now s] by (auto simp: seen_ips_def)

lemma seen_ips_accept:
  "seen_ips (accept s lid ip now) j =
     (if j = lid \<and> length (seen_ips (roll now s) lid) < st_maxIPs s
      then List.insert (hashIP s ip) (seen_ips (roll now s) lid) else seen_ips (roll now s) j)"
  by (auto simp: seen_ips_def accept_def accept_in_def new_lock_stat_def Let_def
      split: option.splits)

lemma accepted_count_accept:
  "accepted_count (accept s lid ip now) j =
     accepted_count (roll now s) j + (if j = lid then 1 else 0)"
  by (auto simp: accepted_count_def accept_def accept_in_def new_lock_stat_def Let_def
      split: option.splits)

lemma seen_ips_reject: "seen_ips (reject s r wall) j = seen_ips (roll wall s) j"
  by (simp add: seen_ips_def)

lemma AllowIP_iff:
  "0 < cap \<Longrightarrow> fst (AllowIP s lid ip cap now) \<longleftrightarrow>
     hashIP s ip \<in> set (seen_ips (roll now s) lid) \<or>
     int (length (seen_ips (roll now s) lid)) < cap"
  by (auto simp: AllowIP_def Let_def seen_ips_def split: option.splits)

lemma AllowIP_state: "snd (AllowIP s lid ip cap now) = (if cap \<le> 0 then s else roll now s)"
  by (auto simp: AllowIP_def Let_def split: option.splits)

lemma distinct_seen_ips: "stats_ok s \<Longrightarrow> distinct (seen_ips s lid)"
  by (auto simp: seen_ips_def stats_ok_def lock_stat_ok_def split: option.splits)

text \<open>One request at a time: the check, then the record.\<close>

definition serve_one :: "int \<Rightarrow> string \<times> string \<times> time \<Rightarrow> stats \<Rightarrow> stats" where
  "serve_one cap req s =
     (case req of (lid, ip, now) \<Rightarrow>
        (case AllowIP s lid ip cap now of
           (True, s') \<Rightarrow> accept s' lid ip now
         | (False, s') \<Rightarrow> reject s' ''ip_cap'' now))"

text \<open>
  Requests in flight: an admitted request that has passed \<open>AllowIP\<close> and has not yet reached
  \<open>accept\<close>, with at most \<open>k\<close> requests between the two at any time.  \<open>now\<close> is whatever
  instant the request took when it arrived.
\<close>

type_synonym serving = "stats \<times> (string \<times> string) list"

inductive serve_step :: "nat \<Rightarrow> int \<Rightarrow> serving \<Rightarrow> serving \<Rightarrow> bool" for k cap where
  check: "AllowIP s lid ip cap now = (True, s') \<Longrightarrow> length fl < k \<Longrightarrow>
    serve_step k cap (s, fl) (s', (lid, ip) # fl)"
| over: "AllowIP s lid ip cap now = (False, s') \<Longrightarrow>
    serve_step k cap (s, fl) (reject s' ''ip_cap'' wall, fl)"
| admit: "fl = fl1 @ (lid, ip) # fl2 \<Longrightarrow>
    serve_step k cap (s, fl) (accept s lid ip now, fl1 @ fl2)"
| refuse: "serve_step k cap (s, fl) (reject s reason wall, fl)"
| snapshot: "serve_step k cap (s, fl) (snd (Snapshot s now), fl)"

inductive serve_reach :: "nat \<Rightarrow> int \<Rightarrow> string \<Rightarrow> serving \<Rightarrow> bool" for k cap salt where
  start: "serve_reach k cap salt (NewStats salt, [])"
| step: "serve_reach k cap salt x \<Longrightarrow> serve_step k cap x y \<Longrightarrow> serve_reach k cap salt y"

text \<open>The requests in flight whose address would be new for the lock.\<close>

definition new_in_flight :: "string \<Rightarrow> stats \<Rightarrow> (string \<times> string) list \<Rightarrow> (string \<times> string) list" where
  "new_in_flight j s fl =
     filter (\<lambda>(lid, ip). lid = j \<and> hashIP s ip \<notin> set (seen_ips s j)) fl"

definition cap_inv :: "nat \<Rightarrow> int \<Rightarrow> string \<Rightarrow> serving \<Rightarrow> bool" where
  "cap_inv k cap j x \<longleftrightarrow> (case x of (s, fl) \<Rightarrow>
     length fl \<le> k \<and>
     int (length (seen_ips s j)) + int (length (new_in_flight j s fl)) \<le> cap + int k - 1)"

lemma cap_inv_roll:
  assumes "cap_inv k cap j (s, fl)" and "0 < cap"
  shows "cap_inv k cap j (roll now s, fl)"
proof (cases "seen_ips (roll now s) j = seen_ips s j")
  case True
  with assms show ?thesis by (simp add: cap_inv_def new_in_flight_def)
next
  case False
  then have "seen_ips (roll now s) j = []" using seen_ips_roll [of now s j] by simp
  moreover have "length (new_in_flight j (roll now s) fl) \<le> length fl"
    by (simp add: new_in_flight_def)
  ultimately show ?thesis using assms by (simp add: cap_inv_def)
qed

lemma cap_inv_seen:
  "seen_ips s' j = seen_ips s j \<Longrightarrow> st_salt s' = st_salt s \<Longrightarrow>
     cap_inv k cap j (s', fl) = cap_inv k cap j (s, fl)"
  using hashIP_salt [of s' s] by (simp add: cap_inv_def new_in_flight_def)

lemma cap_inv_reject: "cap_inv k cap j (s, fl) \<Longrightarrow> 0 < cap \<Longrightarrow> cap_inv k cap j (reject s r wall, fl)"
  using cap_inv_seen [of "reject s r wall" j "roll wall s"] cap_inv_roll
  by (simp add: seen_ips_reject)

lemma cap_inv_check:
  assumes "cap_inv k cap j (s, fl)" and "0 < cap" and "length fl < k"
    and "fst (AllowIP s lid ip cap now)"
  shows "cap_inv k cap j (roll now s, (lid, ip) # fl)"
proof -
  let ?s = "roll now s"
  have inv: "cap_inv k cap j (?s, fl)" using assms(1,2) by (rule cap_inv_roll)
  have le: "length (new_in_flight j ?s fl) \<le> length fl" by (simp add: new_in_flight_def)
  show ?thesis
  proof (cases "lid = j \<and> hashIP s ip \<notin> set (seen_ips ?s j)")
    case True
    with assms(2,4) have "int (length (seen_ips ?s j)) < cap" by (simp add: AllowIP_iff)
    moreover from True have
      "length (new_in_flight j ?s ((lid, ip) # fl)) = Suc (length (new_in_flight j ?s fl))"
      by (simp add: new_in_flight_def)
    ultimately show ?thesis using le assms(3) by (simp add: cap_inv_def)
  next
    case False
    then have "new_in_flight j ?s ((lid, ip) # fl) = new_in_flight j ?s fl"
      by (auto simp: new_in_flight_def)
    with inv assms(3) show ?thesis by (simp add: cap_inv_def)
  qed
qed

lemma length_filter_mono: "(\<And>x. P x \<Longrightarrow> Q x) \<Longrightarrow> length (filter P xs) \<le> length (filter Q xs)"
  by (induction xs) auto

lemma cap_inv_record:
  assumes "cap_inv k cap j (s, fl1 @ (lid, ip) # fl2)" and "0 < cap"
  shows "cap_inv k cap j (accept s lid ip now, fl1 @ fl2)"
proof -
  let ?s = "roll now s" and ?t = "accept s lid ip now" and ?fl = "fl1 @ (lid, ip) # fl2"
  have inv: "cap_inv k cap j (?s, ?fl)" using assms by (rule cap_inv_roll)
  have hash: "hashIP ?t = hashIP s" by (rule hashIP_salt) simp
  have drop: "length (new_in_flight j ?s (fl1 @ fl2)) +
      (if lid = j \<and> hashIP s ip \<notin> set (seen_ips ?s j) then 1 else 0) = length (new_in_flight j ?s ?fl)"
    by (simp add: new_in_flight_def)
  have sub: "set (seen_ips ?s j) \<subseteq> set (seen_ips ?t j)"
    by (auto simp: seen_ips_accept)
  have mono: "length (new_in_flight j ?t (fl1 @ fl2)) \<le> length (new_in_flight j ?s (fl1 @ fl2))"
    unfolding new_in_flight_def using sub by (intro length_filter_mono) (auto simp: hash)
  have grow: "length (seen_ips ?t j) \<le> length (seen_ips ?s j) +
      (if lid = j \<and> hashIP s ip \<notin> set (seen_ips ?s j) then 1 else 0)"
    by (auto simp: seen_ips_accept List.insert_def)
  from inv drop mono grow show ?thesis
    by (auto simp: cap_inv_def split: if_splits)
qed

lemma cap_inv_step:
  assumes "serve_step k cap x y" and "cap_inv k cap j x" and "0 < cap"
  shows "cap_inv k cap j y"
  using assms
proof cases
  case (check s lid ip now s' fl)
  then have "s' = roll now s" using AllowIP_state [of s lid ip cap now] assms(3) by simp
  with check assms(2,3) show ?thesis by (auto intro: cap_inv_check)
next
  case (over s lid ip now s' fl wall)
  then have "s' = roll now s" using AllowIP_state [of s lid ip cap now] assms(3) by simp
  with over assms(2,3) show ?thesis by (auto intro: cap_inv_reject cap_inv_roll)
next
  case (admit fl fl1 lid ip fl2 s now)
  with assms(2,3) show ?thesis by (auto intro: cap_inv_record)
next
  case (refuse s fl reason wall)
  with assms(2,3) show ?thesis by (auto intro: cap_inv_reject)
next
  case (snapshot s fl now)
  with assms(2,3) show ?thesis by (auto simp: Snapshot_def Let_def intro: cap_inv_roll)
qed

lemma cap_inv_reach:
  assumes "serve_reach k cap salt x" and "0 < cap"
  shows "cap_inv k cap j x"
  using assms(1)
proof induction
  case start
  show ?case using assms(2) by (simp add: cap_inv_def new_in_flight_def seen_ips_def NewStats_def)
next
  case (step x y)
  with assms(2) show ?case by (auto intro: cap_inv_step)
qed

lemma serve_reach_ok:
  "serve_reach k cap salt x \<Longrightarrow> stats_ok (fst x) \<and> st_salt (fst x) = salt"
proof (induction rule: serve_reach.induct)
  case start
  show ?case by (simp add: stats_ok_NewStats) (simp add: NewStats_def)
next
  case (step x y)
  from step(2) show ?case
  proof cases
    case (check s lid ip now s' fl)
    with step(3) stats_ok_AllowIP [of s lid ip cap now] AllowIP_simps(1) [of s lid ip cap now]
    show ?thesis by simp
  next
    case (over s lid ip now s' fl wall)
    with step(3) stats_ok_AllowIP [of s lid ip cap now] AllowIP_simps(1) [of s lid ip cap now]
    show ?thesis by (simp add: stats_ok_reject)
  qed (use step(3) in \<open>auto simp: stats_ok_accept stats_ok_reject Snapshot_def Let_def stats_ok_roll\<close>)
qed

section \<open>Counting within one day\<close>

text \<open>The admitted connections of a day, in order.\<close>

definition accept_all :: "(string \<times> string \<times> time) list \<Rightarrow> stats \<Rightarrow> stats" where
  "accept_all evs s = fold (\<lambda>(lid, ip, t) s. accept s lid ip t) evs s"

definition lock_ips :: "string \<Rightarrow> (string \<times> string \<times> time) list \<Rightarrow> string list" where
  "lock_ips lid evs = map (fst \<circ> snd) (filter (\<lambda>e. fst e = lid) evs)"

lemma accept_all_snoc: "accept_all (evs @ [(lid, ip, t)]) s = accept (accept_all evs s) lid ip t"
  by (simp add: accept_all_def)

lemma lock_ips_snoc:
  "lock_ips lid (evs @ [(j, ip, t)]) = lock_ips lid evs @ (if j = lid then [ip] else [])"
  by (simp add: lock_ips_def)

lemma accept_all_simps [simp]:
  "st_salt (accept_all evs s) = st_salt s" "st_maxIPs (accept_all evs s) = st_maxIPs s"
  by (induction evs rule: rev_induct) (auto simp: accept_all_def)

lemma accept_all_day:
  assumes "\<forall>e \<in> set evs. day_of (snd (snd e)) = d" and "st_day s = d"
  shows "st_day (accept_all evs s) = d"
  using assms by (induction evs rule: rev_induct) (auto simp: accept_all_def)

lemma accept_all_counts:
  assumes "\<forall>e \<in> set evs. day_of (snd (snd e)) = d" and "st_day s = d" and "st_locks s = []"
    and "card (hashIP s ` set (lock_ips lid evs)) \<le> st_maxIPs s"
  shows "accepted_count (accept_all evs s) lid = int (length (lock_ips lid evs)) \<and>
     set (seen_ips (accept_all evs s) lid) = hashIP s ` set (lock_ips lid evs) \<and>
     distinct (seen_ips (accept_all evs s) lid)"
  using assms(1,4)
proof (induction evs rule: rev_induct)
  case Nil
  show ?case by (simp add: accept_all_def lock_ips_def accepted_count_def seen_ips_def assms(3))
next
  case (snoc e evs)
  obtain j ip t where e: "e = (j, ip, t)" by (cases e)
  let ?s = "accept_all evs s"
  have day: "st_day ?s = day_of t"
    using snoc.prems assms(2) by (simp add: accept_all_day e)
  have hash: "hashIP ?s = hashIP s" by (rule hashIP_salt) simp
  have sub: "hashIP s ` set (lock_ips lid evs) \<subseteq> hashIP s ` set (lock_ips lid (evs @ [e]))"
    by (auto simp: e lock_ips_snoc)
  have "card (hashIP s ` set (lock_ips lid evs)) \<le> st_maxIPs s"
    using card_mono [OF _ sub] snoc.prems(2) by simp
  with snoc have IH: "accepted_count ?s lid = int (length (lock_ips lid evs))"
    "set (seen_ips ?s lid) = hashIP s ` set (lock_ips lid evs)" "distinct (seen_ips ?s lid)"
    by auto
  have len: "length (seen_ips ?s lid) = card (hashIP s ` set (lock_ips lid evs))"
    using IH distinct_card by metis
  show ?case
  proof (cases "j = lid")
    case False
    with IH day show ?thesis
      by (simp add: e accept_all_snoc lock_ips_snoc accepted_count_accept seen_ips_accept)
  next
    case True
    have room: "length (seen_ips ?s lid) < st_maxIPs s \<or> hashIP s ip \<in> set (seen_ips ?s lid)"
    proof (rule disjCI)
      assume "hashIP s ip \<notin> set (seen_ips ?s lid)"
      with IH(2) have "card (hashIP s ` set (lock_ips lid (evs @ [e]))) =
          Suc (card (hashIP s ` set (lock_ips lid evs)))"
        by (simp add: e True lock_ips_snoc)
      with snoc.prems(2) len show "length (seen_ips ?s lid) < st_maxIPs s" by simp
    qed
    with IH day True show ?thesis
      by (auto simp: e accept_all_snoc lock_ips_snoc accepted_count_accept seen_ips_accept hash)
  qed
qed

section \<open>Properties\<close>

lemma roll_roll [simp]: "day_of t = day_of u \<Longrightarrow> roll t (roll u s) = roll u s"
  by (rule roll_same) simp

lemma accept_roll: "day_of t = day_of u \<Longrightarrow> accept (roll u s) lid ip t = accept s lid ip t"
proof -
  assume "day_of t = day_of u"
  then have "roll t s = roll u s" "roll t (roll u s) = roll u s" by (simp_all add: roll_def Let_def)
  then show ?thesis by (simp add: accept_def)
qed

lemma accept_all_roll:
  "evs \<noteq> [] \<Longrightarrow> \<forall>e \<in> set evs. day_of (snd (snd e)) = day_of now \<Longrightarrow>
     accept_all evs (roll now s) = accept_all evs s"
  by (cases evs) (auto simp: accept_all_def accept_roll)

lemma filter_key: "gmap_ok m \<Longrightarrow> lookup m k = Some v \<Longrightarrow> filter (\<lambda>kv. fst kv = k) m = [(k, v)]"
proof (induction m)
  case (Cons kv m)
  have "filter (\<lambda>kv. fst kv = k) m = []" if "k \<notin> fst ` set m"
    using that by (auto simp: filter_empty_conv)
  with Cons show ?case by (cases kv) (auto simp: gmap_ok_def split: if_splits)
qed simp

lemma Snapshot_line:
  assumes "stats_ok s" and "st_day s = day_of now" and "lookup (st_locks s) lid = Some ls"
  shows "filter (\<lambda>x. CodeID' x = lid) (SLocks (fst (Snapshot s now))) = [lock_line (lid, ls)]"
proof -
  have "filter (\<lambda>kv. fst kv = lid) (st_locks s) = [(lid, ls)]"
    using assms(1,3) by (intro filter_key) (auto simp: stats_ok_def)
  then show ?thesis
    using assms(2) by (simp add: Snapshot_def Let_def filter_sort filter_map comp_def lock_line_def)
qed

lemma stats_ok_accept_all: "stats_ok s \<Longrightarrow> stats_ok (accept_all evs s)"
  by (induction evs rule: rev_induct) (auto simp: accept_all_def stats_ok_accept)


text \<open>
  The bound is reached: \<open>AllowIP\<close> and \<open>accept\<close> take the mutex separately, so two requests
  that overlap can leave a lock with two recorded addresses although its cap is one.
\<close>

theorem ip_cap_can_be_exceeded:
  "\<exists>s. serve_reach 2 1 salt (s, []) \<and>
     set (seen_ips s lid) = {hashIP s ip1, hashIP s ip2}"
proof -
  let ?s0 = "roll 0 (NewStats salt)"
  have allow: "AllowIP (NewStats salt) lid ip1 1 0 = (True, ?s0)" "AllowIP ?s0 lid ip2 1 0 = (True, ?s0)"
    by (auto simp: AllowIP_def Let_def NewStats_def roll_def)
  have "serve_reach 2 1 salt (?s0, [(lid, ip1)])"
    by (rule serve_reach.step [OF serve_reach.start]) (rule serve_step.check [OF allow(1)], simp)
  then have "serve_reach 2 1 salt (?s0, [(lid, ip2), (lid, ip1)])"
    by (rule serve_reach.step) (rule serve_step.check [OF allow(2)], simp)
  then have "serve_reach 2 1 salt (accept ?s0 lid ip1 0, [(lid, ip2)] @ [])"
    by (rule serve_reach.step) (rule serve_step.admit, simp)
  then have "serve_reach 2 1 salt (accept (accept ?s0 lid ip1 0) lid ip2 0, [] @ [])"
    by (rule serve_reach.step) (rule serve_step.admit, simp)
  moreover have "set (seen_ips (accept (accept ?s0 lid ip1 0) lid ip2 0) lid) =
      {hashIP ?s0 ip1, hashIP ?s0 ip2}"
    by (auto simp: seen_ips_accept hashIP_def) (auto simp: seen_ips_def NewStats_def roll_def Let_def
        List.insert_def split: if_splits)
  ultimately show ?thesis by (auto simp: hashIP_def)
qed

text \<open>
  The leak signal is exact: after the admitted connections of one day the snapshot has one
  line for a lock that was used, with the number of its connections and the number of distinct
  (hashed) addresses they came from, as long as these are at most 20000.
\<close>

theorem snapshot_counts:
  assumes "\<forall>e \<in> set evs. day_of (snd (snd e)) = day_of now" and "lock_ips lid evs \<noteq> []"
    and "card (hashIP (NewStats salt) ` set (lock_ips lid evs)) \<le> 20000"
  shows "map (\<lambda>x. (Accepted x, DistinctIPs x))
      (filter (\<lambda>x. CodeID' x = lid) (SLocks (fst (Snapshot (accept_all evs (NewStats salt)) now)))) =
    [(int (length (lock_ips lid evs)), card (hashIP (NewStats salt) ` set (lock_ips lid evs)))]"
proof -
  let ?z = "roll now (NewStats salt)" and ?s = "accept_all evs (NewStats salt)"
  have "evs \<noteq> []" using assms(2) by (auto simp: lock_ips_def)
  then have eq: "accept_all evs ?z = ?s" using assms(1) by (rule accept_all_roll)
  have "st_locks ?z = []" by (simp add: roll_def NewStats_def Let_def)
  moreover have "st_maxIPs ?z = 20000" by (simp add: NewStats_def)
  ultimately have counts: "accepted_count ?s lid = int (length (lock_ips lid evs))"
    "set (seen_ips ?s lid) = hashIP (NewStats salt) ` set (lock_ips lid evs)"
    "distinct (seen_ips ?s lid)"
    using accept_all_counts [OF assms(1), of ?z lid] assms(3) by (simp_all add: eq)
  have "lookup (st_locks ?s) lid \<noteq> None"
    using counts(1) assms(2) by (intro notI) (simp add: accepted_count_def)
  then obtain ls where ls: "lookup (st_locks ?s) lid = Some ls" by blast
  have "st_day ?s = day_of now"
    using accept_all_day [OF assms(1), of ?z] by (simp add: eq)
  from Snapshot_line [OF stats_ok_accept_all [OF stats_ok_NewStats] this ls] show ?thesis
    using counts ls distinct_card [of "ls_ips ls"]
    by (simp add: lock_line_def accepted_count_def seen_ips_def)
qed

text \<open>
  The counters follow whatever day the last operation carries: a request that took its time
  before midnight and reaches \<open>accept\<close> after a request of the new day throws away the new day's
  counts.
\<close>

theorem late_request_resets_the_day:
  assumes "day_of t1 < day_of t2"
  shows "accepted_count (accept (accept s lid2 ip2 t2) lid1 ip1 t1) lid2 =
      (if lid1 = lid2 then 1 else 0)"
  using assms
  by (simp add: accepted_count_accept) (simp add: accepted_count_def roll_def Let_def)


theorem snapshot_counts_witness:
  "map (\<lambda>x. (Accepted x, DistinctIPs x))
     (filter (\<lambda>x. CodeID' x = ''a'') (SLocks (fst (Snapshot
        (accept_all [(''a'', ''192.0.2.1'', 5), (''b'', ''192.0.2.9'', 6), (''a'', ''192.0.2.1'', 7)]
           (NewStats ''salt'')) 8)))) = [(2, 1)]"
proof -
  let ?evs = "[(''a'', ''192.0.2.1'', 5), (''b'', ''192.0.2.9'', 6), (''a'', ''192.0.2.1'', 7)]"
  have "\<forall>e \<in> set ?evs. day_of (snd (snd e)) = day_of 8"
    by (simp add: day_of_def Unix_def second_def)
  moreover have "lock_ips ''a'' ?evs = [''192.0.2.1'', ''192.0.2.1'']"
    by (simp add: lock_ips_def)
  ultimately show ?thesis
    using snapshot_counts [of ?evs 8 "''a''" "''salt''"] by simp
qed

theorem late_request_resets_the_day_witness:
  "accepted_count (accept (accept (NewStats ''salt'') ''b'' ''192.0.2.9'' (FromUnix 86400))
     ''a'' ''192.0.2.1'' (FromUnix 86399)) ''b'' = 0"
proof -
  have "day_of (FromUnix 86399) < day_of (FromUnix 86400)"
    by (simp add: day_of_def go_div_def bucketSeconds_def)
  from late_request_resets_the_day [OF this] show ?thesis by simp
qed

end
