(* ===== verification/Gate_Handler.thy ===== *)
theory Gate_Handler
  imports Gate_Proxy Gate_Limiter Gate_Stats
begin

text \<open>
  The diagnostic probe (\<open>server/internal/gate/probe.go\<close>) and the request handler of the gate
  (\<open>newWithClock\<close> in \<open>server/internal/gate/gate.go\<close>).  The handler is a function of the options
  (which hold the limiter and the counters), the lists in force, the probe file, the two clock
  readings and the request; it returns the response and the updated options.  The lemmas say
  exactly when a request reaches the upstream, what a refusal reveals and what it changes.
\<close>

section \<open>The probe\<close>

definition ProbePath :: string where
  "ProbePath = ''/__probe/''"

record probe =
  probe_File :: string

text \<open>\<open>contents\<close> is what \<open>os.ReadFile\<close> gives for the probe's file, \<open>None\<close> when it fails.\<close>

definition Probe_match :: "probe option \<Rightarrow> string option \<Rightarrow> string \<Rightarrow> time \<Rightarrow> bool" where
  "Probe_match pr contents nonce now =
     (case pr of
        None \<Rightarrow> False
      | Some p \<Rightarrow>
          if probe_File p = [] \<or> length nonce < 16 then False
          else (case contents of
              None \<Rightarrow> False
            | Some b \<Rightarrow>
                (case Fields b of
                   [f0, f1] \<Rightarrow>
                     (case ParseInt f1 of
                        None \<Rightarrow> False
                      | Some exp \<Rightarrow> if Unix now > exp then False else f0 = nonce)
                 | _ \<Rightarrow> False)))"

record probe_report =
  rep_OK :: bool
  HeaderPresent :: bool
  HeaderLen :: nat
  HeaderSHA256 :: string
  ClientIP :: string
  ViaTrustedCDN :: bool
  Peer :: string
  CDNHeaders :: "(string, string) gmap"
  Upgrade :: string
  Proto :: string

definition HeaderDigest :: "string \<Rightarrow> string" where
  "HeaderDigest v = EncodeHex (take 8 (Sum256 v))"

definition cdn_header_names :: "string list" where
  "cdn_header_names =
     [''CF-Connecting-IP'', ''Fastly-Client-IP'', ''X-Forwarded-For'', ''CF-Ray'', ''X-Forwarded-Proto'']"

definition Probe_report :: "request \<Rightarrow> string \<Rightarrow> bool \<Rightarrow> probe_report" where
  "Probe_report r ip via =
     (let v = Header_Get r auth_header
      in \<lparr>rep_OK = True, HeaderPresent = v \<noteq> [], HeaderLen = length v,
          HeaderSHA256 = (if v \<noteq> [] then HeaderDigest v else []),
          ClientIP = ip, ViaTrustedCDN = via, Peer = RemoteAddr r,
          CDNHeaders = fold (\<lambda>h m. let x = Header_Get r h in if x \<noteq> [] then put h x m else m)
            cdn_header_names [],
          Upgrade = Header_Get r ''Upgrade'', Proto = Header_Get r ''X-Forwarded-Proto''\<rparr>)"

section \<open>The reverse proxy\<close>

record upstream =
  up_Scheme :: string
  up_Host :: string
  up_Path :: string

record out_request = request +
  out_Scheme :: string
  out_Host :: string

definition single_joining_slash :: "string \<Rightarrow> string \<Rightarrow> string" where
  "single_joining_slash a b =
     (let aslash = HasSuffix a ''/''; bslash = HasPrefix b ''/''
      in if aslash \<and> bslash then a @ tl b
         else if \<not> aslash \<and> \<not> bslash then a @ ''/'' @ b
         else a @ b)"

definition SetURL :: "upstream \<Rightarrow> request \<Rightarrow> out_request" where
  "SetURL u r =
     \<lparr>Method = Method r, RemoteAddr = RemoteAddr r, Path = single_joining_slash (up_Path u) (Path r),
      Header = Header r, out_Scheme = up_Scheme u, out_Host = up_Host u\<rparr>"

text \<open>
  \<open>prep\<close> is the copy of the request that \<open>httputil.ReverseProxy\<close> hands to \<open>Rewrite\<close> (hop-by-hop
  and forwarding headers removed); nothing is assumed of it.
\<close>

definition Rewrite :: "(request \<Rightarrow> request) \<Rightarrow> upstream \<Rightarrow> request \<Rightarrow> out_request" where
  "Rewrite prep u r =
     (let out = SetURL u (prep r)
      in out\<lparr>Header := filter (\<lambda>kv. fst kv \<noteq> CanonicalHeaderKey auth_header) (Header out)\<rparr>)"

section \<open>The handler\<close>

record options =
  Limiter :: "limiter option"
  MaxIPsPerLock :: int
  Stats :: "stats option"
  Proxies :: "trusted_proxies option"
  Provider :: provider
  OnlyProxy :: bool
  opt_Probe :: "probe option"
  SkewDays :: int

definition no_options :: options where
  "no_options =
     \<lparr>Limiter = None, MaxIPsPerLock = 0, Stats = None, Proxies = None, Provider = ProviderNone,
      OnlyProxy = False, opt_Probe = None, SkewDays = 0\<rparr>"

datatype response = NotFound | ProbeAnswer probe_report | Forward request

definition stat_reject :: "string \<Rightarrow> time \<Rightarrow> options \<Rightarrow> options" where
  "stat_reject reason wall opt =
     (case Stats opt of None \<Rightarrow> opt | Some s \<Rightarrow> opt\<lparr>Stats := Some (reject s reason wall)\<rparr>)"

definition limiter_fail :: "string \<Rightarrow> time \<Rightarrow> options \<Rightarrow> options" where
  "limiter_fail ip t opt =
     (case Limiter opt of None \<Rightarrow> opt | Some l \<Rightarrow> opt\<lparr>Limiter := Some (Fail l ip t)\<rparr>)"

definition is_blocked :: "options \<Rightarrow> string \<Rightarrow> time \<Rightarrow> bool" where
  "is_blocked opt ip t = (case Limiter opt of None \<Rightarrow> False | Some l \<Rightarrow> Blocked l ip t)"

text \<open>The last part of the handler, for a token that is right.\<close>

definition admit ::
  "options \<Rightarrow> time \<Rightarrow> time \<Rightarrow> request \<Rightarrow> string \<Rightarrow> string \<Rightarrow> response \<times> options" where
  "admit opt t wall r lid ip =
     (case Stats opt of
        None \<Rightarrow> (Forward r, opt)
      | Some s \<Rightarrow>
          (case AllowIP s lid ip (MaxIPsPerLock opt) t of
             (False, s') \<Rightarrow> (NotFound, stat_reject ''ip_cap'' wall (opt\<lparr>Stats := Some s'\<rparr>))
           | (True, s') \<Rightarrow> (Forward r, opt\<lparr>Stats := Some (accept s' lid ip t)\<rparr>)))"

definition skew_of :: "options \<Rightarrow> int" where
  "skew_of opt = (if SkewDays opt \<le> 0 then 1 else SkewDays opt)"

definition handle ::
  "options \<Rightarrow> entries \<Rightarrow> string list \<Rightarrow> string option \<Rightarrow> time \<Rightarrow> time \<Rightarrow> request \<Rightarrow>
     response \<times> options" where
  "handle opt entries appKeys probe_contents t wall r =
     (let (ip, viaProxy) = ResolveClientIP r (Proxies opt) (Provider opt)
      in if OnlyProxy opt \<and> \<not> viaProxy then (NotFound, stat_reject ''not_via_cdn'' wall opt)
         else
           (let blocked = is_blocked opt ip t
            in if blocked \<and> HasPrefix (Path r) ProbePath
               then (NotFound, stat_reject ''blocked'' wall opt)
               else if HasPrefix (Path r) ProbePath then
                 (if Probe_match (opt_Probe opt) probe_contents (TrimPrefix (Path r) ProbePath) t
                  then (ProbeAnswer (Probe_report r ip viaProxy), opt)
                  else (NotFound, limiter_fail ip t opt))
               else
                 (case CheckSkew (Header_Get r auth_header) entries appKeys t (skew_of opt) of
                    (res, lid) \<Rightarrow>
                      if res \<noteq> OK then
                        (if blocked then (NotFound, stat_reject ''blocked'' wall opt)
                         else (NotFound,
                           stat_reject (result_String res) wall (limiter_fail ip t opt)))
                      else admit opt t wall r lid ip)))"

text \<open>\<open>New\<close>: no limiter, no counters.\<close>

definition New_handle :: "entries \<Rightarrow> string list \<Rightarrow> time \<Rightarrow> time \<Rightarrow> request \<Rightarrow> response" where
  "New_handle entries appKeys t wall r = fst (handle no_options entries appKeys None t wall r)"

section \<open>Facts on the steps of the handler\<close>

lemma stat_reject_simps [simp]:
  "Limiter (stat_reject q w opt) = Limiter opt" "Proxies (stat_reject q w opt) = Proxies opt"
  "Provider (stat_reject q w opt) = Provider opt" "OnlyProxy (stat_reject q w opt) = OnlyProxy opt"
  "opt_Probe (stat_reject q w opt) = opt_Probe opt" "SkewDays (stat_reject q w opt) = SkewDays opt"
  "MaxIPsPerLock (stat_reject q w opt) = MaxIPsPerLock opt"
  "Stats (stat_reject q w opt) = map_option (\<lambda>s. reject s q w) (Stats opt)"
  by (simp_all add: stat_reject_def split: option.splits)

lemma limiter_fail_simps [simp]:
  "Stats (limiter_fail ip t opt) = Stats opt" "Proxies (limiter_fail ip t opt) = Proxies opt"
  "Provider (limiter_fail ip t opt) = Provider opt"
  "OnlyProxy (limiter_fail ip t opt) = OnlyProxy opt"
  "opt_Probe (limiter_fail ip t opt) = opt_Probe opt"
  "SkewDays (limiter_fail ip t opt) = SkewDays opt"
  "MaxIPsPerLock (limiter_fail ip t opt) = MaxIPsPerLock opt"
  "Limiter (limiter_fail ip t opt) = map_option (\<lambda>l. Fail l ip t) (Limiter opt)"
  by (simp_all add: limiter_fail_def split: option.splits)

lemma admit_limiter [simp]: "Limiter (snd (admit opt t wall r lid ip)) = Limiter opt"
  by (auto simp: admit_def split: option.splits prod.splits bool.splits)

lemma admit_Forward:
  "fst (admit opt t wall r lid ip) =
     (if (case Stats opt of None \<Rightarrow> True | Some s \<Rightarrow> fst (AllowIP s lid ip (MaxIPsPerLock opt) t))
      then Forward r else NotFound)"
  by (auto simp: admit_def split: option.splits prod.splits bool.splits)

text \<open>The guards of the handler, named.\<close>

definition origin_ok :: "options \<Rightarrow> request \<Rightarrow> bool" where
  "origin_ok opt r \<longleftrightarrow> (OnlyProxy opt \<longrightarrow> snd (ResolveClientIP r (Proxies opt) (Provider opt)))"

definition client_ip :: "options \<Rightarrow> request \<Rightarrow> string" where
  "client_ip opt r = fst (ResolveClientIP r (Proxies opt) (Provider opt))"

definition is_probe :: "request \<Rightarrow> bool" where
  "is_probe r = HasPrefix (Path r) ProbePath"

definition under_cap :: "options \<Rightarrow> string \<Rightarrow> string \<Rightarrow> time \<Rightarrow> bool" where
  "under_cap opt lid ip t =
     (case Stats opt of None \<Rightarrow> True | Some s \<Rightarrow> fst (AllowIP s lid ip (MaxIPsPerLock opt) t))"

lemma handle_direct:
  "\<not> origin_ok opt r \<Longrightarrow>
     handle opt en ks pc t wall r = (NotFound, stat_reject ''not_via_cdn'' wall opt)"
  by (auto simp: handle_def origin_ok_def split: prod.splits)

lemma handle_probe:
  "origin_ok opt r \<Longrightarrow> is_probe r \<Longrightarrow>
     handle opt en ks pc t wall r =
       (if is_blocked opt (client_ip opt r) t then (NotFound, stat_reject ''blocked'' wall opt)
        else if Probe_match (opt_Probe opt) pc (TrimPrefix (Path r) ProbePath) t
        then (ProbeAnswer (Probe_report r (client_ip opt r)
                (snd (ResolveClientIP r (Proxies opt) (Provider opt)))), opt)
        else (NotFound, limiter_fail (client_ip opt r) t opt))"
  by (auto simp: handle_def origin_ok_def is_probe_def client_ip_def Let_def split: prod.splits)

lemma handle_token:
  "origin_ok opt r \<Longrightarrow> \<not> is_probe r \<Longrightarrow>
     handle opt en ks pc t wall r =
       (case CheckSkew (Header_Get r auth_header) en ks t (skew_of opt) of (res, lid) \<Rightarrow>
          if res = OK then admit opt t wall r lid (client_ip opt r)
          else if is_blocked opt (client_ip opt r) t then (NotFound, stat_reject ''blocked'' wall opt)
          else (NotFound,
            stat_reject (result_String res) wall (limiter_fail (client_ip opt r) t opt)))"
  by (auto simp: handle_def origin_ok_def is_probe_def client_ip_def Let_def split: prod.splits)

lemma handle_cases:
  obtains (direct) "\<not> origin_ok opt r" | (probe) "origin_ok opt r" "is_probe r"
  | (token) "origin_ok opt r" "\<not> is_probe r"
  by blast

section \<open>What a request may change\<close>

lemma handle_limiter:
  "Limiter (snd (handle opt en ks pc t wall r)) = Limiter opt \<or>
     (\<exists>l. Limiter opt = Some l \<and>
        Limiter (snd (handle opt en ks pc t wall r)) = Some (Fail l (client_ip opt r) t) \<and>
        \<not> Blocked l (client_ip opt r) t)"
proof (cases rule: handle_cases [of opt r])
  case direct
  then show ?thesis by (simp add: handle_direct)
next
  case probe
  then show ?thesis
    by (cases "Limiter opt") (auto simp: handle_probe is_blocked_def)
next
  case token
  then show ?thesis
    by (cases "Limiter opt") (auto simp: handle_token is_blocked_def split: prod.splits)
qed

lemma handle_config:
  "Proxies (snd (handle opt en ks pc t wall r)) = Proxies opt"
  "Provider (snd (handle opt en ks pc t wall r)) = Provider opt"
  "OnlyProxy (snd (handle opt en ks pc t wall r)) = OnlyProxy opt"
proof -
  let ?o = "snd (handle opt en ks pc t wall r)"
  have admit: "Proxies (snd (admit opt t wall r lid ip)) = Proxies opt"
    "Provider (snd (admit opt t wall r lid ip)) = Provider opt"
    "OnlyProxy (snd (admit opt t wall r lid ip)) = OnlyProxy opt" for lid ip
    by (auto simp: admit_def split: option.splits prod.splits bool.splits)
  have "Proxies ?o = Proxies opt \<and> Provider ?o = Provider opt \<and> OnlyProxy ?o = OnlyProxy opt"
  proof (cases rule: handle_cases [of opt r])
    case token
    obtain res lid where "CheckSkew (Header_Get r auth_header) en ks t (skew_of opt) = (res, lid)"
      by fastforce
    with token show ?thesis by (simp add: handle_token admit)
  qed (simp_all add: handle_direct handle_probe)
  then show "Proxies ?o = Proxies opt" "Provider ?o = Provider opt" "OnlyProxy ?o = OnlyProxy opt"
    by simp_all
qed

text \<open>A served request: the lists in force, the probe file, the two clock readings.\<close>

type_synonym served = "entries \<times> string list \<times> string option \<times> time \<times> time \<times> request"

fun handle_served :: "served \<Rightarrow> options \<Rightarrow> options" where
  "handle_served (en, ks, pc, t, wall, r) opt = snd (handle opt en ks pc t wall r)"

definition served_time :: "served \<Rightarrow> time" where
  "served_time q = (case q of (_, _, _, t, _, _) \<Rightarrow> t)"

definition served_request :: "served \<Rightarrow> request" where
  "served_request q = (case q of (_, _, _, _, _, r) \<Rightarrow> r)"

definition limiter_wf :: "options \<Rightarrow> bool" where
  "limiter_wf opt = (case Limiter opt of None \<Rightarrow> True | Some l \<Rightarrow> gmap_ok (lim_m l))"

lemma client_ip_config:
  "Proxies o1 = Proxies o2 \<Longrightarrow> Provider o1 = Provider o2 \<Longrightarrow> client_ip o1 r = client_ip o2 r"
  by (simp add: client_ip_def)

lemma handle_served_other:
  assumes "limiter_wf opt" and "client_ip opt (served_request q) \<noteq> j" and "served_time q \<le> t"
  shows "is_blocked (handle_served q opt) j t = is_blocked opt j t"
    and "limiter_wf (handle_served q opt)"
    and "client_ip (handle_served q opt) = client_ip opt"
proof -
  obtain en ks pc u wall r where q: "q = (en, ks, pc, u, wall, r)" by (cases q)
  let ?o = "snd (handle opt en ks pc u wall r)"
  have lim: "Limiter ?o = Limiter opt \<or>
      (\<exists>l. Limiter opt = Some l \<and> Limiter ?o = Some (Fail l (client_ip opt r) u))"
    using handle_limiter by blast
  show "is_blocked (handle_served q opt) j t = is_blocked opt j t"
    using lim assms lim.fail_other
    by (auto simp: q is_blocked_def limiter_wf_def served_request_def served_time_def)
  show "limiter_wf (handle_served q opt)"
    using lim assms(1) gmap_ok_Fail by (auto simp: q limiter_wf_def)
  show "client_ip (handle_served q opt) = client_ip opt"
    by (rule ext) (simp add: q handle_config client_ip_def)
qed

lemma served_run_other:
  "limiter_wf opt \<Longrightarrow> \<forall>q \<in> set qs. client_ip opt (served_request q) \<noteq> j \<and> served_time q \<le> t \<Longrightarrow>
     is_blocked (fold handle_served qs opt) j t = is_blocked opt j t"
proof (induction qs arbitrary: opt)
  case (Cons q qs)
  then have "client_ip opt (served_request q) \<noteq> j" "served_time q \<le> t" by auto
  note step = handle_served_other [OF Cons.prems(1) this]
  with Cons show ?case by simp
qed simp

section \<open>Every request is counted once\<close>

definition total_accepted :: "stats \<Rightarrow> int" where
  "total_accepted s = sum_list (map (\<lambda>kv. ls_accepted (snd kv)) (st_locks s))"

definition total_rejected :: "stats \<Rightarrow> int" where
  "total_rejected s = sum_list (map snd (st_rejects s))"

lemma sum_put:
  "gmap_ok m \<Longrightarrow> sum_list (map (\<lambda>kv. f (snd kv)) (put k v m)) =
     sum_list (map (\<lambda>kv. f (snd kv)) m) + f v -
       (case lookup m k of None \<Rightarrow> (0 :: int) | Some w \<Rightarrow> f w)"
  unfolding put_def gmap_ok_def by (induction m) auto

lemma total_accept:
  assumes "stats_ok s" and "st_day s = day_of t"
  shows "total_accepted (accept s lid ip t) = total_accepted s + 1"
    and "total_rejected (accept s lid ip t) = total_rejected s"
proof -
  have "gmap_ok (st_locks s)" using assms(1) by (simp add: stats_ok_def)
  note sum = sum_put [OF this, of ls_accepted]
  show "total_accepted (accept s lid ip t) = total_accepted s + 1"
    using assms(2) by (auto simp: accept_def Let_def total_accepted_def sum accept_in_def
        new_lock_stat_def split: option.splits)
  show "total_rejected (accept s lid ip t) = total_rejected s"
    using assms(2) by (simp add: accept_def Let_def total_rejected_def)
qed

lemma total_reject:
  assumes "stats_ok s" and "st_day s = day_of t"
  shows "total_accepted (reject s q t) = total_accepted s"
    and "total_rejected (reject s q t) = total_rejected s + 1"
proof -
  have "gmap_ok (st_rejects s)" using assms(1) by (simp add: stats_ok_def)
  from sum_put [OF this, of "\<lambda>x. x"] assms(2)
  show "total_rejected (reject s q t) = total_rejected s + 1"
    by (auto simp: reject_def Let_def total_rejected_def split: option.splits)
  show "total_accepted (reject s q t) = total_accepted s"
    using assms(2) by (simp add: total_accepted_def)
qed

lemma admit_total:
  assumes "stats_ok s" and "Stats opt = Some s" and "st_day s = day_of t" and "st_day s = day_of wall"
  shows "\<exists>s'. Stats (snd (admit opt t wall r lid ip)) = Some s' \<and>
     total_accepted s' = total_accepted s + (if fst (admit opt t wall r lid ip) = NotFound then 0 else 1) \<and>
     total_rejected s' = total_rejected s + (if fst (admit opt t wall r lid ip) = NotFound then 1 else 0)"
proof -
  have "snd (AllowIP s lid ip c t) = s" for c using assms(3) by (simp add: AllowIP_state)
  then obtain b where s: "AllowIP s lid ip (MaxIPsPerLock opt) t = (b, s)" by (metis prod.collapse)
  have wall: "day_of t = day_of wall" using assms(3,4) by simp
  show ?thesis
    by (cases b) (simp_all add: admit_def assms(1,2,3) s total_accept total_reject wall)
qed

section \<open>Properties\<close>

lemma CheckSkew_lid:
  assumes "CheckSkew (lid @ ''.'' @ rest) en ks t skew = (OK, j)" and "CHR ''.'' \<notin> set lid"
  shows "j = lid"
proof -
  from assms(1) obtain w where "lid @ CHR ''.'' # rest = j @ CHR ''.'' # w" and "CHR ''.'' \<notin> set j"
    by (auto simp: CheckSkew_OK)
  with assms(2) show ?thesis
    by (metis before_append)
qed

lemma forward_iff:
  "fst (handle opt en ks pc t wall r) = Forward r' \<longleftrightarrow>
     r' = r \<and> origin_ok opt r \<and> \<not> is_probe r \<and>
     (\<exists>lid. CheckSkew (Header_Get r auth_header) en ks t (skew_of opt) = (OK, lid) \<and>
        under_cap opt lid (client_ip opt r) t)"
proof (cases rule: handle_cases [of opt r])
  case direct
  then show ?thesis by (simp add: handle_direct)
next
  case probe
  then show ?thesis by (simp add: handle_probe)
next
  case token
  obtain res lid where "CheckSkew (Header_Get r auth_header) en ks t (skew_of opt) = (res, lid)"
    by fastforce
  with token show ?thesis
    by (auto simp: handle_token admit_Forward under_cap_def split: if_splits)
qed

text \<open>
  C2: A request reaches the upstream, unchanged but for the proxy's rewriting, exactly when it
  came through a trusted proxy (if that is required), is not on the probe path, carries a token
  that the check accepts, and its lock is under its address cap.  In particular whether its
  address is blocked plays no part, so scanners behind a shared address do not lock out
  honest users.
\<close>

theorem request_forwarded_iff:
  "fst (handle opt en ks pc t wall r) = Forward r' \<longleftrightarrow>
     r' = r \<and> origin_ok opt r \<and> \<not> is_probe r \<and>
     (\<exists>lid. CheckSkew (Header_Get r auth_header) en ks t (skew_of opt) = (OK, lid) \<and>
        under_cap opt lid (client_ip opt r) t)"
  by (rule forward_iff)

text \<open>
  The probe answers only an address that is not blocked, asking with the nonce (at least 16
  characters) of an unexpired probe file; every other request on the probe path gets the same
  404 as any refusal.
\<close>

theorem probe_answered_iff:
  "(\<exists>rep. fst (handle opt en ks pc t wall r) = ProbeAnswer rep) \<longleftrightarrow>
     origin_ok opt r \<and> \<not> is_blocked opt (client_ip opt r) t \<and>
     (\<exists>nonce p contents exp until. Path r = ''/__probe/'' @ nonce \<and> 16 \<le> length nonce \<and>
        opt_Probe opt = Some p \<and> probe_File p \<noteq> [] \<and> pc = Some contents \<and>
        Fields contents = [nonce, until] \<and> ParseInt until = Some exp \<and> Unix t \<le> exp)"
proof (cases rule: handle_cases [of opt r])
  case direct
  then show ?thesis by (simp add: handle_direct)
next
  case probe
  then obtain nonce where path: "Path r = ''/__probe/'' @ nonce"
    by (auto simp: is_probe_def ProbePath_def HasPrefix_prefix prefix_def)
  then have "TrimPrefix (Path r) ProbePath = nonce"
    by (simp add: TrimPrefix_def ProbePath_def HasPrefix_prefix)
  then show ?thesis
    using probe path by (auto simp: handle_probe Probe_match_def not_less
        split: option.splits list.splits)
next
  case token
  then have "Path r \<noteq> ''/__probe/'' @ nonce" for nonce
    by (auto simp: is_probe_def ProbePath_def HasPrefix_prefix prefix_def)
  moreover obtain res lid
    where "CheckSkew (Header_Get r auth_header) en ks t (skew_of opt) = (res, lid)" by fastforce
  ultimately show ?thesis
    using token by (simp add: handle_token admit_Forward)
qed

text \<open>
  Clients do not disturb each other: any sequence of requests that resolve to other
  addresses leaves the answer whether an address is blocked unchanged.
\<close>

theorem other_clients_do_not_block:
  assumes "limiter_wf opt"
    and "\<forall>q \<in> set qs. client_ip opt (served_request q) \<noteq> j \<and> served_time q \<le> t"
  shows "is_blocked (fold handle_served qs opt) j t = is_blocked opt j t"
  using assms by (rule served_run_other)

text \<open>
  The request that goes to the upstream carries no token: whatever copy of the request the
  reverse proxy makes, no header whose canonical name is that of the token header remains, and
  every other header of the copy does.
\<close>

theorem token_never_reaches_upstream:
  "lookup (Header (Rewrite prep u r)) k =
     (if k = ''X-Oversea-Auth'' then None else lookup (Header (prep r)) k)"
proof -
  have key: "CanonicalHeaderKey auth_header = ''X-Oversea-Auth''"
    by (simp add: CanonicalHeaderKey_def auth_header_def token_char_def upper_char_def lower_char_def)
  have "map_of (filter (\<lambda>kv. fst kv \<noteq> c) m) k = (if k = c then None else map_of m k)"
    for m :: "(string \<times> string list) list" and c
    by (induction m) auto
  then show ?thesis
    by (simp add: Rewrite_def SetURL_def key)
qed

text \<open>
  Revocation: once the watcher has read an allow-list file in which no well-formed line has
  a code with the id \<open>lid\<close>, no token that names \<open>lid\<close> is forwarded, whatever its day and MAC,
  whatever keys and options the gate runs with.
\<close>

theorem revoked_lock_is_refused:
  assumes "m \<noteq> al_modTime a" and "fits s" and "well_formed_lines U (raw_lines s)"
    and "lid \<notin> (\<lambda>e. CodeID (Code e)) ` set (good_entries U (raw_lines s))"
    and "Header_Get r auth_header = lid @ ''.'' @ rest" and "CHR ''.'' \<notin> set lid"
  shows "fst (handle opt (AllowList_Get (snd (AllowList_tick U (Some m) (OnDisk s st) a))) ks pc t
      wall r) \<noteq> Forward r'"
proof -
  let ?es = "good_entries U (raw_lines s)"
  let ?en = "AllowList_Get (snd (AllowList_tick U (Some m) (OnDisk s st) a))"
  have "ParseAllowList U s = Inr (fold put_entry ?es [])"
    using assms(2,3) by (simp add: ParseAllowList_Inr)
  then have "seen_value (allow_value U) a (OnDisk s st) = Some (fold put_entry ?es [])"
    by (simp add: allow_value_def)
  from allow.tick_good(2) [OF this assms(1)] have en: "?en = fold put_entry ?es []"
    by (simp add: AllowList_Get_def)
  have "find (\<lambda>e. CodeID (Code e) = lid) (rev ?es) = None"
    using assms(4) by (auto simp: find_None_iff)
  then have "lookup ?en lid = None" by (simp add: en lookup_fold_put)
  moreover have "lookup ?en lid \<noteq> None"
    if ok: "CheckSkew (lid @ ''.'' @ rest) ?en ks t (skew_of opt) = (OK, j)" for j
    using ok CheckSkew_lid [OF ok assms(6)] by (auto simp only: CheckSkew_OK)
  ultimately show ?thesis
    using assms(5) by (auto simp: forward_iff)
qed

text \<open>
  Every request is counted exactly once, within one day: it adds one admitted connection
  if it is forwarded, one refusal with its reason if it is refused outside the probe path or
  refused on it for being blocked or direct, and nothing else.
\<close>

theorem each_request_counted_once:
  assumes "Stats opt = Some s" and "stats_ok s" and "st_day s = day_of t" and "day_of wall = day_of t"
  shows "\<exists>s'. Stats (snd (handle opt en ks pc t wall r)) = Some s' \<and>
     total_accepted s' = total_accepted s +
       (if fst (handle opt en ks pc t wall r) = Forward r then 1 else 0) \<and>
     total_rejected s' = total_rejected s +
       (if fst (handle opt en ks pc t wall r) = NotFound \<and>
           \<not> (is_probe r \<and> origin_ok opt r \<and> \<not> is_blocked opt (client_ip opt r) t) then 1 else 0)"
proof -
  have day: "st_day s = day_of wall" using assms(3,4) by simp
  show ?thesis
  proof (cases rule: handle_cases [of opt r])
    case direct
    then show ?thesis by (simp add: handle_direct assms(1,2) total_reject day)
  next
    case probe
    then show ?thesis by (simp add: handle_probe assms(1,2) total_reject day)
  next
    case token
    obtain res lid
      where c: "CheckSkew (Header_Get r auth_header) en ks t (skew_of opt) = (res, lid)" by fastforce
    have resp: "fst (admit opt t wall r lid ip) = Forward r \<or> fst (admit opt t wall r lid ip) = NotFound"
      for ip by (simp add: admit_Forward)
    show ?thesis
    proof (cases "res = OK")
      case True
      from admit_total [OF assms(2,1,3) day, of r lid "client_ip opt r"] resp [of "client_ip opt r"]
      show ?thesis using token c True by (auto simp: handle_token)
    next
      case False
      then show ?thesis
        using token c by (simp add: handle_token assms(1,2) total_reject day)
    qed
  qed
qed

text \<open>
  A blocked address that goes on sending bad tokens costs no bookkeeping: its failures do
  not extend the block, and the response is the plain 404.
\<close>

theorem blocked_address_bad_token:
  assumes "is_blocked opt (client_ip opt r) t"
    and "fst (CheckSkew (Header_Get r auth_header) en ks t (skew_of opt)) \<noteq> OK"
  shows "fst (handle opt en ks pc t wall r) = NotFound \<and>
     Limiter (snd (handle opt en ks pc t wall r)) = Limiter opt"
proof (cases rule: handle_cases [of opt r])
  case token
  obtain res lid where "CheckSkew (Header_Get r auth_header) en ks t (skew_of opt) = (res, lid)"
    by fastforce
  with token assms show ?thesis by (simp add: handle_token)
qed (use assms(1) in \<open>simp_all add: handle_direct handle_probe\<close>)

text \<open>
  Witnesses: a request without a token from a blocked address, one from another address and one
  with a token for a revoked lock.
\<close>

definition wit_request :: "string \<Rightarrow> string \<Rightarrow> request" where
  "wit_request peer tok = \<lparr>Method = ''GET'', RemoteAddr = peer, Path = ''/ws'',
     Header = (if tok = [] then [] else [(''X-Oversea-Auth'', [tok])])\<rparr>"

definition wit_options :: options where
  "wit_options = no_options\<lparr>Limiter := Some (fail_all wit_fails (NewLimiter 2 60 100)),
     Stats := Some (NewStats ''salt'')\<rparr>"

lemma wit_token: "Header_Get (wit_request peer tok) auth_header = tok"
  by (simp add: Header_Get_def Header_Values_def wit_request_def CanonicalHeaderKey_def
      auth_header_def token_char_def upper_char_def lower_char_def)

lemma wit_client_ip:
  "client_ip wit_options (wit_request ''192.0.2.1:443'' tok) = ''192.0.2.1''"
  "client_ip wit_options (wit_request ''192.0.2.9:443'' tok) = ''192.0.2.9''"
  by (simp_all add: client_ip_def Resolve_untrusted wit_options_def no_options_def peer_host_def
      wit_request_def SplitHostPort_def before_last_def after_last_def after_def)

lemma wit_blocked: "is_blocked wit_options ''192.0.2.1'' 50"
  by (simp add: is_blocked_def wit_options_def no_options_def wit_fails_def fail_all_def Fail_def
      sweep_def Blocked_def new_bucket_def put_def bucket_fail_def Let_def Sub_def zero_time_def
      second_def)

theorem other_clients_do_not_block_witness:
  "is_blocked (fold handle_served
     [(wit_entries, [''app-key''], None, 40, 41, wit_request ''192.0.2.9:443'' [])] wit_options)
     ''192.0.2.1'' 50"
proof -
  let ?q = "(wit_entries, [''app-key''], None, 40, 41, wit_request ''192.0.2.9:443'' [])"
  have "limiter_wf wit_options"
    using gmap_ok_fail_all [of "NewLimiter 2 60 100" wit_fails]
    by (simp add: limiter_wf_def wit_options_def no_options_def)
  moreover have "\<forall>q \<in> set [?q]. client_ip wit_options (served_request q) \<noteq> ''192.0.2.1'' \<and>
      served_time q \<le> 50"
    by (simp add: served_request_def served_time_def wit_client_ip)
  ultimately show ?thesis
    using other_clients_do_not_block [of wit_options "[?q]"] wit_blocked by simp
qed

theorem revoked_lock_is_refused_witness:
  "fst (handle wit_options (AllowList_Get (snd (AllowList_tick wit_unicode (Some 7) (OnDisk [] (Some 7))
       \<lparr>al_cur = wit_entries, al_modTime = 5\<rparr>))) [''app-key''] None 0 0
     (wit_request ''192.0.2.9:443'' (CodeID wit_code @ ''.'' @ ''0.00''))) \<noteq>
   Forward (wit_request ''192.0.2.9:443'' (CodeID wit_code @ ''.'' @ ''0.00''))"
  by (rule revoked_lock_is_refused [OF _ _ _ _ wit_token CodeID_no_dot])
    (simp_all add: fits_def raw_lines_def well_formed_lines_def)

theorem each_request_counted_once_witness:
  "\<exists>s'. Stats (snd (handle wit_options wit_entries [''app-key''] None 0 5
      (wit_request ''192.0.2.9:443'' []))) = Some s' \<and>
     total_accepted s' + total_rejected s' = 1"
proof -
  let ?r = "wit_request ''192.0.2.9:443'' []"
  have "Stats wit_options = Some (NewStats ''salt'')" by (simp add: wit_options_def)
  moreover have "st_day (NewStats ''salt'') = day_of 0" "day_of 5 = day_of 0"
    by (simp_all add: NewStats_def day_of_def Unix_def go_div_def second_def)
  moreover have "total_accepted (NewStats ''salt'') = 0" "total_rejected (NewStats ''salt'') = 0"
    by (simp_all add: NewStats_def total_accepted_def total_rejected_def)
  moreover have "\<not> is_probe ?r" "origin_ok wit_options ?r"
    by (simp_all add: is_probe_def wit_request_def ProbePath_def HasPrefix_prefix origin_ok_def
        wit_options_def no_options_def)
  moreover from this have "fst (handle wit_options wit_entries [''app-key''] None 0 5 ?r) = NotFound"
    by (simp add: handle_token wit_token CheckSkew_def)
  ultimately show ?thesis
    using each_request_counted_once [of wit_options "NewStats ''salt''" 0 5 wit_entries
        "[''app-key'']" None ?r] by (auto simp: stats_ok_NewStats)
qed

theorem blocked_address_bad_token_witness:
  "fst (handle wit_options wit_entries [''app-key''] None 50 50 (wit_request ''192.0.2.1:443'' [])) =
     NotFound"
  using blocked_address_bad_token [of wit_options "wit_request ''192.0.2.1:443'' []" 50 wit_entries
      "[''app-key'']" None 50]
  by (simp add: wit_client_ip wit_blocked wit_token CheckSkew_def)

end
