(* ===== verification/Store.thy ===== *)
theory Store
  imports Go_Numbers "HOL-Library.List_Lexorder" "HOL-Library.Char_ord"
begin

text \<open>
  \<open>server/internal/store\<close>: the SQLite tables as lists of rows in insertion order and every query and
  update as a function on them.  The schema's UNIQUE and PRIMARY KEY constraints are errors of the
  inserts; foreign keys are declared but not enforced (SQLite's default, which the server leaves).
  \<open>up\<close> says whether the database answers the statement.  The lemmas keep the keys unique and relate
  \<open>config_count\<close> to the active blobs.
\<close>

section \<open>Tables\<close>

record owner_row =
  ow_id :: int
  ow_email :: string
  ow_hash :: string

record channel_row =
  ch_id :: int
  ch_ref :: string
  ch_owner :: int
  ch_title :: string
  ch_telegram :: "string option"
  ch_ad :: "string option"
  ch_status :: string
  ch_count :: int
  ch_created :: time

record blob_row =
  bl_id :: string
  bl_channel :: int
  bl_epoch :: int
  bl_protocol :: string
  bl_title :: string
  bl_host :: "string option"
  bl_locked :: string
  bl_status :: string
  bl_created :: time

record install_row =
  in_id :: string
  in_hash :: string
  in_seen :: time

record session_row =
  se_blob :: string
  se_install :: string
  se_event :: string
  se_up :: int
  se_down :: int
  se_ts :: time

record component_row =
  co_install :: string
  co_blob :: string
  co_ts :: time

record db =
  owners :: "owner_row list"
  channels :: "channel_row list"
  blobs :: "blob_row list"
  installs :: "install_row list"
  sessions :: "session_row list"
  component_log :: "component_row list"
  owner_seq :: int
  channel_seq :: int

definition empty_db :: db where
  "empty_db = \<lparr>owners = [], channels = [], blobs = [], installs = [], sessions = [],
     component_log = [], owner_seq = 0, channel_seq = 0\<rparr>"

datatype sql_error = ErrNoRows | Constraint | DbError

text \<open>\<open>datetime('now')\<close> has a resolution of one second.\<close>

definition sql_now :: "time \<Rightarrow> time" where
  "sql_now t = t div second"

definition query_row :: "bool \<Rightarrow> 'r list \<Rightarrow> sql_error + 'r" where
  "query_row up rows = (if \<not> up then Inl DbError else (case rows of [] \<Rightarrow> Inl ErrNoRows | r # _ \<Rightarrow> Inr r))"

definition query :: "bool \<Rightarrow> 'r list \<Rightarrow> sql_error + 'r list" where
  "query up rows = (if up then Inr rows else Inl DbError)"

section \<open>Owners and channels\<close>

definition CreateOwner :: "bool \<Rightarrow> string \<Rightarrow> string \<Rightarrow> db \<Rightarrow> (sql_error + int) \<times> db" where
  "CreateOwner up email passHash d =
     (if \<not> up then (Inl DbError, d)
      else if list_ex (\<lambda>o1. ow_email o1 = email) (owners d) then (Inl Constraint, d)
      else
        (let oid = owner_seq d + 1
         in (Inr oid, d\<lparr>owners := owners d @ [\<lparr>ow_id = oid, ow_email = email, ow_hash = passHash\<rparr>],
                        owner_seq := oid\<rparr>)))"

definition OwnerByEmail :: "bool \<Rightarrow> string \<Rightarrow> db \<Rightarrow> sql_error + owner_row" where
  "OwnerByEmail up email d = query_row up (filter (\<lambda>o1. ow_email o1 = email) (owners d))"

definition OwnerByID :: "bool \<Rightarrow> int \<Rightarrow> db \<Rightarrow> sql_error + owner_row" where
  "OwnerByID up oid d = query_row up (filter (\<lambda>o1. ow_id o1 = oid) (owners d))"

definition CreateChannel ::
  "bool \<Rightarrow> time \<Rightarrow> int \<Rightarrow> string \<Rightarrow> string \<Rightarrow> string option \<Rightarrow> string option \<Rightarrow> db \<Rightarrow>
     (sql_error + int) \<times> db" where
  "CreateChannel up now ownerID ref title adText telegramURL d =
     (if \<not> up then (Inl DbError, d)
      else if list_ex (\<lambda>c. ch_ref c = ref) (channels d) then (Inl Constraint, d)
      else
        (let cid = channel_seq d + 1
         in (Inr cid, d\<lparr>channels := channels d @
               [\<lparr>ch_id = cid, ch_ref = ref, ch_owner = ownerID, ch_title = title,
                 ch_telegram = telegramURL, ch_ad = adText, ch_status = ''active'', ch_count = 0,
                 ch_created = sql_now now\<rparr>],
             channel_seq := cid\<rparr>)))"

definition ActiveChannels :: "bool \<Rightarrow> db \<Rightarrow> sql_error + channel_row list" where
  "ActiveChannels up d =
     query up (sort_key ch_title (filter (\<lambda>c. ch_status c = ''active'') (channels d)))"

definition ChannelsByOwner :: "bool \<Rightarrow> int \<Rightarrow> db \<Rightarrow> sql_error + channel_row list" where
  "ChannelsByOwner up ownerID d =
     query up (sort_key ch_created (filter (\<lambda>c. ch_owner c = ownerID) (channels d)))"

definition ChannelByRef :: "bool \<Rightarrow> string \<Rightarrow> db \<Rightarrow> sql_error + channel_row" where
  "ChannelByRef up ref d = query_row up (filter (\<lambda>c. ch_ref c = ref) (channels d))"

definition ChannelByID :: "bool \<Rightarrow> int \<Rightarrow> db \<Rightarrow> sql_error + channel_row" where
  "ChannelByID up cid d = query_row up (filter (\<lambda>c. ch_id c = cid) (channels d))"

definition ChannelExistsByID :: "bool \<Rightarrow> int \<Rightarrow> db \<Rightarrow> sql_error + bool" where
  "ChannelExistsByID up cid d =
     (case ChannelByID up cid d of
        Inl ErrNoRows \<Rightarrow> Inr False
      | Inl err \<Rightarrow> Inl err
      | Inr _ \<Rightarrow> Inr True)"

definition ChannelOwnedBy :: "bool \<Rightarrow> int \<Rightarrow> string \<Rightarrow> db \<Rightarrow> sql_error + channel_row" where
  "ChannelOwnedBy up ownerID ref d =
     query_row up (filter (\<lambda>c. ch_ref c = ref \<and> ch_owner c = ownerID) (channels d))"

definition update_channel :: "int \<Rightarrow> (channel_row \<Rightarrow> channel_row) \<Rightarrow> db \<Rightarrow> db" where
  "update_channel cid f d = d\<lparr>channels := map (\<lambda>c. if ch_id c = cid then f c else c) (channels d)\<rparr>"

definition UpdateChannelAd ::
  "bool \<Rightarrow> int \<Rightarrow> string option \<Rightarrow> string option \<Rightarrow> db \<Rightarrow> sql_error option \<times> db" where
  "UpdateChannelAd up cid adText telegramURL d =
     (if \<not> up then (Some DbError, d)
      else (None, update_channel cid (\<lambda>c. c\<lparr>ch_ad := adText, ch_telegram := telegramURL\<rparr>) d))"

section \<open>Blobs\<close>

definition ActiveBlobsForChannel :: "bool \<Rightarrow> int \<Rightarrow> db \<Rightarrow> sql_error + blob_row list" where
  "ActiveBlobsForChannel up cid d =
     query up (sort_key bl_created
       (filter (\<lambda>b. bl_channel b = cid \<and> bl_status b = ''active'') (blobs d)))"

definition BlobByID :: "bool \<Rightarrow> string \<Rightarrow> db \<Rightarrow> sql_error + blob_row" where
  "BlobByID up bid d = query_row up (filter (\<lambda>b. bl_id b = bid) (blobs d))"

text \<open>A transaction: a failing statement (or commit) rolls everything back.\<close>

definition CreateBlob :: "bool \<Rightarrow> time \<Rightarrow> blob_row \<Rightarrow> db \<Rightarrow> sql_error option \<times> db" where
  "CreateBlob up now b d =
     (if \<not> up then (Some DbError, d)
      else if list_ex (\<lambda>x. bl_id x = bl_id b) (blobs d) then (Some Constraint, d)
      else (None, update_channel (bl_channel b) (\<lambda>c. c\<lparr>ch_count := ch_count c + 1\<rparr>)
             (d\<lparr>blobs := blobs d @ [b\<lparr>bl_status := ''active'', bl_created := sql_now now\<rparr>]\<rparr>)))"

definition revoke_row :: "blob_row \<Rightarrow> blob_row" where
  "revoke_row b = b\<lparr>bl_status := ''revoked''\<rparr>"

definition RevokeBlob :: "bool \<Rightarrow> string \<Rightarrow> db \<Rightarrow> sql_error option \<times> db" where
  "RevokeBlob up bid d =
     (case BlobByID up bid d of
        Inl err \<Rightarrow> (Some err, d)
      | Inr b \<Rightarrow>
          (None, update_channel (bl_channel b)
             (\<lambda>c. c\<lparr>ch_count := (if ch_count c > 0 then ch_count c - 1 else 0)\<rparr>)
             (d\<lparr>blobs := map (\<lambda>x. if bl_id x = bid then revoke_row x else x) (blobs d)\<rparr>)))"

definition RevokeChannel :: "bool \<Rightarrow> int \<Rightarrow> db \<Rightarrow> sql_error option \<times> db" where
  "RevokeChannel up cid d =
     (if \<not> up then (Some DbError, d)
      else (None, update_channel cid (\<lambda>c. c\<lparr>ch_status := ''revoked''\<rparr>)
             (d\<lparr>blobs := map (\<lambda>x. if bl_channel x = cid then revoke_row x else x) (blobs d)\<rparr>)))"

section \<open>Installs\<close>

definition CreateInstall :: "bool \<Rightarrow> time \<Rightarrow> string \<Rightarrow> string \<Rightarrow> db \<Rightarrow> sql_error option \<times> db" where
  "CreateInstall up now installID tokenHash d =
     (if \<not> up then (Some DbError, d)
      else if list_ex (\<lambda>i. in_id i = installID) (installs d) then (Some Constraint, d)
      else (None, d\<lparr>installs := installs d @
             [\<lparr>in_id = installID, in_hash = tokenHash, in_seen = now\<rparr>]\<rparr>))"

definition InstallHashValid :: "bool \<Rightarrow> string \<Rightarrow> db \<Rightarrow> sql_error + bool" where
  "InstallHashValid up h d =
     (if up then Inr (list_ex (\<lambda>i. in_hash i = h) (installs d)) else Inl DbError)"

definition InstallIDByHash ::
  "bool \<Rightarrow> bool \<Rightarrow> time \<Rightarrow> string \<Rightarrow> db \<Rightarrow> (sql_error + string) \<times> db" where
  "InstallIDByHash up up2 now h d =
     (case query_row up (filter (\<lambda>i. in_hash i = h) (installs d)) of
        Inl err \<Rightarrow> (Inl err, d)
      | Inr i \<Rightarrow>
          (Inr (in_id i), if up2 then d\<lparr>installs := map (\<lambda>x. if in_hash x = h then x\<lparr>in_seen := now\<rparr> else x)
             (installs d)\<rparr> else d))"

definition TouchInstall :: "bool \<Rightarrow> time \<Rightarrow> string \<Rightarrow> db \<Rightarrow> sql_error option \<times> db" where
  "TouchInstall up now iid d =
     (if \<not> up then (Some DbError, d)
      else (None, d\<lparr>installs := map (\<lambda>x. if in_id x = iid then x\<lparr>in_seen := now\<rparr> else x) (installs d)\<rparr>))"

section \<open>Sessions\<close>

definition LogSessionEvent ::
  "bool \<Rightarrow> time \<Rightarrow> string \<Rightarrow> string \<Rightarrow> string \<Rightarrow> int \<Rightarrow> int \<Rightarrow> db \<Rightarrow> sql_error option \<times> db" where
  "LogSessionEvent up now bid iid event bytesUp bytesDown d =
     (if \<not> up then (Some DbError, d)
      else (None, d\<lparr>sessions := sessions d @
        [\<lparr>se_blob = bid, se_install = iid, se_event = event, se_up = bytesUp, se_down = bytesDown,
          se_ts = sql_now now\<rparr>]\<rparr>))"

definition LogComponentFetch :: "bool \<Rightarrow> time \<Rightarrow> string \<Rightarrow> string \<Rightarrow> db \<Rightarrow> sql_error option \<times> db" where
  "LogComponentFetch up now iid bid d =
     (if \<not> up then (Some DbError, d)
      else (None, d\<lparr>component_log := component_log d @
        [\<lparr>co_install = iid, co_blob = bid, co_ts = sql_now now\<rparr>]\<rparr>))"

definition channel_blob :: "db \<Rightarrow> int \<Rightarrow> string \<Rightarrow> bool" where
  "channel_blob d cid bid \<longleftrightarrow> list_ex (\<lambda>b. bl_id b = bid \<and> bl_channel b = cid) (blobs d)"

text \<open>The sessions of a channel's blobs: the join of \<open>LiveInstallCount\<close>.\<close>

definition channel_sessions :: "db \<Rightarrow> int \<Rightarrow> session_row list" where
  "channel_sessions d cid = filter (\<lambda>s. channel_blob d cid (se_blob s)) (sessions d)"

definition event_count :: "string \<Rightarrow> session_row list \<Rightarrow> string \<times> string \<Rightarrow> nat" where
  "event_count ev ss bi =
     length (filter (\<lambda>s. se_event s = ev \<and> (se_blob s, se_install s) = bi) ss)"

text \<open>One group per (blob, install) pair; a group is live when it has more starts than ends.\<close>

definition LiveInstallCount :: "bool \<Rightarrow> int \<Rightarrow> db \<Rightarrow> sql_error + nat" where
  "LiveInstallCount up cid d =
     (if \<not> up then Inl DbError
      else
        (let ss = channel_sessions d cid;
             groups = remdups (map (\<lambda>s. (se_blob s, se_install s)) ss)
         in Inr (length (filter (\<lambda>g. event_count ''end'' ss g < event_count ''start'' ss g) groups))))"

definition TotalConnections :: "bool \<Rightarrow> int \<Rightarrow> db \<Rightarrow> sql_error + nat" where
  "TotalConnections up cid d =
     (if \<not> up then Inl DbError
      else Inr (length (filter (\<lambda>s. se_event s = ''start'' \<and> channel_blob d cid (se_blob s)) (sessions d))))"

definition PerBlobConnections :: "bool \<Rightarrow> int \<Rightarrow> db \<Rightarrow> sql_error + (string \<times> string \<times> nat) list" where
  "PerBlobConnections up cid d =
     (if \<not> up then Inl DbError
      else Inr (map (\<lambda>b. (bl_id b, bl_title b,
          length (filter (\<lambda>s. se_event s = ''start'' \<and> se_blob s = bl_id b) (sessions d))))
        (sort_key bl_created (filter (\<lambda>b. bl_channel b = cid) (blobs d)))))"

section \<open>The steps of the database\<close>

text \<open>Any statement of the server, at any time, whether the database answers or not.\<close>

inductive db_step :: "db \<Rightarrow> db \<Rightarrow> bool" where
  create_owner: "db_step d (snd (CreateOwner up email h d))"
| create_channel: "db_step d (snd (CreateChannel up now oid ref title ad tg d))"
| update_ad: "db_step d (snd (UpdateChannelAd up cid ad tg d))"
| create_blob: "db_step d (snd (CreateBlob up now b d))"
| revoke_blob: "db_step d (snd (RevokeBlob up bid d))"
| revoke_channel: "db_step d (snd (RevokeChannel up cid d))"
| create_install: "db_step d (snd (CreateInstall up now iid h d))"
| install_by_hash: "db_step d (snd (InstallIDByHash up up2 now h d))"
| touch_install: "db_step d (snd (TouchInstall up now iid d))"
| log_session: "db_step d (snd (LogSessionEvent up now bid iid ev bu bd d))"
| log_component: "db_step d (snd (LogComponentFetch up now iid bid d))"

definition db_ok :: "db \<Rightarrow> bool" where
  "db_ok d \<longleftrightarrow> distinct (map bl_id (blobs d)) \<and> distinct (map ch_id (channels d)) \<and>
     distinct (map ch_ref (channels d)) \<and> (\<forall>c \<in> set (channels d). ch_id c \<le> channel_seq d) \<and>
     distinct (map ow_email (owners d)) \<and> distinct (map ow_id (owners d)) \<and>
     (\<forall>o1 \<in> set (owners d). ow_id o1 \<le> owner_seq d) \<and> distinct (map in_id (installs d))"

lemma update_channel_simps [simp]:
  "blobs (update_channel cid f d) = blobs d" "owners (update_channel cid f d) = owners d"
  "installs (update_channel cid f d) = installs d" "channel_seq (update_channel cid f d) = channel_seq d"
  "owner_seq (update_channel cid f d) = owner_seq d"
  "channels (update_channel cid f d) = map (\<lambda>c. if ch_id c = cid then f c else c) (channels d)"
  by (simp_all add: update_channel_def)

lemma revoke_row_simps [simp]:
  "bl_id (revoke_row b) = bl_id b" "bl_channel (revoke_row b) = bl_channel b"
  "bl_status (revoke_row b) = ''revoked''"
  by (simp_all add: revoke_row_def)

lemma map_map_if_same: "(\<And>x. g (f x) = g x) \<Longrightarrow> map g (map (\<lambda>x. if P x then f x else x) xs) = map g xs"
  by (induction xs) auto

lemma db_ok_update:
  assumes "db_ok d" and "\<And>c. ch_id (f c) = ch_id c" and "\<And>c. ch_ref (f c) = ch_ref c"
  shows "db_ok (update_channel cid f d)"
  using assms(1) unfolding db_ok_def update_channel_simps map_map_if_same [of ch_id f, OF assms(2)]
    map_map_if_same [of ch_ref f, OF assms(3)]
  by (auto simp: assms(2))

lemma db_ok_blobs:
  assumes "db_ok d" and "\<And>b. bl_id (f b) = bl_id b"
  shows "db_ok (d\<lparr>blobs := map (\<lambda>x. if P x then f x else x) (blobs d)\<rparr>)"
  using assms(1) by (simp add: db_ok_def map_map_if_same [of bl_id f, OF assms(2)] del: map_map)

lemma db_ok_installs:
  assumes "db_ok d" and "\<And>i. in_id (f i) = in_id i"
  shows "db_ok (d\<lparr>installs := map (\<lambda>x. if P x then f x else x) (installs d)\<rparr>)"
  using assms(1) by (simp add: db_ok_def map_map_if_same [of in_id f, OF assms(2)] del: map_map)

lemma db_step_ok:
  assumes "db_step d d'" and "db_ok d"
  shows "db_ok d'"
  using assms
proof (cases rule: db_step.cases)
  case (create_owner up email h)
  with assms(2) show ?thesis
    by (force simp: CreateOwner_def Let_def db_ok_def list_ex_iff)
next
  case (create_channel up now oid ref title ad tg)
  with assms(2) show ?thesis
    by (force simp: CreateChannel_def Let_def db_ok_def list_ex_iff)
next
  case (update_ad up cid ad tg)
  with assms(2) show ?thesis by (auto simp: UpdateChannelAd_def intro!: db_ok_update)
next
  case (create_blob up now b)
  moreover have "db_ok (d\<lparr>blobs := blobs d @ [b\<lparr>bl_status := ''active'', bl_created := sql_now now\<rparr>]\<rparr>)"
    if "\<not> list_ex (\<lambda>x. bl_id x = bl_id b) (blobs d)"
    using that assms(2) by (auto simp: db_ok_def list_ex_iff)
  ultimately show ?thesis using assms(2) by (auto simp: CreateBlob_def intro!: db_ok_update)
next
  case (revoke_blob up bid)
  with assms(2) show ?thesis
    by (auto simp: RevokeBlob_def split: sum.splits intro!: db_ok_update db_ok_blobs)
next
  case (revoke_channel up cid)
  with assms(2) show ?thesis
    by (auto simp: RevokeChannel_def intro!: db_ok_update db_ok_blobs)
next
  case (create_install up now iid h)
  with assms(2) show ?thesis by (auto simp: CreateInstall_def db_ok_def list_ex_iff)
next
  case (install_by_hash up up2 now h)
  with assms(2) show ?thesis
    by (auto simp: InstallIDByHash_def split: sum.splits intro!: db_ok_installs)
next
  case (touch_install up now iid)
  with assms(2) show ?thesis by (auto simp: TouchInstall_def intro!: db_ok_installs)
next
  case (log_session up now bid iid ev bu bd)
  with assms(2) show ?thesis by (auto simp: LogSessionEvent_def db_ok_def)
next
  case (log_component up now iid bid)
  with assms(2) show ?thesis by (auto simp: LogComponentFetch_def db_ok_def)
qed

lemma db_ok_empty: "db_ok empty_db"
  by (simp add: db_ok_def empty_db_def)

lemma db_steps_ok: "db_step\<^sup>*\<^sup>* d d' \<Longrightarrow> db_ok d \<Longrightarrow> db_ok d'"
  by (induction rule: rtranclp_induct) (auto intro: db_step_ok)

section \<open>Revocation is final\<close>

definition blob_revoked :: "db \<Rightarrow> string \<Rightarrow> bool" where
  "blob_revoked d bid \<longleftrightarrow> (\<exists>b \<in> set (blobs d). bl_id b = bid \<and> bl_status b = ''revoked'')"

lemma blob_revoked_map:
  "(\<And>b. bl_id (f b) = bl_id b) \<Longrightarrow> (\<And>b. bl_status b = ''revoked'' \<Longrightarrow> bl_status (f b) = ''revoked'') \<Longrightarrow>
     blobs d' = map f (blobs d) \<Longrightarrow> blob_revoked d bid \<Longrightarrow> blob_revoked d' bid"
  by (auto simp: blob_revoked_def)

lemma db_step_revoked:
  assumes "db_step d d'" and "blob_revoked d bid"
  shows "blob_revoked d' bid"
  using assms(1)
proof (cases rule: db_step.cases)
  case (create_blob up now b)
  then show ?thesis
    using assms(2) by (auto simp: CreateBlob_def blob_revoked_def)
next
  case (revoke_blob up bid')
  then show ?thesis
    using assms(2) by (auto simp: RevokeBlob_def split: sum.splits
        intro: blob_revoked_map [where f = "\<lambda>x. if bl_id x = bid' then revoke_row x else x" and d = d])
next
  case (revoke_channel up cid)
  then show ?thesis
    using assms(2) by (auto simp: RevokeChannel_def
        intro: blob_revoked_map [where f = "\<lambda>x. if bl_channel x = cid then revoke_row x else x" and d = d])
qed (use assms(2) in \<open>auto simp: CreateOwner_def CreateChannel_def UpdateChannelAd_def CreateInstall_def
    InstallIDByHash_def TouchInstall_def LogSessionEvent_def LogComponentFetch_def Let_def
    blob_revoked_def split: sum.splits\<close>)

lemma BlobByID_revoked:
  assumes "db_ok d" and "blob_revoked d bid" and "BlobByID up bid d = Inr b"
  shows "bl_status b = ''revoked''"
proof -
  from assms(2) obtain x where x: "x \<in> set (blobs d)" "bl_id x = bid" "bl_status x = ''revoked''"
    by (auto simp: blob_revoked_def)
  from assms(3) obtain bs where f: "filter (\<lambda>b. bl_id b = bid) (blobs d) = b # bs"
    by (auto simp: BlobByID_def query_row_def split: if_splits list.splits)
  then have b: "b \<in> set (blobs d)" "bl_id b = bid"
    by (metis (mono_tags, lifting) filter_eq_ConsD in_set_conv_decomp, metis (mono_tags, lifting) filter_eq_ConsD)
  have "inj_on bl_id (set (blobs d))" using assms(1) by (simp add: db_ok_def distinct_map)
  with x(1,2) b have "b = x" by (metis inj_onD)
  with x(3) show ?thesis by simp
qed

lemma db_step_blob_kept:
  assumes "db_step\<^sup>*\<^sup>* d d'" and "blob_revoked d bid"
  shows "blob_revoked d' bid"
  using assms by (induction rule: rtranclp_induct) (auto intro: db_step_revoked)

lemma BlobByID_in:
  "BlobByID up bid d = Inr b \<Longrightarrow> up \<and> b \<in> set (blobs d) \<and> bl_id b = bid"
  by (auto simp: BlobByID_def query_row_def filter_eq_Cons_iff split: if_splits list.splits)

lemma BlobByID_some:
  "b \<in> set (blobs d) \<Longrightarrow> bl_id b = bid \<Longrightarrow> \<exists>b'. BlobByID True bid d = Inr b'"
  by (auto simp: BlobByID_def query_row_def filter_empty_conv split: list.splits)

lemma ActiveBlobs_in:
  "ActiveBlobsForChannel up cid d = Inr bs \<Longrightarrow>
     set bs = {b \<in> set (blobs d). bl_channel b = cid \<and> bl_status b = ''active''}"
  by (auto simp: ActiveBlobsForChannel_def query_def split: if_splits)

lemma RevokeBlob_revoked:
  assumes "RevokeBlob up bid d = (None, d1)"
  shows "blob_revoked d1 bid"
proof -
  obtain b where b: "BlobByID up bid d = Inr b"
    using assms by (auto simp: RevokeBlob_def split: sum.splits)
  then have "b \<in> set (blobs d)" and "bl_id b = bid" by (auto dest: BlobByID_in)
  moreover have "blobs d1 = map (\<lambda>x. if bl_id x = bid then revoke_row x else x) (blobs d)"
    using assms b by (auto simp: RevokeBlob_def)
  ultimately have "revoke_row b \<in> set (blobs d1)" by force
  with \<open>bl_id b = bid\<close> show ?thesis unfolding blob_revoked_def by (intro bexI [of _ "revoke_row b"]) simp_all
qed

lemma unique_blob:
  "db_ok d \<Longrightarrow> b \<in> set (blobs d) \<Longrightarrow> b' \<in> set (blobs d) \<Longrightarrow> bl_id b = bl_id b' \<Longrightarrow> b = b'"
  by (simp add: db_ok_def distinct_map inj_on_def)

lemma unique_channel:
  "db_ok d \<Longrightarrow> c \<in> set (channels d) \<Longrightarrow> c' \<in> set (channels d) \<Longrightarrow> ch_id c = ch_id c' \<Longrightarrow> c = c'"
  by (simp add: db_ok_def distinct_map inj_on_def)

text \<open>
  C31: Revocation is final.  Once \<open>RevokeBlob\<close> has succeeded on a database the server reached, the blob
  stays in the table with the status "revoked" whatever statements follow, and the feed's query never
  lists it again.
\<close>

theorem revocation_is_final:
  assumes "db_step\<^sup>*\<^sup>* empty_db d" and "RevokeBlob up bid d = (None, d1)" and "db_step\<^sup>*\<^sup>* d1 d2"
  shows "(\<exists>b. BlobByID True bid d2 = Inr b \<and> bl_status b = ''revoked'') \<and>
    (\<forall>up' cid. bid \<notin> (case ActiveBlobsForChannel up' cid d2 of Inl _ \<Rightarrow> {} | Inr bs \<Rightarrow> bl_id ` set bs))"
proof (intro conjI allI)
  have ok: "db_ok d" using assms(1) db_ok_empty by (rule db_steps_ok)
  have "db_step d d1" using db_step.revoke_blob [of d up bid] assms(2) by simp
  with ok assms(3) have ok2: "db_ok d2" by (blast intro: db_step_ok db_steps_ok)
  have rev: "blob_revoked d2 bid"
    using assms(3) RevokeBlob_revoked [OF assms(2)] by (rule db_step_blob_kept)
  then obtain x where x: "x \<in> set (blobs d2)" "bl_id x = bid" "bl_status x = ''revoked''"
    by (auto simp: blob_revoked_def)
  then obtain b where b: "BlobByID True bid d2 = Inr b" using BlobByID_some by blast
  with ok2 rev show "\<exists>b. BlobByID True bid d2 = Inr b \<and> bl_status b = ''revoked''"
    using BlobByID_revoked by blast
  fix up' cid
  show "bid \<notin> (case ActiveBlobsForChannel up' cid d2 of Inl _ \<Rightarrow> {} | Inr bs \<Rightarrow> bl_id ` set bs)"
  proof (cases "ActiveBlobsForChannel up' cid d2")
    case (Inr bs)
    then show ?thesis using ActiveBlobs_in [OF Inr] unique_blob [OF ok2] x by fastforce
  qed simp
qed

definition wit_blob :: blob_row where
  "wit_blob = \<lparr>bl_id = ''b1'', bl_channel = 1, bl_epoch = 0, bl_protocol = ''vless'', bl_title = ''t'',
     bl_host = None, bl_locked = ''AA'', bl_status = ''active'', bl_created = 0\<rparr>"

definition wit_db :: db where
  "wit_db = snd (CreateBlob True 0 wit_blob (snd (CreateChannel True 0 1 ''r'' ''t'' None None empty_db)))"

lemma wit_db_reached: "db_step\<^sup>*\<^sup>* empty_db wit_db"
  unfolding wit_db_def
  by (rule rtranclp.rtrancl_into_rtrancl, rule r_into_rtranclp, rule db_step.create_channel,
      rule db_step.create_blob)

lemma wit_db_revoke: "fst (RevokeBlob True ''b1'' wit_db) = None"
  by (simp add: wit_db_def wit_blob_def empty_db_def CreateBlob_def CreateChannel_def RevokeBlob_def
      BlobByID_def query_row_def)

theorem revocation_is_final_witness:
  "\<exists>b. BlobByID True ''b1'' (snd (RevokeBlob True ''b1'' wit_db)) = Inr b \<and> bl_status b = ''revoked''"
  using revocation_is_final [OF wit_db_reached, of True "''b1''" "snd (RevokeBlob True ''b1'' wit_db)"
      "snd (RevokeBlob True ''b1'' wit_db)"] wit_db_revoke
  by (metis prod.collapse rtranclp.rtrancl_refl)

section \<open>config_count\<close>

definition active_count :: "db \<Rightarrow> int \<Rightarrow> nat" where
  "active_count d cid = length (filter (\<lambda>b. bl_channel b = cid \<and> bl_status b = ''active'') (blobs d))"

text \<open>Every channel's \<open>config_count\<close> is the number of its active blobs.\<close>

definition counts_ok :: "db \<Rightarrow> bool" where
  "counts_ok d \<longleftrightarrow> (\<forall>c \<in> set (channels d). ch_count c = int (active_count d (ch_id c)))"

lemma counts_ok_CreateBlob:
  assumes "counts_ok d"
  shows "counts_ok (snd (CreateBlob up now b d))"
  using assms by (auto simp: CreateBlob_def counts_ok_def active_count_def)

lemma filter_revoke_one:
  assumes "distinct (map bl_id bs)"
  shows "length (filter (\<lambda>b. bl_channel b = cid \<and> bl_status b = ''active'') bs) =
    length (filter (\<lambda>b. bl_channel b = cid \<and> bl_status b = ''active'')
      (map (\<lambda>x. if bl_id x = bid then revoke_row x else x) bs)) +
    (if \<exists>b \<in> set bs. bl_id b = bid \<and> bl_channel b = cid \<and> bl_status b = ''active'' then 1 else 0)"
  using assms
proof (induction bs)
  case (Cons b bs)
  have "(\<exists>x \<in> set bs. bl_id x = bid) \<Longrightarrow> bl_id b \<noteq> bid" using Cons.prems by force
  with Cons show ?case by auto
qed simp

lemma active_count_revoke:
  assumes "db_ok d" and "BlobByID up bid d = Inr b"
  shows "active_count d cid = active_count (snd (RevokeBlob up bid d)) cid +
    (if bl_channel b = cid \<and> bl_status b = ''active'' then 1 else 0)"
proof -
  have "(\<exists>x \<in> set (blobs d). bl_id x = bid \<and> bl_channel x = cid \<and> bl_status x = ''active'') \<longleftrightarrow>
      bl_channel b = cid \<and> bl_status b = ''active''"
    using BlobByID_in [OF assms(2)] unique_blob [OF assms(1)] by blast
  then show ?thesis
    using filter_revoke_one [of "blobs d" cid bid] assms by (simp add: active_count_def RevokeBlob_def db_ok_def)
qed

lemma snd_RevokeBlob_channels:
  "BlobByID up bid d = Inr b \<Longrightarrow> channels (snd (RevokeBlob up bid d)) =
     map (\<lambda>c. if ch_id c = bl_channel b
              then c\<lparr>ch_count := (if ch_count c > 0 then ch_count c - 1 else 0)\<rparr> else c) (channels d)"
  by (simp add: RevokeBlob_def)

text \<open>
  \<open>config_count\<close> after a revocation.  Where the counts were the numbers of active blobs,
  \<open>RevokeBlob\<close> keeps them so exactly when the blob was still active (or the count was already 0, where
  the CASE keeps it): revoking a blob a second time takes one more off the count of its channel.
\<close>

theorem revoke_keeps_counts_iff:
  assumes "db_ok d" and "counts_ok d" and "BlobByID up bid d = Inr b"
    and "c \<in> set (channels d)" and "ch_id c = bl_channel b"
  shows "counts_ok (snd (RevokeBlob up bid d)) \<longleftrightarrow> bl_status b = ''active'' \<or> ch_count c = 0"
proof -
  let ?d = "snd (RevokeBlob up bid d)" and ?a = "bl_status b = ''active''"
  have cnt: "ch_count c' = int (active_count d (ch_id c'))" if "c' \<in> set (channels d)" for c'
    using that assms(2) by (simp add: counts_ok_def)
  have other: "active_count ?d k = active_count d k" if "k \<noteq> bl_channel b" for k
    using active_count_revoke [OF assms(1,3), of k] that by simp
  have same: "active_count d (ch_id c) = active_count ?d (ch_id c) + (if ?a then 1 else 0)"
    using active_count_revoke [OF assms(1,3), of "ch_id c"] assms(5) by simp
  have "counts_ok ?d \<longleftrightarrow> (\<forall>c' \<in> set (channels d). ch_id c' = bl_channel b \<longrightarrow>
      (if ch_count c' > 0 then ch_count c' - 1 else 0) = int (active_count ?d (ch_id c')))"
    (is "_ \<longleftrightarrow> (\<forall>c' \<in> _. ?P c')")
  proof -
    define g :: "channel_row \<Rightarrow> channel_row" where "g = (\<lambda>c. if ch_id c = bl_channel b
      then c\<lparr>ch_count := (if ch_count c > 0 then ch_count c - 1 else 0)\<rparr> else c)"
    have "counts_ok ?d \<longleftrightarrow>
        (\<forall>c' \<in> set (channels d). ch_count (g c') = int (active_count ?d (ch_id (g c'))))"
      unfolding counts_ok_def snd_RevokeBlob_channels [OF assms(3)] g_def by (simp only: set_map ball_simps)
    also have "\<dots> \<longleftrightarrow> (\<forall>c' \<in> set (channels d). ?P c')"
      by (rule ball_cong) (simp_all add: cnt other g_def)
    finally show ?thesis .
  qed
  also have "\<dots> \<longleftrightarrow> (if ch_count c > 0 then ch_count c - 1 else 0) = int (active_count ?d (ch_id c))"
  proof -
    have "c' = c" if "c' \<in> set (channels d)" "ch_id c' = bl_channel b" for c'
      using unique_channel [OF assms(1) that(1) assms(4)] that(2) assms(5) by simp
    then show ?thesis using assms(4,5) by blast
  qed
  also have "\<dots> \<longleftrightarrow> ?a \<or> ch_count c = 0"
    using same cnt [OF assms(4)] by auto
  finally show ?thesis .
qed

lemma wit_db_facts:
  "counts_ok wit_db" "BlobByID True ''b1'' wit_db = Inr (wit_blob\<lparr>bl_created := 0\<rparr>)"
  "channels wit_db = [\<lparr>ch_id = 1, ch_ref = ''r'', ch_owner = 1, ch_title = ''t'', ch_telegram = None,
     ch_ad = None, ch_status = ''active'', ch_count = 1, ch_created = 0\<rparr>]"
  "blobs wit_db = [wit_blob]"
  by (simp_all add: counts_ok_def active_count_def wit_db_def wit_blob_def empty_db_def CreateBlob_def
      CreateChannel_def BlobByID_def query_row_def sql_now_def second_def)

lemma wit_db_ok: "db_ok wit_db"
  using db_steps_ok [OF wit_db_reached db_ok_empty] .

theorem revoke_keeps_counts_iff_witness:
  "counts_ok (snd (RevokeBlob True ''b1'' wit_db))"
  using revoke_keeps_counts_iff [OF wit_db_ok wit_db_facts(1,2), of "hd (channels wit_db)"]
  by (simp add: wit_db_facts wit_blob_def)

text \<open>\<open>RevokeChannel\<close> revokes the blobs and never touches the count.\<close>

lemma revoke_channel_keeps_count:
  assumes "c \<in> set (channels d)" and "counts_ok d" and "ch_count c > 0"
  shows "\<not> counts_ok (snd (RevokeChannel True (ch_id c) d))"
proof -
  let ?d = "snd (RevokeChannel True (ch_id c) d)"
  have "c\<lparr>ch_status := ''revoked''\<rparr> \<in> set (channels ?d)" using assms(1) by (force simp: RevokeChannel_def)
  moreover have "active_count ?d (ch_id c) = 0"
    by (auto simp: RevokeChannel_def active_count_def filter_empty_conv)
  ultimately have "counts_ok ?d \<Longrightarrow> ch_count (c\<lparr>ch_status := ''revoked''\<rparr>) = 0"
    unfolding counts_ok_def by fastforce
  then show ?thesis using assms(3) by auto
qed

section \<open>The dashboard's numbers\<close>

lemma event_count_scoped:
  "channel_blob d cid (fst g) \<Longrightarrow> event_count ev (channel_sessions d cid) g = event_count ev (sessions d) g"
  by (auto simp: event_count_def channel_sessions_def intro!: arg_cong [of _ _ length] filter_cong)

lemma event_count_pos:
  "0 < event_count ev ss g \<Longrightarrow> g \<in> (\<lambda>s. (se_blob s, se_install s)) ` set ss"
  by (auto simp: event_count_def filter_empty_conv)

text \<open>The pairs that are connected: more starts than ends, on a blob of the channel.\<close>

definition live_pairs :: "db \<Rightarrow> int \<Rightarrow> (string \<times> string) set" where
  "live_pairs d cid = {g. channel_blob d cid (fst g) \<and>
     event_count ''end'' (sessions d) g < event_count ''start'' (sessions d) g}"

text \<open>
  What the dashboard's "live" figure is: the number of (blob, install) pairs of the channel with more
  starts than ends.  An install connected through two blobs of the channel is two.
\<close>

theorem live_count_is_pairs:
  "LiveInstallCount True cid d = Inr (card (live_pairs d cid))"
proof -
  let ?ss = "channel_sessions d cid"
  let ?key = "\<lambda>s. (se_blob s, se_install s)"
  let ?gs = "filter (\<lambda>g. event_count ''end'' ?ss g < event_count ''start'' ?ss g) (remdups (map ?key ?ss))"
  have scope: "g \<in> ?key ` set ?ss \<Longrightarrow> channel_blob d cid (fst g)" for g
    by (auto simp: channel_sessions_def)
  have "set ?gs = live_pairs d cid"
  proof (rule set_eqI)
    fix g
    have "g \<in> set ?gs \<longleftrightarrow> g \<in> ?key ` set ?ss \<and> event_count ''end'' ?ss g < event_count ''start'' ?ss g"
      by (simp only: set_filter set_remdups set_map mem_Collect_eq)
    also have "\<dots> \<longleftrightarrow> channel_blob d cid (fst g) \<and> event_count ''end'' ?ss g < event_count ''start'' ?ss g"
    proof
      assume r: "channel_blob d cid (fst g) \<and> event_count ''end'' ?ss g < event_count ''start'' ?ss g"
      then have "0 < event_count ''start'' ?ss g" by linarith
      then have "g \<in> ?key ` set ?ss" by (rule event_count_pos)
      with r show "g \<in> ?key ` set ?ss \<and> event_count ''end'' ?ss g < event_count ''start'' ?ss g" by simp
    qed (use scope in simp)
    also have "\<dots> \<longleftrightarrow> g \<in> live_pairs d cid"
      by (simp add: live_pairs_def event_count_scoped cong: conj_cong)
    finally show "g \<in> set ?gs \<longleftrightarrow> g \<in> live_pairs d cid" .
  qed
  moreover have "distinct ?gs" by (intro distinct_filter distinct_remdups)
  ultimately have "card (live_pairs d cid) = length ?gs" using distinct_card by fastforce
  then show ?thesis by (simp add: LiveInstallCount_def Let_def)
qed

lemma length_filter_disj:
  "(\<And>x. \<not> (P x \<and> Q x)) \<Longrightarrow> length (filter (\<lambda>x. P x \<or> Q x) xs) = length (filter P xs) + length (filter Q xs)"
  by (induction xs) auto

lemma count_by_key:
  "distinct (map k bs) \<Longrightarrow>
     length (filter (\<lambda>s. p s \<and> (\<exists>b \<in> set bs. k b = f s)) ss) =
     sum_list (map (\<lambda>b. length (filter (\<lambda>s. p s \<and> f s = k b) ss)) bs)"
proof (induction bs)
  case (Cons b bs)
  have "filter (\<lambda>s. p s \<and> (\<exists>b' \<in> set (b # bs). k b' = f s)) ss =
      filter (\<lambda>s. (p s \<and> f s = k b) \<or> (p s \<and> (\<exists>b' \<in> set bs. k b' = f s))) ss"
    by (auto intro!: filter_cong)
  moreover have "\<not> ((p s \<and> f s = k b) \<and> (p s \<and> (\<exists>b' \<in> set bs. k b' = f s)))" for s
    using Cons.prems by (metis distinct.simps(2) image_eqI list.set_map list.simps(9))
  ultimately show ?case using Cons by (simp add: length_filter_disj)
qed simp

lemma sum_list_insort_key: "sum_list (map f (insort_key g x xs)) = f x + (sum_list (map f xs) :: nat)"
  by (induction xs) auto

lemma sum_list_sort_key: "sum_list (map f (sort_key g xs)) = (sum_list (map f xs) :: nat)"
  by (induction xs) (simp_all add: sum_list_insort_key)

text \<open>
  The dashboard's total is the sum of its per-blob numbers (given the primary key of the blobs), as
  \<open>TotalConnections\<close> and \<open>PerBlobConnections\<close> count the same starts.
\<close>

theorem total_is_sum_of_per_blob:
  assumes "db_ok d" and "PerBlobConnections up cid d = Inr rows"
  shows "TotalConnections up cid d = Inr (sum_list (map (snd \<circ> snd) rows))"
proof -
  let ?bs = "filter (\<lambda>b. bl_channel b = cid) (blobs d)"
  let ?n = "\<lambda>b. length (filter (\<lambda>s. se_event s = ''start'' \<and> se_blob s = bl_id b) (sessions d))"
  have up and rows: "sum_list (map (snd \<circ> snd) rows) = sum_list (map ?n ?bs)"
    using assms(2) by (auto simp: PerBlobConnections_def o_def sum_list_sort_key split: if_splits)
  have "distinct (map bl_id ?bs)" using assms(1) by (simp add: db_ok_def distinct_map_filter)
  from count_by_key [OF this, of "\<lambda>s. se_event s = ''start''" se_blob "sessions d"]
  moreover have "(\<exists>b \<in> set ?bs. bl_id b = bid) \<longleftrightarrow> channel_blob d cid bid" for bid
    by (auto simp: channel_blob_def list_ex_iff)
  ultimately have "sum_list (map ?n ?bs) =
      length (filter (\<lambda>s. se_event s = ''start'' \<and> channel_blob d cid (se_blob s)) (sessions d))"
    by simp
  with rows \<open>up\<close> show ?thesis by (simp add: TotalConnections_def)
qed

theorem total_is_sum_of_per_blob_witness:
  "TotalConnections True 1 (snd (LogSessionEvent True 0 ''b1'' ''i1'' ''start'' 0 0 wit_db)) = Inr 1"
proof -
  let ?d = "snd (LogSessionEvent True 0 ''b1'' ''i1'' ''start'' 0 0 wit_db)"
  have "db_ok ?d" using wit_db_ok by (rule db_step_ok [OF db_step.log_session])
  moreover have "PerBlobConnections True 1 ?d = Inr [(''b1'', ''t'', 1)]"
  proof -
    have "sessions wit_db = []"
      by (simp add: wit_db_def CreateBlob_def CreateChannel_def empty_db_def update_channel_def)
    then show ?thesis
      by (simp add: PerBlobConnections_def LogSessionEvent_def wit_db_facts wit_blob_def)
  qed
  ultimately show ?thesis using total_is_sum_of_per_blob by fastforce
qed

section \<open>Rows are never deleted\<close>

lemmas db_op_defs = CreateOwner_def CreateChannel_def UpdateChannelAd_def CreateBlob_def RevokeBlob_def
  RevokeChannel_def CreateInstall_def InstallIDByHash_def TouchInstall_def LogSessionEvent_def
  LogComponentFetch_def Let_def

lemma map_kept:
  "x \<in> set xs \<Longrightarrow> (\<And>x. P (f x) = P x) \<Longrightarrow> P x \<Longrightarrow> \<exists>y \<in> set (map (\<lambda>x. if Q x then f x else x) xs). P y"
  by (rule bexI [of _ "if Q x then f x else x"]) auto

lemma install_kept:
  assumes "db_step d d'" and "i \<in> set (installs d)"
  shows "\<exists>i' \<in> set (installs d'). in_id i' = in_id i \<and> in_hash i' = in_hash i"
  using assms(1)
proof (cases rule: db_step.cases)
  case (create_install up now iid h)
  with assms(2) show ?thesis by (auto simp: CreateInstall_def)
next
  case (install_by_hash up up2 now h)
  with assms(2) show ?thesis
    using map_kept [of i "installs d" "\<lambda>i'. in_id i' = in_id i \<and> in_hash i' = in_hash i"
        "\<lambda>x. x\<lparr>in_seen := now\<rparr>" "\<lambda>x. in_hash x = h"]
    by (auto simp: InstallIDByHash_def split: sum.splits simp del: set_map bex_simps)
next
  case (touch_install up now iid)
  with assms(2) show ?thesis
    using map_kept [of i "installs d" "\<lambda>i'. in_id i' = in_id i \<and> in_hash i' = in_hash i"
        "\<lambda>x. x\<lparr>in_seen := now\<rparr>" "\<lambda>x. in_id x = iid"]
    by (auto simp: TouchInstall_def simp del: set_map bex_simps)
qed (use assms(2) in \<open>auto simp: db_op_defs split: sum.splits\<close>)

lemma channel_kept:
  assumes "db_step d d'" and "c \<in> set (channels d)"
  shows "\<exists>c' \<in> set (channels d'). ch_id c' = ch_id c \<and> ch_ref c' = ch_ref c \<and> ch_owner c' = ch_owner c"
proof -
  have upd: "\<exists>c' \<in> set (channels (update_channel cid f x)).
      ch_id c' = ch_id c \<and> ch_ref c' = ch_ref c \<and> ch_owner c' = ch_owner c"
    if "channels x = channels d" and "\<And>c. ch_id (f c) = ch_id c \<and> ch_ref (f c) = ch_ref c \<and> ch_owner (f c) = ch_owner c"
    for cid f x
    using map_kept [of c "channels d" "\<lambda>c'. ch_id c' = ch_id c \<and> ch_ref c' = ch_ref c \<and> ch_owner c' = ch_owner c"
        f "\<lambda>x. ch_id x = cid"] assms(2) that
    by (simp del: set_map bex_simps)
  show ?thesis using assms(1)
  proof (cases rule: db_step.cases)
    case (update_ad up cid ad tg)
    with assms(2) show ?thesis by (auto simp: UpdateChannelAd_def simp del: update_channel_simps intro!: upd)
  next
    case (create_blob up now b)
    with assms(2) show ?thesis by (auto simp: CreateBlob_def simp del: update_channel_simps intro!: upd)
  next
    case (revoke_blob up bid)
    with assms(2) show ?thesis
      by (auto simp: RevokeBlob_def simp del: update_channel_simps split: sum.splits intro!: upd)
  next
    case (revoke_channel up cid)
    with assms(2) show ?thesis by (auto simp: RevokeChannel_def simp del: update_channel_simps intro!: upd)
  qed (use assms(2) in \<open>auto simp: db_op_defs split: sum.splits\<close>)
qed

lemma blob_kept:
  assumes "db_step d d'" and "b \<in> set (blobs d)"
  shows "\<exists>b' \<in> set (blobs d'). bl_id b' = bl_id b \<and> bl_channel b' = bl_channel b"
  using assms(1)
proof (cases rule: db_step.cases)
  case (create_blob up now x)
  with assms(2) show ?thesis by (auto simp: CreateBlob_def)
next
  case (revoke_blob up bid)
  with assms(2) show ?thesis
    using map_kept [of b "blobs d" "\<lambda>b'. bl_id b' = bl_id b \<and> bl_channel b' = bl_channel b" revoke_row
        "\<lambda>x. bl_id x = bid"]
    by (auto simp: RevokeBlob_def split: sum.splits simp del: set_map bex_simps)
next
  case (revoke_channel up cid)
  with assms(2) show ?thesis
    using map_kept [of b "blobs d" "\<lambda>b'. bl_id b' = bl_id b \<and> bl_channel b' = bl_channel b" revoke_row
        "\<lambda>x. bl_channel x = cid"]
    by (auto simp: RevokeChannel_def simp del: set_map bex_simps)
qed (use assms(2) in \<open>auto simp: db_op_defs split: sum.splits\<close>)

lemma installs_kept:
  assumes "db_step\<^sup>*\<^sup>* d d'" and "i \<in> set (installs d)"
  shows "\<exists>i' \<in> set (installs d'). in_id i' = in_id i \<and> in_hash i' = in_hash i"
  using assms
proof (induction rule: rtranclp_induct)
  case (step d1 d2)
  then show ?case using install_kept by metis
qed auto

lemma channels_kept:
  assumes "db_step\<^sup>*\<^sup>* d d'" and "c \<in> set (channels d)"
  shows "\<exists>c' \<in> set (channels d'). ch_id c' = ch_id c \<and> ch_ref c' = ch_ref c \<and> ch_owner c' = ch_owner c"
  using assms
proof (induction rule: rtranclp_induct)
  case (step d1 d2)
  then show ?case using channel_kept by metis
qed auto

lemma blobs_kept:
  assumes "db_step\<^sup>*\<^sup>* d d'" and "b \<in> set (blobs d)"
  shows "\<exists>b' \<in> set (blobs d'). bl_id b' = bl_id b \<and> bl_channel b' = bl_channel b"
  using assms
proof (induction rule: rtranclp_induct)
  case (step d1 d2)
  then show ?case using blob_kept by metis
qed auto

lemma owner_kept: "db_step d d' \<Longrightarrow> o1 \<in> set (owners d) \<Longrightarrow> o1 \<in> set (owners d')"
  by (cases rule: db_step.cases) (auto simp: db_op_defs split: sum.splits)

lemma owners_kept:
  assumes "db_step\<^sup>*\<^sup>* d d'" and "o1 \<in> set (owners d)"
  shows "o1 \<in> set (owners d')"
  using assms by (induction rule: rtranclp_induct) (auto intro: owner_kept)

lemma OwnerByEmail_unique:
  assumes "db_ok d" and "o1 \<in> set (owners d)"
  shows "OwnerByEmail True (ow_email o1) d = Inr o1"
proof -
  have "inj_on ow_email (set (owners d))" using assms(1) by (simp add: db_ok_def distinct_map)
  then have all: "x = o1" if "x \<in> set (filter (\<lambda>x. ow_email x = ow_email o1) (owners d))" for x
    using assms(2) that by (auto dest: inj_onD)
  have "o1 \<in> set (filter (\<lambda>x. ow_email x = ow_email o1) (owners d))" using assms(2) by simp
  then obtain x xs where f: "filter (\<lambda>x. ow_email x = ow_email o1) (owners d) = x # xs"
    by (cases "filter (\<lambda>x. ow_email x = ow_email o1) (owners d)") auto
  moreover have "x = o1" by (rule all) (simp only: f list.set_intros)
  ultimately show ?thesis by (simp add: OwnerByEmail_def query_row_def)
qed

end
