(* ===== verification/Lock_Blob.thy ===== *)
theory Lock_Blob
  imports Gate_Token
begin

text \<open>
  \<open>server/internal/lock\<close>: the derivation of the per-blob key (\<open>lock.go\<close>), the locked blob
  (\<open>build.go\<close>) and the public metadata of a config (\<open>parse.go\<close>).  Unpadded base64url is written
  out; AES-256-GCM and the JSON text of the envelope are arguments (\<open>sealer\<close>, \<open>opener\<close>, \<open>marshal\<close>,
  \<open>unmarshal\<close>).  The lemmas show that the key separates blobs and epochs and that what is locked can
  be opened with the server's component.
\<close>

section \<open>Unpadded base64url\<close>

definition b64_char :: "nat \<Rightarrow> char" where
  "b64_char n =
     (if n < 26 then char_of (65 + n)
      else if n < 52 then char_of (97 + (n - 26))
      else if n < 62 then char_of (48 + (n - 52))
      else if n = 62 then CHR ''-'' else CHR ''_'')"

definition b64_val :: "char \<Rightarrow> nat option" where
  "b64_val c =
     (let n = (of_char c :: nat)
      in if 65 \<le> n \<and> n \<le> 90 then Some (n - 65)
         else if 97 \<le> n \<and> n \<le> 122 then Some (n - 97 + 26)
         else if 48 \<le> n \<and> n \<le> 57 then Some (n - 48 + 52)
         else if n = 45 then Some 62
         else if n = 95 then Some 63
         else None)"

fun RawURLEncode :: "string \<Rightarrow> string" where
  "RawURLEncode (a # b # c # s) =
     b64_char (of_char a div 4) # b64_char (of_char a mod 4 * 16 + of_char b div 16) #
     b64_char (of_char b mod 16 * 4 + of_char c div 64) # b64_char (of_char c mod 64) #
     RawURLEncode s"
| "RawURLEncode [a, b] =
     [b64_char (of_char a div 4), b64_char (of_char a mod 4 * 16 + of_char b div 16),
      b64_char (of_char b mod 16 * 4)]"
| "RawURLEncode [a] = [b64_char (of_char a div 4), b64_char (of_char a mod 4 * 16)]"
| "RawURLEncode [] = []"

text \<open>Line breaks are skipped; unused low bits of the last group are ignored.\<close>

fun b64_groups :: "nat list \<Rightarrow> string option" where
  "b64_groups (w # x # y # z # s) =
     map_option (\<lambda>r. char_of (w * 4 + x div 16) # char_of (x mod 16 * 16 + y div 4) #
       char_of (y mod 4 * 64 + z) # r) (b64_groups s)"
| "b64_groups [w, x, y] = Some [char_of (w * 4 + x div 16), char_of (x mod 16 * 16 + y div 4)]"
| "b64_groups [w, x] = Some [char_of (w * 4 + x div 16)]"
| "b64_groups [w] = None"
| "b64_groups [] = Some []"

definition RawURLDecode :: "string \<Rightarrow> string option" where
  "RawURLDecode s =
     (let t = filter (\<lambda>c. c \<noteq> CHR 0x0A \<and> c \<noteq> CHR 0x0D) s
      in if list_all (\<lambda>c. b64_val c \<noteq> None) t then b64_groups (map (\<lambda>c. the (b64_val c)) t) else None)"

lemma of_char_b64:
  "n < 64 \<Longrightarrow> (of_char (b64_char n) :: nat) =
     (if n < 26 then 65 + n else if n < 52 then 71 + n else if n < 62 then n - 4
      else if n = 62 then 45 else 95)"
  by (auto simp: b64_char_def)

lemma b64_val_char [simp]: "n < 64 \<Longrightarrow> b64_val (b64_char n) = Some n"
  by (auto simp: b64_val_def of_char_b64 Let_def)

lemma b64_char_line [simp]: "n < 64 \<Longrightarrow> b64_char n \<noteq> CHR 0x0A" "n < 64 \<Longrightarrow> b64_char n \<noteq> CHR 0x0D"
  using of_char_b64 [of n] by (auto split: if_splits)

lemma div_mod_part:
  fixes m q r :: nat
  assumes "r < m"
  shows "(q * m + r) div m = q" and "(q * m + r) mod m = r"
  using assms by simp_all

lemma byte_lt [simp]: "(of_char (c :: char) :: nat) < 256"
  by simp

text \<open>Every encoded character is a sextet, and the sextets decode to the bytes.\<close>

definition sextets_of :: "string \<Rightarrow> nat list" where
  "sextets_of s = map (\<lambda>c. the (b64_val c)) s"

lemma byte_parts:
  "of_char (b :: char) div 16 div 16 = (0 :: nat)" "of_char b div 16 mod 16 = (of_char b div 16 :: nat)"
  "of_char b div 64 div 4 = (0 :: nat)" "of_char b div 64 mod 4 = (of_char b div 64 :: nat)"
proof -
  have "of_char b div 16 < (16 :: nat)" "of_char b div 64 < (4 :: nat)"
    using byte_lt [of b] by linarith+
  then show "of_char b div 16 div 16 = (0 :: nat)" "of_char b div 16 mod 16 = (of_char b div 16 :: nat)"
    "of_char b div 64 div 4 = (0 :: nat)" "of_char b div 64 mod 4 = (of_char b div 64 :: nat)"
    by simp_all
qed

lemma sextet_bounds:
  fixes a b c :: nat
  assumes "a < 256" and "b < 256" and "c < 256"
  shows "a div 4 < 64" and "a mod 4 * 16 + b div 16 < 64" and "b mod 16 * 4 + c div 64 < 64"
    and "c mod 64 < 64" and "a mod 4 * 16 < 64" and "b mod 16 * 4 < 64"
proof -
  have "a mod 4 < 4" "b div 16 < 16" "b mod 16 < 16" "c div 64 < 4" using assms by auto
  then show "a mod 4 * 16 + b div 16 < 64" "b mod 16 * 4 + c div 64 < 64" "a mod 4 * 16 < 64"
    "b mod 16 * 4 < 64" by linarith+
qed (use assms in auto)

lemma RawURLEncode_sextets:
  "list_all (\<lambda>c. b64_val c \<noteq> None \<and> c \<noteq> CHR 0x0A \<and> c \<noteq> CHR 0x0D) (RawURLEncode s) \<and>
   b64_groups (sextets_of (RawURLEncode s)) = Some s"
proof (induction s rule: RawURLEncode.induct)
  case (1 a b c s)
  note lt = sextet_bounds [of "of_char a" "of_char b" "of_char c", OF byte_lt byte_lt byte_lt]
  from 1 show ?case
    by (simp add: lt sextets_of_def byte_parts)
next
  case (2 a b)
  note lt = sextet_bounds [of "of_char a" "of_char b" 0, OF byte_lt byte_lt]
  show ?case by (simp add: lt sextets_of_def byte_parts)
next
  case (3 a)
  note lt = sextet_bounds [of "of_char a" 0 0, OF byte_lt]
  show ?case by (simp add: lt sextets_of_def byte_parts)
qed (simp add: sextets_of_def)

lemma RawURLDecode_Encode [simp]: "RawURLDecode (RawURLEncode s) = Some s"
proof -
  have "filter (\<lambda>c. c \<noteq> CHR 0x0A \<and> c \<noteq> CHR 0x0D) (RawURLEncode s) = RawURLEncode s"
    using RawURLEncode_sextets [of s] by (auto simp: filter_id_conv list_all_iff)
  then show ?thesis
    using RawURLEncode_sextets [of s] by (auto simp: RawURLDecode_def Let_def sextets_of_def list_all_iff)
qed

section \<open>Keys\<close>

text \<open>A \<open>MasterKey\<close> is its secret.\<close>

type_synonym master_key = string

definition NewMasterKey :: "string \<Rightarrow> master_key" where
  "NewMasterKey key = key"

definition component_msg :: "string \<Rightarrow> int \<Rightarrow> string" where
  "component_msg blobID epoch = ''oversea|blob|'' @ FormatInt epoch @ ''|'' @ blobID"

definition ComponentFor :: "master_key \<Rightarrow> string \<Rightarrow> int \<Rightarrow> string" where
  "ComponentFor m blobID epoch = EncodeHex (HMAC m (component_msg blobID epoch))"

definition FinalKeyMaterial :: "master_key \<Rightarrow> string \<Rightarrow> string \<Rightarrow> int \<Rightarrow> string" where
  "FinalKeyMaterial m clientKeyMaterial blobID epoch =
     HMAC clientKeyMaterial (''oversea-lock|v2|'' @ FormatInt epoch @ ''|'' @ blobID @ ''|'' @
       ComponentFor m blobID epoch)"

definition EpochFor :: "time \<Rightarrow> int" where
  "EpochFor t = go_div (Unix t) 86400"

section \<open>Public metadata\<close>

record config_meta =
  cm_Protocol :: string
  cm_Title :: string
  cm_Host :: string

text \<open>\<open>strings.ReplaceAll\<close> for a non-empty \<open>old\<close>.\<close>

function ReplaceAll :: "string \<Rightarrow> string \<Rightarrow> string \<Rightarrow> string" where
  "ReplaceAll [] old new = []"
| "ReplaceAll (c # s) old new =
     (if old \<noteq> [] \<and> HasPrefix (c # s) old then new @ ReplaceAll (drop (length old) (c # s)) old new
      else c # ReplaceAll s old new)"
  by pat_completeness auto
termination
  by (relation "measure (\<lambda>(s, old, new). length s)") auto

fun find_param :: "string \<Rightarrow> string list \<Rightarrow> string" where
  "find_param key [] = []"
| "find_param key (pair # ps) =
     (if CHR ''='' \<in> set pair \<and> before (CHR ''='') pair = key
      then ReplaceAll (ReplaceAll (after (CHR ''='') pair) ''%20'' '' '') ''+'' '' ''
      else find_param key ps)"

definition queryParam :: "string \<Rightarrow> string \<Rightarrow> string" where
  "queryParam raw key =
     (if CHR ''?'' \<in> set raw
      then find_param key (Split (before (CHR ''#'') (after (CHR ''?'') raw)) (CHR ''&''))
      else [])"

definition config_host :: "string \<Rightarrow> string" where
  "config_host raw =
     (let rest = (case Index raw ''://'' of None \<Rightarrow> raw | Some i \<Rightarrow> drop (i + 3) raw);
          rest = takeWhile (\<lambda>c. c \<noteq> CHR ''?'' \<and> c \<noteq> CHR ''#'') rest;
          rest = (if CHR ''@'' \<in> set rest then after (CHR ''@'') rest else rest);
          rest = before (CHR ''/'') rest
      in if CHR '':'' \<in> set rest \<and> before_last (CHR '':'') rest \<noteq> [] \<and>
            \<not> Contains (CHR '':'' # after_last (CHR '':'') rest) ''[''
         then before_last (CHR '':'') rest else rest)"

definition config_protocol :: "unicode \<Rightarrow> string \<Rightarrow> string" where
  "config_protocol U raw =
     (case Index raw ''://'' of
        Some (Suc i) \<Rightarrow> ToLower U (take (Suc i) raw)
      | _ \<Rightarrow> if HasPrefix raw ''ss-'' then ''shadowsocks'' else ''unknown'')"

definition config_title :: "string \<Rightarrow> string" where
  "config_title raw =
     (let title = (if CHR ''#'' \<in> set raw then after (CHR ''#'') raw else []);
          title = (if title = [] then
              (let n = queryParam raw ''name'' in if n = [] then queryParam raw ''remark'' else n)
            else title)
      in TrimSpace title)"

definition ParseConfigMeta :: "unicode \<Rightarrow> string \<Rightarrow> config_meta" where
  "ParseConfigMeta U raw0 =
     (let raw = TrimSpace raw0
      in \<lparr>cm_Protocol = config_protocol U raw, cm_Title = config_title raw,
          cm_Host = config_host raw\<rparr>)"

section \<open>Locked blobs\<close>

record blob_envelope =
  env_V :: int
  env_BlobID :: string
  env_Protocol :: string
  env_Title :: string
  env_Host :: string
  env_Ciphertext :: string

datatype blob_error = BadKeySize | NoRandom | MarshalFailed | BadBase64 | BadJSON | InvalidEnvelope

text \<open>
  \<open>nonce\<close> is what the random source gave (\<open>None\<close>: it failed), \<open>seal key nonce text\<close> the sealed
  text and tag, \<open>marshal\<close> the JSON text of the envelope.
\<close>

definition envelope ::
  "(string \<Rightarrow> string \<Rightarrow> string \<Rightarrow> string) \<Rightarrow> string \<Rightarrow> string \<Rightarrow> string \<Rightarrow> string \<Rightarrow> config_meta \<Rightarrow>
     blob_envelope" where
  "envelope seal key nonce blobID rawConfig meta =
     \<lparr>env_V = 2, env_BlobID = blobID, env_Protocol = cm_Protocol meta, env_Title = cm_Title meta,
      env_Host = cm_Host meta, env_Ciphertext = RawURLEncode (nonce @ seal key nonce rawConfig)\<rparr>"

definition BuildLockedBlob ::
  "(string \<Rightarrow> string \<Rightarrow> string \<Rightarrow> string) \<Rightarrow> (blob_envelope \<Rightarrow> string option) \<Rightarrow> string option \<Rightarrow>
     master_key \<Rightarrow> string \<Rightarrow> string \<Rightarrow> string \<Rightarrow> config_meta \<Rightarrow> int \<Rightarrow> blob_error + string" where
  "BuildLockedBlob seal marshal nonce m clientKeyMaterial blobID rawConfig meta epoch =
     (let key = FinalKeyMaterial m clientKeyMaterial blobID epoch
      in if length key \<notin> {16, 24, 32} then Inl BadKeySize
         else (case nonce of
             None \<Rightarrow> Inl NoRandom
           | Some n \<Rightarrow>
               (case marshal (envelope seal key n blobID rawConfig meta) of
                  None \<Rightarrow> Inl MarshalFailed
                | Some raw \<Rightarrow> Inr (RawURLEncode raw))))"

definition DecodeBlob ::
  "(string \<Rightarrow> blob_envelope option) \<Rightarrow> string \<Rightarrow> blob_error + blob_envelope" where
  "DecodeBlob unmarshal locked =
     (case RawURLDecode locked of
        None \<Rightarrow> Inl BadBase64
      | Some raw \<Rightarrow>
          (case unmarshal raw of
             None \<Rightarrow> Inl BadJSON
           | Some env \<Rightarrow>
               if env_BlobID env = [] \<or> env_Ciphertext env = [] then Inl InvalidEnvelope else Inr env))"

text \<open>What a client does with a ciphertext: the first 12 bytes are the nonce.\<close>

definition open_ciphertext ::
  "(string \<Rightarrow> string \<Rightarrow> string \<Rightarrow> string option) \<Rightarrow> string \<Rightarrow> string \<Rightarrow> string option" where
  "open_ciphertext opener key c =
     (case RawURLDecode c of None \<Rightarrow> None
      | Some sealed \<Rightarrow> opener key (take 12 sealed) (drop 12 sealed))"

section \<open>Facts\<close>

lemma component_msg_inj:
  assumes "int64 e" and "int64 e'"
  shows "component_msg b e = component_msg b' e' \<longleftrightarrow> b = b' \<and> e = e'"
proof
  assume "component_msg b e = component_msg b' e'"
  then have eq: "FormatInt e @ CHR ''|'' # b = FormatInt e' @ CHR ''|'' # b'"
    by (simp add: component_msg_def)
  then have "before (CHR ''|'') (FormatInt e @ CHR ''|'' # b) =
      before (CHR ''|'') (FormatInt e' @ CHR ''|'' # b')" by simp
  then have "FormatInt e = FormatInt e'" by (simp add: before_append FormatInt_no_bar)
  with eq assms show "b = b' \<and> e = e'" by (simp add: FormatInt_inj)
qed simp

lemma RawURLEncode_Nil [simp]: "RawURLEncode s = [] \<longleftrightarrow> s = []"
  by (cases s rule: RawURLEncode.cases) auto

lemma length_FinalKey [simp]: "length (FinalKeyMaterial m ck b e) = 32"
  by (simp add: FinalKeyMaterial_def)

lemma BuildLockedBlob_decodes:
  assumes "BuildLockedBlob seal marshal (Some nonce) m ck blobID rawConfig meta epoch = Inr locked"
    and "length nonce = 12" and "blobID \<noteq> []"
    and "\<And>t. marshal (envelope seal (FinalKeyMaterial m ck blobID epoch) nonce blobID rawConfig meta) =
        Some t \<Longrightarrow>
      unmarshal t = Some (envelope seal (FinalKeyMaterial m ck blobID epoch) nonce blobID rawConfig meta)"
  shows "DecodeBlob unmarshal locked =
    Inr (envelope seal (FinalKeyMaterial m ck blobID epoch) nonce blobID rawConfig meta)"
proof -
  let ?env = "envelope seal (FinalKeyMaterial m ck blobID epoch) nonce blobID rawConfig meta"
  obtain t where t: "marshal ?env = Some t" "locked = RawURLEncode t"
    using assms(1) by (auto simp: BuildLockedBlob_def Let_def split: option.splits)
  have "nonce \<noteq> []" using assms(2) by auto
  then have "env_BlobID ?env \<noteq> []" "env_Ciphertext ?env \<noteq> []" using assms(3) by (simp_all add: envelope_def)
  then show ?thesis using assms(4) [OF t(1)] by (simp add: DecodeBlob_def t(2))
qed

lemma envelope_opens:
  assumes "length nonce = 12" and "\<And>key. opener key nonce (seal key nonce rawConfig) = Some rawConfig"
  shows "open_ciphertext opener key (env_Ciphertext (envelope seal key nonce blobID rawConfig meta)) =
    Some rawConfig"
  using assms by (simp add: open_ciphertext_def envelope_def)

section \<open>Properties\<close>

text \<open>
  The server's component separates blobs and days: for two pairs of blob and epoch it is the
  same only if the pairs are the same or HMAC-SHA-256 collides on two different messages under
  the master key.
\<close>

theorem component_separates:
  assumes "int64 e" and "int64 e'"
  shows "ComponentFor m b e = ComponentFor m b' e' \<longleftrightarrow>
    b = b' \<and> e = e' \<or>
    component_msg b e \<noteq> component_msg b' e' \<and>
      HMAC m (component_msg b e) = HMAC m (component_msg b' e')"
  using component_msg_inj [OF assms] by (auto simp: ComponentFor_def EncodeHex_inj)

text \<open>
  C32: What is locked can be opened: a blob built without error decodes to an envelope with the
  blob's id and its public metadata, and its ciphertext opens to the raw config under the key
  derived from the client's material and the server's component for that blob and epoch, provided
  the JSON text parses back and AES-GCM opens what it sealed.
\<close>

theorem locked_blob_round_trip:
  assumes "BuildLockedBlob seal marshal (Some nonce) m ck blobID rawConfig meta epoch = Inr locked"
    and "length nonce = 12" and "blobID \<noteq> []"
    and "\<And>t. marshal (envelope seal (FinalKeyMaterial m ck blobID epoch) nonce blobID rawConfig meta) =
        Some t \<Longrightarrow>
      unmarshal t = Some (envelope seal (FinalKeyMaterial m ck blobID epoch) nonce blobID rawConfig meta)"
    and "\<And>key. opener key nonce (seal key nonce rawConfig) = Some rawConfig"
  shows "\<exists>env. DecodeBlob unmarshal locked = Inr env \<and> env_BlobID env = blobID \<and>
    env_Protocol env = cm_Protocol meta \<and> env_Title env = cm_Title meta \<and> env_Host env = cm_Host meta \<and>
    open_ciphertext opener (FinalKeyMaterial m ck blobID epoch) (env_Ciphertext env) = Some rawConfig"
  using BuildLockedBlob_decodes [OF assms(1-4)] envelope_opens [of nonce opener seal rawConfig, OF assms(2,5)]
  by (intro exI) (auto simp: envelope_def)

text \<open>Witnesses: a toy cipher that prefixes the key, and a codec for one envelope.\<close>

theorem component_separates_witness:
  "ComponentFor ''master'' ''blob-1'' 20000 = ComponentFor ''master'' ''blob-1'' 20001 \<longleftrightarrow>
     HMAC ''master'' (component_msg ''blob-1'' 20000) = HMAC ''master'' (component_msg ''blob-1'' 20001)"
proof -
  have i: "int64 20000" "int64 20001" by (simp_all add: int64_def)
  from component_separates [OF i, of "''master''" "''blob-1''" "''blob-1''"] component_msg_inj [OF i]
  show ?thesis by auto
qed

definition wit_meta :: config_meta where
  "wit_meta = \<lparr>cm_Protocol = ''vless'', cm_Title = ''Home'', cm_Host = ''vpn.example.com''\<rparr>"

definition wit_seal :: "string \<Rightarrow> string \<Rightarrow> string \<Rightarrow> string" where
  "wit_seal key nonce p = key @ p"

definition wit_envelope :: blob_envelope where
  "wit_envelope = envelope wit_seal (FinalKeyMaterial ''master'' ''client'' ''blob-1'' 20000)
     ''nonce-nonce-'' ''blob-1'' ''vless://u@h:443'' wit_meta"

theorem locked_blob_round_trip_witness:
  "\<exists>env. DecodeBlob (\<lambda>t. Some wit_envelope) (RawURLEncode ''json'') = Inr env \<and>
     open_ciphertext (\<lambda>key n c. Some (drop (length key) c))
       (FinalKeyMaterial ''master'' ''client'' ''blob-1'' 20000) (env_Ciphertext env) =
     Some ''vless://u@h:443''"
proof -
  have b: "BuildLockedBlob wit_seal (\<lambda>e. Some ''json'') (Some ''nonce-nonce-'') ''master'' ''client''
      ''blob-1'' ''vless://u@h:443'' wit_meta 20000 = Inr (RawURLEncode ''json'')"
    by (simp add: BuildLockedBlob_def Let_def)
  show ?thesis
    using locked_blob_round_trip [OF b, of "\<lambda>t. Some wit_envelope" "\<lambda>key n c. Some (drop (length key) c)"]
    by (auto simp: wit_envelope_def wit_seal_def)
qed

end
