(* ===== verification/Api.thy ===== *)
theory Api
  imports Store Lock_Blob Gate_Proxy
begin

text \<open>
  \<open>server/internal/api\<close> without the owner's endpoints: install registration and authentication
  (\<open>register.go\<close>, \<open>install_auth.go\<close>, \<open>auth.go\<close>), the lock service and its endpoints (\<open>lock/service.go\<close>,
  \<open>api/lock.go\<close>) and the public feed (\<open>feed.go\<close>).  A handler is a function from the database to the reply
  and the database.  \<open>runtime\<close> says, for the i-th statement of a request, whether the database answers
  it and what the other requests have done to the database before it, so a handler's statements
  interleave with everything else the server does.
\<close>

section \<open>Requests and replies\<close>

record runtime =
  up :: "nat \<Rightarrow> bool"
  other :: "nat \<Rightarrow> db \<Rightarrow> db"

definition fair :: "runtime \<Rightarrow> bool" where
  "fair rt \<longleftrightarrow> (\<forall>i d. db_step\<^sup>*\<^sup>* d (other rt i d))"

definition quiet :: runtime where
  "quiet = \<lparr>up = (\<lambda>i. True), other = (\<lambda>i d. d)\<rparr>"

text \<open>The parsed query of the URL and its \<open>Get\<close>; the path values of the router.\<close>

record api_request =
  q_http :: request
  q_query :: "(string, string list) gmap"
  q_path :: "(string, string) gmap"

definition Query_Get :: "api_request \<Rightarrow> string \<Rightarrow> string" where
  "Query_Get r k = (case lookup (q_query r) k of Some (v # _) \<Rightarrow> v | _ \<Rightarrow> [])"

definition PathValue :: "api_request \<Rightarrow> string \<Rightarrow> string" where
  "PathValue r k = (case lookup (q_path r) k of Some v \<Rightarrow> v | None \<Rightarrow> [])"

record channel_dto =
  dto_ref :: string
  dto_title :: string
  dto_count :: int
  dto_telegram :: "string option"

record channel_stats =
  live_connections :: nat
  total_connections :: nat

text \<open>The JSON bodies that the handlers write.\<close>

datatype body =
    ErrorBody string
  | StoreErrorBody string sql_error
  | BlobErrorBody string blob_error
  | UnknownBlobBody
  | ComponentBody string int string
  | StatusBody string string
  | InstallBody string string
  | ChannelsBody "channel_dto list"
  | ConfigsBody "string list" string string
  | OwnerBody int string
  | RefBody string
  | OwnerChannelsBody "(channel_dto \<times> channel_stats option) list"
  | StatsBody channel_stats
  | BlobBody string string config_meta int
  | RevokedBody string
  | HealthBody time
  | EmptyBody

type_synonym reply = "nat \<times> body"

section \<open>Install tokens\<close>

definition HashToken :: "string \<Rightarrow> string" where
  "HashToken token = EncodeHex (Sum256 token)"

text \<open>\<open>random\<close> is what \<open>rand.Read\<close> put into the 32 bytes, if it did not fail.\<close>

definition NewInstallToken :: "string option \<Rightarrow> (string \<times> string) option" where
  "NewInstallToken random =
     (case random of None \<Rightarrow> None
      | Some b \<Rightarrow> (let token = RawURLEncode b in Some (token, HashToken token)))"

definition extractInstallToken :: "request \<Rightarrow> string" where
  "extractInstallToken r =
     (let tok = Header_Get r ''X-Install-Token''
      in if tok \<noteq> [] then tok
         else (let authz = Header_Get r ''Authorization''
           in if HasPrefix authz ''Bearer '' then TrimPrefix authz ''Bearer '' else []))"

text \<open>
  The middleware.  The select and the update of \<open>InstallIDByHash\<close> are its statements 1 and 2, the
  statements of the handler start at 3, and the refresh in the background is statement 9.
\<close>

definition installTokenAuth ::
  "runtime \<Rightarrow> time \<Rightarrow> (string \<Rightarrow> db \<Rightarrow> reply \<times> db) \<Rightarrow> request \<Rightarrow> db \<Rightarrow> reply \<times> db" where
  "installTokenAuth rt now next_handler r d =
     (let token = extractInstallToken r
      in if token = [] then ((401, ErrorBody ''missing install token''), d)
         else
           (let h = HashToken token; d0 = other rt 0 d
            in case InstallHashValid (up rt 0) h d0 of
                 Inl _ \<Rightarrow> ((500, ErrorBody ''auth lookup failed''), d0)
               | Inr False \<Rightarrow> ((401, ErrorBody ''invalid install token''), d0)
               | Inr True \<Rightarrow>
                   (let (res, d1) = InstallIDByHash (up rt 1) (up rt 2) now h (other rt 1 d0);
                        iid = (case res of Inl _ \<Rightarrow> [] | Inr i \<Rightarrow> i);
                        (rep, d2) = next_handler iid d1
                    in (rep, if iid \<noteq> [] then snd (TouchInstall (up rt 9) now iid (other rt 9 d2))
                             else d2))))"

text \<open>\<open>POST /v1/app/register\<close>: \<open>installId\<close> is what the body's JSON gave, "" if nothing.\<close>

definition register ::
  "runtime \<Rightarrow> time \<Rightarrow> string \<Rightarrow> string option \<Rightarrow> string \<Rightarrow> db \<Rightarrow> reply \<times> db" where
  "register rt now uuid random installId d =
     (let iid = TrimSpace installId; iid = (if iid = [] then uuid else iid)
      in case NewInstallToken random of
           None \<Rightarrow> ((500, ErrorBody ''could not generate token''), d)
         | Some (token, h) \<Rightarrow>
             (case CreateInstall (up rt 0) now iid h (other rt 0 d) of
                (Some _, d1) \<Rightarrow> ((500, ErrorBody ''could not register install''), d1)
              | (None, d1) \<Rightarrow> ((200, InstallBody iid token), d1)))"

section \<open>The lock service and its endpoints\<close>

datatype lock_error = ErrUnknownBlob | ErrRevoked | LockStoreError sql_error

record lock_service =
  ls_key :: master_key
  ls_leakThreshold :: int

definition NewService :: "string \<Rightarrow> int \<Rightarrow> lock_service" where
  "NewService masterKey leakThreshold =
     \<lparr>ls_key = NewMasterKey masterKey, ls_leakThreshold = leakThreshold\<rparr>"

definition Component ::
  "runtime \<Rightarrow> time \<Rightarrow> lock_service \<Rightarrow> string \<Rightarrow> string \<Rightarrow> int \<Rightarrow> db \<Rightarrow> (lock_error + string) \<times> db" where
  "Component rt now svc installID blobID epoch d =
     (let d3 = other rt 3 d
      in case BlobByID (up rt 3) blobID d3 of
           Inl ErrNoRows \<Rightarrow> (Inl ErrUnknownBlob, d3)
         | Inl err \<Rightarrow> (Inl (LockStoreError err), d3)
         | Inr b \<Rightarrow>
             if bl_status b \<noteq> ''active'' then (Inl ErrRevoked, d3)
             else (Inr (ComponentFor (ls_key svc) blobID epoch),
                   snd (LogComponentFetch (up rt 4) now installID blobID (other rt 4 d3))))"

definition Status :: "runtime \<Rightarrow> string \<Rightarrow> db \<Rightarrow> (lock_error + string) \<times> db" where
  "Status rt blobID d =
     (let d3 = other rt 3 d
      in (case BlobByID (up rt 3) blobID d3 of
            Inl ErrNoRows \<Rightarrow> Inl ErrUnknownBlob
          | Inl err \<Rightarrow> Inl (LockStoreError err)
          | Inr b \<Rightarrow> Inr (if bl_status b = ''active'' then ''ok'' else ''revoked''), d3))"

definition component ::
  "runtime \<Rightarrow> time \<Rightarrow> lock_service \<Rightarrow> api_request \<Rightarrow> string \<Rightarrow> db \<Rightarrow> reply \<times> db" where
  "component rt now svc r installID d =
     (let blobID = Query_Get r ''blobId''; epochStr = Query_Get r ''epoch''
      in if blobID = [] then ((400, ErrorBody ''blobId is required''), d)
         else if epochStr = [] then ((400, ErrorBody ''epoch is required''), d)
         else
           (case ParseInt epochStr of
              None \<Rightarrow> ((400, ErrorBody ''epoch must be an integer''), d)
            | Some epoch \<Rightarrow>
                (case Component rt now svc installID blobID epoch d of
                   (Inl ErrUnknownBlob, d1) \<Rightarrow> ((404, ErrorBody ''unknown blob''), d1)
                 | (Inl ErrRevoked, d1) \<Rightarrow> ((410, ErrorBody ''blob revoked''), d1)
                 | (Inl (LockStoreError _), d1) \<Rightarrow> ((500, ErrorBody ''internal error''), d1)
                 | (Inr cm, d1) \<Rightarrow> ((200, ComponentBody blobID epoch cm), d1))))"

definition status :: "runtime \<Rightarrow> api_request \<Rightarrow> db \<Rightarrow> reply \<times> db" where
  "status rt r d =
     (let blobID = Query_Get r ''blobId''
      in if blobID = [] then ((400, ErrorBody ''blobId is required''), d)
         else
           (case Status rt blobID d of
              (Inl ErrUnknownBlob, d1) \<Rightarrow> ((404, UnknownBlobBody), d1)
            | (Inl _, d1) \<Rightarrow> ((500, ErrorBody ''internal error''), d1)
            | (Inr s, d1) \<Rightarrow> ((200, StatusBody blobID s), d1)))"

text \<open>\<open>GET /v1/lock/component\<close> as it is wired: the handler behind the install token.\<close>

definition component_route ::
  "runtime \<Rightarrow> time \<Rightarrow> lock_service \<Rightarrow> api_request \<Rightarrow> db \<Rightarrow> reply \<times> db" where
  "component_route rt now svc r d =
     installTokenAuth rt now (component rt now svc r) (q_http r) d"

section \<open>The feed\<close>

definition deref :: "string option \<Rightarrow> string" where
  "deref s = (case s of None \<Rightarrow> [] | Some v \<Rightarrow> v)"

definition channelDTO :: "channel_row \<Rightarrow> channel_dto" where
  "channelDTO c = \<lparr>dto_ref = ch_ref c, dto_title = ch_title c, dto_count = ch_count c,
     dto_telegram = (case ch_telegram c of Some u \<Rightarrow> if u \<noteq> [] then Some u else None | None \<Rightarrow> None)\<rparr>"

definition ListChannels :: "runtime \<Rightarrow> db \<Rightarrow> reply \<times> db" where
  "ListChannels rt d =
     (let d0 = other rt 0 d
      in case ActiveChannels (up rt 0) d0 of
           Inl err \<Rightarrow> ((500, StoreErrorBody [] err), d0)
         | Inr cs \<Rightarrow> ((200, ChannelsBody (map channelDTO cs)), d0))"

definition GetConfigs :: "runtime \<Rightarrow> api_request \<Rightarrow> db \<Rightarrow> reply \<times> db" where
  "GetConfigs rt r d =
     (let d0 = other rt 0 d
      in case ChannelByRef (up rt 0) (PathValue r ''ref'') d0 of
           Inl _ \<Rightarrow> ((404, ErrorBody ''Channel not found''), d0)
         | Inr c \<Rightarrow>
             (let d1 = other rt 1 d0
              in case ActiveBlobsForChannel (up rt 1) (ch_id c) d1 of
                   Inl err \<Rightarrow> ((500, StoreErrorBody [] err), d1)
                 | Inr bs \<Rightarrow>
                     ((200, ConfigsBody (map bl_locked bs) (deref (ch_ad c)) (deref (ch_telegram c))), d1)))"

section \<open>What the component endpoint gives away\<close>

lemma other_steps: "fair rt \<Longrightarrow> db_step\<^sup>*\<^sup>* d (other rt i d)"
  by (simp add: fair_def)

lemma other_steps_trans: "fair rt \<Longrightarrow> db_step\<^sup>*\<^sup>* d d' \<Longrightarrow> db_step\<^sup>*\<^sup>* d (other rt i d')"
  by (rule rtranclp_trans [OF _ other_steps])

lemma fair_quiet [simp]: "fair quiet"
  by (simp add: fair_def quiet_def)

lemma quiet_simps [simp]: "up quiet i" "other quiet i d = d"
  by (simp_all add: quiet_def)

text \<open>The install that a token stands for, and the database the handler starts from.\<close>

definition install_lookup :: "runtime \<Rightarrow> time \<Rightarrow> request \<Rightarrow> db \<Rightarrow> (sql_error + string) \<times> db" where
  "install_lookup rt now r d =
     InstallIDByHash (up rt 1) (up rt 2) now (HashToken (extractInstallToken r))
       (other rt 1 (other rt 0 d))"

definition token_known :: "runtime \<Rightarrow> request \<Rightarrow> db \<Rightarrow> bool" where
  "token_known rt r d \<longleftrightarrow> extractInstallToken r \<noteq> [] \<and> up rt 0 \<and>
     (\<exists>i \<in> set (installs (other rt 0 d)). in_hash i = HashToken (extractInstallToken r))"

lemma installTokenAuth_pass:
  assumes "token_known rt r d"
  shows "fst (installTokenAuth rt now h r d) =
    fst (h (case fst (install_lookup rt now r d) of Inl _ \<Rightarrow> [] | Inr i \<Rightarrow> i)
           (snd (install_lookup rt now r d)))"
proof -
  have "InstallHashValid (up rt 0) (HashToken (extractInstallToken r)) (other rt 0 d) = Inr True"
    using assms by (auto simp: token_known_def InstallHashValid_def list_ex_iff)
  moreover have "extractInstallToken r \<noteq> []" using assms by (simp add: token_known_def)
  ultimately show ?thesis
    by (simp add: installTokenAuth_def install_lookup_def Let_def split_beta)
qed

lemma installTokenAuth_fail:
  assumes "\<not> token_known rt r d"
  shows "fst (fst (installTokenAuth rt now h r d)) \<in> {401, 500}"
  using assms
  by (auto simp: installTokenAuth_def token_known_def InstallHashValid_def list_ex_iff Let_def)

lemma install_lookup_steps:
  assumes "fair rt"
  shows "db_step\<^sup>*\<^sup>* d (snd (install_lookup rt now r d))"
proof -
  have "db_step\<^sup>*\<^sup>* d (other rt 1 (other rt 0 d))"
    using other_steps_trans [OF assms other_steps [OF assms]] .
  then show ?thesis unfolding install_lookup_def
    by (rule rtranclp.rtrancl_into_rtrancl) (rule db_step.install_by_hash)
qed

lemma component_200:
  "fst (component rt now svc r iid d) = (200, ComponentBody bid ep cm) \<longleftrightarrow>
     Query_Get r ''blobId'' = bid \<and> bid \<noteq> [] \<and> Query_Get r ''epoch'' \<noteq> [] \<and>
     ParseInt (Query_Get r ''epoch'') = Some ep \<and>
     (\<exists>b. BlobByID (up rt 3) bid (other rt 3 d) = Inr b \<and> bl_status b = ''active'') \<and>
     cm = ComponentFor (ls_key svc) bid ep"
  by (auto simp: component_def Component_def Let_def split: option.splits sum.splits sql_error.splits)

lemma component_codes:
  "fst (fst (component rt now svc r iid d)) = 200 \<Longrightarrow>
     \<exists>bid ep cm. fst (component rt now svc r iid d) = (200, ComponentBody bid ep cm)"
  by (auto simp: component_def Component_def Let_def split: option.splits sum.splits sql_error.splits if_splits)

text \<open>
  C16: The component of a blob is handed out exactly to a caller with the token of a registered install,
  asking for a blob that is active when it is looked up, whatever other requests do in between, and it is
  the derivation for the blob and the epoch of the query, whichever epoch that is.
\<close>

theorem component_given_iff:
  "fst (component_route rt now svc r d) = (200, ComponentBody bid ep cm) \<longleftrightarrow>
     token_known rt (q_http r) d \<and> Query_Get r ''blobId'' = bid \<and> bid \<noteq> [] \<and>
     Query_Get r ''epoch'' \<noteq> [] \<and> ParseInt (Query_Get r ''epoch'') = Some ep \<and>
     (\<exists>b. BlobByID (up rt 3) bid (other rt 3 (snd (install_lookup rt now (q_http r) d))) = Inr b \<and>
        bl_status b = ''active'') \<and>
     cm = ComponentFor (ls_key svc) bid ep"
proof (cases "token_known rt (q_http r) d")
  case True
  then show ?thesis
    by (simp add: component_route_def installTokenAuth_pass component_200)
next
  case False
  from installTokenAuth_fail [OF this, of now "component rt now svc r"] have
    "fst (component_route rt now svc r d) \<noteq> (200, ComponentBody bid ep cm)"
    by (auto simp: component_route_def)
  with False show ?thesis by simp
qed

lemma component_route_active:
  assumes "fst (fst (component_route rt now svc r d)) = 200"
  shows "\<exists>b. BlobByID (up rt 3) (Query_Get r ''blobId'')
    (other rt 3 (snd (install_lookup rt now (q_http r) d))) = Inr b \<and> bl_status b = ''active''"
proof (cases "token_known rt (q_http r) d")
  case True
  note p = installTokenAuth_pass [OF True, of now "component rt now svc r"]
  from assms p component_codes obtain bid ep cm where
    "fst (component rt now svc r (case fst (install_lookup rt now (q_http r) d) of Inl _ \<Rightarrow> [] | Inr i \<Rightarrow> i)
      (snd (install_lookup rt now (q_http r) d))) = (200, ComponentBody bid ep cm)"
    unfolding component_route_def by metis
  then show ?thesis by (auto simp: component_200)
next
  case False
  from installTokenAuth_fail [OF this, of now "component rt now svc r"] assms
  show ?thesis by (auto simp: component_route_def)
qed

text \<open>
  C17: A revoked config stays shut: after a successful \<open>RevokeBlob\<close>, at any later time and whatever else
  the server is doing, no request gets the blob's component, and the public status says "revoked"
  whenever the database answers.
\<close>

theorem revoked_blob_never_opens:
  assumes "db_step\<^sup>*\<^sup>* empty_db d0" and "RevokeBlob u bid d0 = (None, d1)" and "db_step\<^sup>*\<^sup>* d1 d"
    and "fair rt" and "Query_Get r ''blobId'' = bid" and "bid \<noteq> []"
  shows "fst (fst (component_route rt now svc r d)) \<noteq> 200 \<and>
    (up rt 3 \<longrightarrow> fst (status rt r d) = (200, StatusBody bid ''revoked''))"
proof -
  have "db_step d0 d1" using db_step.revoke_blob [of d0 u bid] assms(2) by simp
  with assms(1) have reach: "db_step\<^sup>*\<^sup>* empty_db d1" by (rule rtranclp.rtrancl_into_rtrancl)
  have final: "blob_revoked d' bid \<and> db_ok d'" if "db_step\<^sup>*\<^sup>* d d'" for d'
  proof -
    from assms(3) that have s: "db_step\<^sup>*\<^sup>* d1 d'" by (rule rtranclp_trans)
    with reach have "db_step\<^sup>*\<^sup>* empty_db d'" by (rule rtranclp_trans)
    then show ?thesis
      using db_steps_ok [OF _ db_ok_empty] db_step_blob_kept [OF s RevokeBlob_revoked [OF assms(2)]] by blast
  qed
  have inactive: "bl_status b = ''revoked''" if "db_step\<^sup>*\<^sup>* d d'" "BlobByID x bid d' = Inr b" for d' x b
    using final [OF that(1)] that(2) BlobByID_revoked by blast
  have "fst (fst (component_route rt now svc r d)) \<noteq> 200"
  proof
    assume "fst (fst (component_route rt now svc r d)) = 200"
    from component_route_active [OF this] obtain b where
      b: "BlobByID (up rt 3) bid (other rt 3 (snd (install_lookup rt now (q_http r) d))) = Inr b"
        "bl_status b = ''active''" unfolding assms(5) by blast
    have "db_step\<^sup>*\<^sup>* d (other rt 3 (snd (install_lookup rt now (q_http r) d)))"
      using assms(4) by (intro other_steps_trans install_lookup_steps)
    from inactive [OF this b(1)] b(2) show False by simp
  qed
  moreover have "fst (status rt r d) = (200, StatusBody bid ''revoked'')" if "up rt 3"
  proof -
    have s: "db_step\<^sup>*\<^sup>* d (other rt 3 d)" using assms(4) by (rule other_steps)
    from final [OF this] obtain x where "x \<in> set (blobs (other rt 3 d))" "bl_id x = bid"
      by (auto simp: blob_revoked_def)
    then obtain b where b: "BlobByID True bid (other rt 3 d) = Inr b" using BlobByID_some by blast
    from inactive [OF s b] b that assms(5,6) show ?thesis by (simp add: status_def Status_def Let_def)
  qed
  ultimately show ?thesis by blast
qed

lemma token_known_later:
  assumes "i \<in> set (installs d1)" and "in_hash i = HashToken (extractInstallToken r)"
    and "db_step\<^sup>*\<^sup>* d1 d2" and "fair rt" and "up rt 0" and "extractInstallToken r \<noteq> []"
  shows "token_known rt r d2"
  using installs_kept [OF other_steps_trans [OF assms(4,3)] assms(1)] assms(2,5,6)
  by (auto simp: token_known_def)

lemma register_200:
  assumes "register rt now uuid random installId d = ((200, InstallBody iid token), d1)"
  shows "token \<noteq> [] \<longrightarrow> (\<exists>i \<in> set (installs d1). in_id i = iid \<and> in_hash i = HashToken token)"
  using assms
  by (auto simp: register_def NewInstallToken_def CreateInstall_def Let_def split: option.splits if_splits)

text \<open>
  Registration gives a working token: a request that carries the token that \<open>register\<close> returned,
  at any later time, gets past \<open>installTokenAuth\<close> whenever the database answers the lookup: the reply is
  the handler's.
\<close>

theorem registered_token_authenticates:
  assumes "register rt now uuid random installId d = ((200, InstallBody iid token), d1)"
    and "db_step\<^sup>*\<^sup>* d1 d2" and "fair rt2" and "up rt2 0"
    and "extractInstallToken r = token" and "token \<noteq> []"
  shows "fst (installTokenAuth rt2 now2 h r d2) =
    fst (h (case fst (install_lookup rt2 now2 r d2) of Inl _ \<Rightarrow> [] | Inr i \<Rightarrow> i)
           (snd (install_lookup rt2 now2 r d2)))"
proof -
  from register_200 [OF assms(1)] assms(6) obtain i where
    "i \<in> set (installs d1)" "in_hash i = HashToken (extractInstallToken r)"
    using assms(5) by auto
  then have "token_known rt2 r d2" using token_known_later assms by blast
  then show ?thesis by (rule installTokenAuth_pass)
qed

definition wit_query :: "string \<Rightarrow> string \<Rightarrow> api_request" where
  "wit_query tok bid =
     \<lparr>q_http = \<lparr>Method = ''GET'', RemoteAddr = ''192.0.2.1:4000'', Path = ''/v1/lock/component'',
        Header = [(''X-Install-Token'', [tok])]\<rparr>,
      q_query = [(''blobId'', [bid]), (''epoch'', [''20000''])], q_path = []\<rparr>"

lemma wit_query_simps:
  "Query_Get (wit_query tok bid) ''blobId'' = bid"
  "tok \<noteq> [] \<Longrightarrow> extractInstallToken (q_http (wit_query tok bid)) = tok"
  by (simp_all add: wit_query_def Query_Get_def extractInstallToken_def Header_Get_def Header_Values_def
      CanonicalHeaderKey_def token_char_def upper_char_def lower_char_def Let_def)

theorem revoked_blob_never_opens_witness:
  "fst (fst (component_route quiet 0 (NewService ''key'' 5) (wit_query ''tok'' ''b1'')
      (snd (RevokeBlob True ''b1'' wit_db)))) \<noteq> 200"
proof -
  let ?d = "snd (RevokeBlob True ''b1'' wit_db)"
  have "RevokeBlob True ''b1'' wit_db = (None, ?d)" using wit_db_revoke by (metis prod.collapse)
  from revoked_blob_never_opens [OF wit_db_reached this rtranclp.rtrancl_refl fair_quiet wit_query_simps(1)]
  show ?thesis by simp
qed

definition wit_register :: "reply \<times> db" where
  "wit_register = register quiet 0 ''uuid'' (Some ''abc'') '''' empty_db"

lemma wit_register_ok:
  "wit_register = ((200, InstallBody ''uuid'' (RawURLEncode ''abc'')), snd wit_register)"
  by (simp add: wit_register_def register_def NewInstallToken_def CreateInstall_def empty_db_def Let_def)

theorem registered_token_authenticates_witness:
  "fst (installTokenAuth quiet 0 (\<lambda>iid d. ((204, EmptyBody), d))
     (q_http (wit_query (RawURLEncode ''abc'') ''b1'')) (snd wit_register)) = (204, EmptyBody)"
proof -
  have "register quiet 0 ''uuid'' (Some ''abc'') '''' empty_db =
      ((200, InstallBody ''uuid'' (RawURLEncode ''abc'')), snd wit_register)"
    using wit_register_ok by (simp add: wit_register_def)
  from registered_token_authenticates [OF this rtranclp.rtrancl_refl fair_quiet, where h = "\<lambda>iid d. ((204, EmptyBody), d)"]
  show ?thesis by (simp add: wit_query_simps)
qed

end
