(* ===== verification/Api_Owner.thy ===== *)
theory Api_Owner
  imports Api Complex_Main
begin

text \<open>
  \<open>server/internal/api/owner.go\<close>, \<open>server.go\<close>, \<open>auth/jwt.go\<close> and \<open>config/config.go\<close>: the owner's
  endpoints, the wiring of the server with its middleware, and the configuration.  bcrypt, the JWT
  library, the rate limiter and the JSON decoder are parameters; a decoded body is \<open>None\<close> when the
  decoder reports an error.  Random identifiers (\<open>newUUID\<close>) and nonces are arguments.
\<close>

section \<open>Configuration\<close>

record config =
  ListenAddr :: string
  DBPath :: string
  PublicBaseURL :: string
  LOCK_SERVER_KEY :: string
  ClientKeyMaterial :: string
  JWTSecret :: string
  OwnerAuthEnabled :: bool
  SeedEmail :: string
  SeedPassword :: string
  RPS :: real
  Burst :: int

type_synonym environ = "string \<Rightarrow> string option"

definition os_Getenv :: "environ \<Rightarrow> string \<Rightarrow> string" where
  "os_Getenv envr k = deref (envr k)"

definition getenv :: "environ \<Rightarrow> string \<Rightarrow> string \<Rightarrow> string" where
  "getenv envr k fallback =
     (case envr k of Some v \<Rightarrow> if v \<noteq> [] then v else fallback | None \<Rightarrow> fallback)"

text \<open>A panic names the missing variable.\<close>

definition mustEnv :: "environ \<Rightarrow> string \<Rightarrow> string + string" where
  "mustEnv envr k = (let v = os_Getenv envr k in if v = [] then Inl k else Inr v)"

definition getenvBool :: "environ \<Rightarrow> string \<Rightarrow> bool \<Rightarrow> bool" where
  "getenvBool envr k fallback =
     (let v = os_Getenv envr k
      in if v = ''1'' \<or> v = ''true'' \<or> v = ''yes'' then True
         else if v = ''0'' \<or> v = ''false'' \<or> v = ''no'' then False
         else fallback)"

definition getenvInt :: "environ \<Rightarrow> string \<Rightarrow> int \<Rightarrow> int" where
  "getenvInt envr k fallback =
     (case ParseInt (os_Getenv envr k) of Some v \<Rightarrow> v | None \<Rightarrow> fallback)"

definition getenvFloat :: "(string \<Rightarrow> real option) \<Rightarrow> environ \<Rightarrow> string \<Rightarrow> real \<Rightarrow> real" where
  "getenvFloat parseFloat envr k fallback =
     (case parseFloat (os_Getenv envr k) of Some v \<Rightarrow> v | None \<Rightarrow> fallback)"

definition Load :: "(string \<Rightarrow> real option) \<Rightarrow> environ \<Rightarrow> string + config" where
  "Load parseFloat envr =
     (case mustEnv envr ''LOCK_SERVER_KEY'' of
        Inl k \<Rightarrow> Inl k
      | Inr lockKey \<Rightarrow>
          (case mustEnv envr ''JWT_SECRET'' of
             Inl k \<Rightarrow> Inl k
           | Inr jwtSecret \<Rightarrow>
               Inr \<lparr>ListenAddr = getenv envr ''LISTEN_ADDR'' '':8080'',
                    DBPath = getenv envr ''DB_PATH'' ''oversea.db'',
                    PublicBaseURL = getenv envr ''PUBLIC_BASE_URL'' ''http://localhost:8080'',
                    LOCK_SERVER_KEY = lockKey,
                    ClientKeyMaterial = getenv envr ''CLIENT_KEY_MATERIAL'' [],
                    JWTSecret = jwtSecret,
                    OwnerAuthEnabled = getenvBool envr ''OWNER_AUTH_ENABLED'' True,
                    SeedEmail = os_Getenv envr ''ADMIN_SEED_EMAIL'',
                    SeedPassword = os_Getenv envr ''ADMIN_SEED_PASSWORD'',
                    RPS = getenvFloat parseFloat envr ''RATE_RPS'' 20,
                    Burst = getenvInt envr ''RATE_BURST'' 40\<rparr>))"

section \<open>Owner tokens\<close>

record owner_claims =
  oc_OwnerID :: int
  oc_IssuedAt :: time
  oc_ExpiresAt :: time

text \<open>
  The JWT library: signing with HS256; whether a token's header names an HMAC method (\<open>None\<close> if it
  does not parse); verifying signature and expiry.  NumericDate has a resolution of one second.
\<close>

record jwt_lib =
  jw_sign :: "string \<Rightarrow> owner_claims \<Rightarrow> string option"
  jw_hmac :: "string \<Rightarrow> bool option"
  jw_verify :: "string \<Rightarrow> time \<Rightarrow> string \<Rightarrow> owner_claims option"

definition IssueOwnerToken :: "jwt_lib \<Rightarrow> time \<Rightarrow> string \<Rightarrow> int \<Rightarrow> duration \<Rightarrow> string option" where
  "IssueOwnerToken jwt now secret ownerID ttl =
     jw_sign jwt secret \<lparr>oc_OwnerID = ownerID, oc_IssuedAt = now, oc_ExpiresAt = now + ttl\<rparr>"

definition ParseOwnerToken :: "jwt_lib \<Rightarrow> time \<Rightarrow> string \<Rightarrow> string \<Rightarrow> int option" where
  "ParseOwnerToken jwt now secret tokenStr =
     (case jw_hmac jwt tokenStr of
        Some True \<Rightarrow> map_option oc_OwnerID (jw_verify jwt secret now tokenStr)
      | _ \<Rightarrow> None)"

text \<open>The context value, 0 where the middleware put none.\<close>

definition ownerIDFromCtx :: "int option \<Rightarrow> int" where
  "ownerIDFromCtx ctx = (case ctx of Some i \<Rightarrow> i | None \<Rightarrow> 0)"

definition ownerAuth ::
  "config \<Rightarrow> jwt_lib \<Rightarrow> time \<Rightarrow> (int option \<Rightarrow> db \<Rightarrow> reply \<times> db) \<Rightarrow> request \<Rightarrow> db \<Rightarrow> reply \<times> db" where
  "ownerAuth cfg jwt now next_handler r d =
     (if \<not> OwnerAuthEnabled cfg then next_handler None d
      else
        (let authz = Header_Get r ''Authorization''; token = TrimPrefix authz ''Bearer ''
         in if token = authz \<or> token = [] then ((401, ErrorBody ''missing bearer token''), d)
            else (case ParseOwnerToken jwt now (JWTSecret cfg) token of
                None \<Rightarrow> ((401, ErrorBody ''invalid or expired token''), d)
              | Some oid \<Rightarrow> next_handler (Some oid) d)))"

section \<open>Registration and login\<close>

record bcrypt_lib =
  bc_generate :: "string \<Rightarrow> string option"
  bc_compare :: "string \<Rightarrow> string \<Rightarrow> bool"

record email_pass =
  ep_Email :: string
  ep_Password :: string

definition normal_email :: "unicode \<Rightarrow> string \<Rightarrow> string" where
  "normal_email U email = ToLower U (TrimSpace email)"

definition token_ttl :: duration where
  "token_ttl = 30 * 24 * hour"

definition owner_register ::
  "unicode \<Rightarrow> runtime \<Rightarrow> time \<Rightarrow> config \<Rightarrow> jwt_lib \<Rightarrow> bcrypt_lib \<Rightarrow> email_pass option \<Rightarrow> db \<Rightarrow> reply \<times> db"
where
  "owner_register U rt now cfg jwt bc req d =
     (case req of
        None \<Rightarrow> ((400, ErrorBody ''bad request''), d)
      | Some q \<Rightarrow>
          (let email = normal_email U (ep_Email q)
           in if email = [] \<or> length (ep_Password q) < 6
              then ((400, ErrorBody ''email required and password >= 6 chars''), d)
              else
                (case bc_generate bc (ep_Password q) of
                   None \<Rightarrow> ((500, ErrorBody ''hash failed''), d)
                 | Some h \<Rightarrow>
                     (case CreateOwner (up rt 0) email h (other rt 0 d) of
                        (Inl _, d1) \<Rightarrow> ((409, ErrorBody ''email already registered''), d1)
                      | (Inr oid, d1) \<Rightarrow>
                          (case IssueOwnerToken jwt now (JWTSecret cfg) oid token_ttl of
                             None \<Rightarrow> ((500, ErrorBody ''token issue failed''), d1)
                           | Some tok \<Rightarrow> ((200, OwnerBody oid tok), d1))))))"

definition owner_login ::
  "unicode \<Rightarrow> runtime \<Rightarrow> time \<Rightarrow> config \<Rightarrow> jwt_lib \<Rightarrow> bcrypt_lib \<Rightarrow> email_pass option \<Rightarrow> db \<Rightarrow> reply \<times> db"
where
  "owner_login U rt now cfg jwt bc req d =
     (case req of
        None \<Rightarrow> ((400, ErrorBody ''bad request''), d)
      | Some q \<Rightarrow>
          (let d0 = other rt 0 d
           in case OwnerByEmail (up rt 0) (normal_email U (ep_Email q)) d0 of
                Inl ErrNoRows \<Rightarrow> ((401, ErrorBody ''invalid credentials''), d0)
              | Inl _ \<Rightarrow> ((500, ErrorBody ''lookup failed''), d0)
              | Inr o1 \<Rightarrow>
                  if \<not> bc_compare bc (ow_hash o1) (ep_Password q)
                  then ((401, ErrorBody ''invalid credentials''), d0)
                  else
                    (case IssueOwnerToken jwt now (JWTSecret cfg) (ow_id o1) token_ttl of
                       None \<Rightarrow> ((500, ErrorBody ''token issue failed''), d0)
                     | Some tok \<Rightarrow> ((200, OwnerBody (ow_id o1) tok), d0))))"

text \<open>\<open>seedOwner\<close> at startup stores the address as it was given.\<close>

definition seedOwner ::
  "runtime \<Rightarrow> bcrypt_lib \<Rightarrow> string \<Rightarrow> string \<Rightarrow> db \<Rightarrow> db" where
  "seedOwner rt bc email password d =
     (let d0 = other rt 0 d
      in case OwnerByEmail (up rt 0) email d0 of
           Inr _ \<Rightarrow> d0
         | Inl _ \<Rightarrow>
             (case bc_generate bc password of
                None \<Rightarrow> d0
              | Some h \<Rightarrow> snd (CreateOwner (up rt 1) email h (other rt 1 d0))))"

section \<open>Channels\<close>

record channel_req =
  cr_Title :: string
  cr_AdText :: string
  cr_TelegramURL :: string

definition ref_char :: "char \<Rightarrow> char option" where
  "ref_char c =
     (let n = (of_char c :: nat)
      in if (97 \<le> n \<and> n \<le> 122) \<or> (48 \<le> n \<and> n \<le> 57) \<or> c = CHR ''-'' then Some c
         else if c = CHR '' '' then Some (CHR ''-'')
         else None)"

text \<open>\<open>strings.Map\<close> drops every rune outside ASCII, so it works byte by byte.\<close>

definition generateRef :: "unicode \<Rightarrow> string \<Rightarrow> string \<Rightarrow> string" where
  "generateRef U uuid title =
     (let base = ToLower U (List.map_filter ref_char (TrimSpace title));
          base = (if base = [] then ''channel'' else base)
      in base @ ''-'' @ take 6 uuid)"

definition optional :: "string \<Rightarrow> string option" where
  "optional s = (if s \<noteq> [] then Some s else None)"

definition createChannel ::
  "unicode \<Rightarrow> runtime \<Rightarrow> time \<Rightarrow> string \<Rightarrow> channel_req option \<Rightarrow> int option \<Rightarrow> db \<Rightarrow> reply \<times> db" where
  "createChannel U rt now uuid req ctx d =
     (let oid = ownerIDFromCtx ctx
      in case req of
           None \<Rightarrow> ((400, ErrorBody ''bad request''), d)
         | Some q \<Rightarrow>
             if TrimSpace (cr_Title q) = [] then ((400, ErrorBody ''title required''), d)
             else
               (let ref = generateRef U uuid (cr_Title q)
                in case CreateChannel (up rt 0) now oid ref (cr_Title q) (optional (cr_AdText q))
                          (optional (cr_TelegramURL q)) (other rt 0 d) of
                     (Inl err, d1) \<Rightarrow> ((500, StoreErrorBody ''create failed: '' err), d1)
                   | (Inr _, d1) \<Rightarrow> ((200, RefBody ref), d1)))"

definition channelStats :: "runtime \<Rightarrow> nat \<Rightarrow> int \<Rightarrow> db \<Rightarrow> (sql_error + channel_stats) \<times> db" where
  "channelStats rt i cid d =
     (let d0 = other rt i d
      in case LiveInstallCount (up rt i) cid d0 of
           Inl err \<Rightarrow> (Inl err, d0)
         | Inr live \<Rightarrow>
             (let d1 = other rt (i + 1) d0
              in case TotalConnections (up rt (i + 1)) cid d1 of
                   Inl err \<Rightarrow> (Inl err, d1)
                 | Inr n \<Rightarrow>
                     (Inr \<lparr>live_connections = live, total_connections = n\<rparr>, d1)))"

fun list_items ::
  "runtime \<Rightarrow> nat \<Rightarrow> channel_row list \<Rightarrow> db \<Rightarrow> (channel_dto \<times> channel_stats option) list \<times> db" where
  "list_items rt i [] d = ([], d)"
| "list_items rt i (c # cs) d =
     (case channelStats rt i (ch_id c) d of
        (res, d1) \<Rightarrow>
          (case list_items rt (i + 2) cs d1 of
             (items, d2) \<Rightarrow>
               ((channelDTO c, case res of Inl _ \<Rightarrow> None | Inr st \<Rightarrow> Some st) # items, d2)))"

definition listChannels :: "runtime \<Rightarrow> int option \<Rightarrow> db \<Rightarrow> reply \<times> db" where
  "listChannels rt ctx d =
     (let d0 = other rt 0 d
      in case ChannelsByOwner (up rt 0) (ownerIDFromCtx ctx) d0 of
           Inl _ \<Rightarrow> ((500, ErrorBody ''query failed''), d0)
         | Inr cs \<Rightarrow>
             (case list_items rt 1 cs d0 of (items, d1) \<Rightarrow> ((200, OwnerChannelsBody items), d1)))"

definition getChannelStats :: "runtime \<Rightarrow> api_request \<Rightarrow> int option \<Rightarrow> db \<Rightarrow> reply \<times> db" where
  "getChannelStats rt r ctx d =
     (let d0 = other rt 0 d
      in case ChannelOwnedBy (up rt 0) (ownerIDFromCtx ctx) (PathValue r ''ref'') d0 of
           Inl _ \<Rightarrow> ((404, ErrorBody ''channel not found''), d0)
         | Inr ch \<Rightarrow>
             (case channelStats rt 1 (ch_id ch) d0 of
                (Inl _, d1) \<Rightarrow> ((500, ErrorBody ''stats failed''), d1)
              | (Inr st, d1) \<Rightarrow> ((200, StatsBody st), d1)))"

section \<open>Blobs\<close>

record blob_req =
  br_Config :: string
  br_Title :: string

record crypto =
  cy_seal :: "string \<Rightarrow> string \<Rightarrow> string \<Rightarrow> string"
  cy_marshal :: "blob_envelope \<Rightarrow> string option"

definition blob_meta :: "unicode \<Rightarrow> blob_req \<Rightarrow> config_meta" where
  "blob_meta U q =
     (let meta = ParseConfigMeta U (br_Config q)
      in if br_Title q \<noteq> [] then meta\<lparr>cm_Title := br_Title q\<rparr> else meta)"

definition new_blob :: "string \<Rightarrow> int \<Rightarrow> int \<Rightarrow> config_meta \<Rightarrow> string \<Rightarrow> blob_row" where
  "new_blob blobID cid epoch meta locked =
     \<lparr>bl_id = blobID, bl_channel = cid, bl_epoch = epoch, bl_protocol = cm_Protocol meta,
      bl_title = cm_Title meta, bl_host = Some (cm_Host meta), bl_locked = locked,
      bl_status = ''active'', bl_created = 0\<rparr>"

definition createBlob ::
  "unicode \<Rightarrow> runtime \<Rightarrow> time \<Rightarrow> config \<Rightarrow> crypto \<Rightarrow> string \<Rightarrow> string option \<Rightarrow> api_request \<Rightarrow>
     blob_req option \<Rightarrow> int option \<Rightarrow> db \<Rightarrow> reply \<times> db" where
  "createBlob U rt now cfg cy uuid nonce r req ctx d =
     (let d0 = other rt 0 d
      in case ChannelOwnedBy (up rt 0) (ownerIDFromCtx ctx) (PathValue r ''ref'') d0 of
           Inl _ \<Rightarrow> ((404, ErrorBody ''channel not found''), d0)
         | Inr ch \<Rightarrow>
             (case req of
                None \<Rightarrow> ((400, ErrorBody ''bad request''), d0)
              | Some q \<Rightarrow>
                  if TrimSpace (br_Config q) = [] then ((400, ErrorBody ''config required''), d0)
                  else
                    (let meta = blob_meta U q; epoch = EpochFor now;
                         mk = NewMasterKey (LOCK_SERVER_KEY cfg)
                     in case BuildLockedBlob (cy_seal cy) (cy_marshal cy) nonce mk
                               (ClientKeyMaterial cfg) uuid (br_Config q) meta epoch of
                          Inl err \<Rightarrow> ((500, BlobErrorBody ''lock failed: '' err), d0)
                        | Inr locked \<Rightarrow>
                            (case CreateBlob (up rt 1) now (new_blob uuid (ch_id ch) epoch meta locked)
                                    (other rt 1 d0) of
                               (Some err, d1) \<Rightarrow> ((500, StoreErrorBody ''persist failed: '' err), d1)
                             | (None, d1) \<Rightarrow> ((200, BlobBody uuid locked meta epoch), d1)))))"

definition revokeBlob :: "runtime \<Rightarrow> api_request \<Rightarrow> int option \<Rightarrow> db \<Rightarrow> reply \<times> db" where
  "revokeBlob rt r ctx d =
     (let oid = ownerIDFromCtx ctx; blobID = PathValue r ''blobId''; d0 = other rt 0 d
      in case BlobByID (up rt 0) blobID d0 of
           Inl _ \<Rightarrow> ((404, ErrorBody ''blob not found''), d0)
         | Inr b \<Rightarrow>
             (let d1 = other rt 1 d0
              in case ChannelByID (up rt 1) (bl_channel b) d1 of
                   Inl _ \<Rightarrow> ((403, ErrorBody ''not your blob''), d1)
                 | Inr ch \<Rightarrow>
                     if ch_owner ch \<noteq> oid then ((403, ErrorBody ''not your blob''), d1)
                     else
                       (case RevokeBlob (up rt 2) blobID (other rt 2 d1) of
                          (Some _, d2) \<Rightarrow> ((500, ErrorBody ''revoke failed''), d2)
                        | (None, d2) \<Rightarrow> ((200, RevokedBody blobID), d2))))"

definition revokeChannel :: "runtime \<Rightarrow> api_request \<Rightarrow> int option \<Rightarrow> db \<Rightarrow> reply \<times> db" where
  "revokeChannel rt r ctx d =
     (let ref = PathValue r ''ref''; d0 = other rt 0 d
      in case ChannelOwnedBy (up rt 0) (ownerIDFromCtx ctx) ref d0 of
           Inl _ \<Rightarrow> ((404, ErrorBody ''channel not found''), d0)
         | Inr ch \<Rightarrow>
             (case RevokeChannel (up rt 1) (ch_id ch) (other rt 1 d0) of
                (Some _, d1) \<Rightarrow> ((500, ErrorBody ''revoke failed''), d1)
              | (None, d1) \<Rightarrow> ((200, RevokedBody ref), d1)))"

section \<open>The server\<close>

text \<open>The address that the rate limiter counts under: the loop from the end of \<open>clientIP\<close>.\<close>

fun strip_port :: "string \<Rightarrow> string option" where
  "strip_port [] = None"
| "strip_port (c # s) =
     (if c = CHR '':'' then Some (rev s)
      else if c = CHR ''.'' \<or> c = CHR '']'' then None
      else strip_port s)"

definition clientIP :: "request \<Rightarrow> string" where
  "clientIP r =
     (let fwd = Header_Get r ''X-Forwarded-For'';
          addr = (if fwd \<noteq> [] then fwd else RemoteAddr r)
      in case strip_port (rev addr) of Some a \<Rightarrow> a | None \<Rightarrow> addr)"

text \<open>The token bucket of \<open>golang.org/x/time/rate\<close>.\<close>

record 'l rate_lib =
  rl_new :: "real \<Rightarrow> int \<Rightarrow> 'l"
  rl_allow :: "'l \<Rightarrow> time \<Rightarrow> bool \<times> 'l"

record 'l server =
  sv_cfg :: config
  sv_limits :: "(string, 'l) gmap"
  sv_db :: db

definition New :: "config \<Rightarrow> db \<Rightarrow> 'l server" where
  "New cfg d = \<lparr>sv_cfg = cfg, sv_limits = [], sv_db = d\<rparr>"

definition limiterFor :: "'l rate_lib \<Rightarrow> string \<Rightarrow> 'l server \<Rightarrow> 'l \<times> 'l server" where
  "limiterFor rl ip s =
     (case lookup (sv_limits s) ip of
        Some l \<Rightarrow> (l, s)
      | None \<Rightarrow>
          (let l = rl_new rl (RPS (sv_cfg s)) (Burst (sv_cfg s))
           in (l, s\<lparr>sv_limits := put ip l (sv_limits s)\<rparr>)))"

definition withRateLimit ::
  "'l rate_lib \<Rightarrow> time \<Rightarrow> (request \<Rightarrow> 'l server \<Rightarrow> reply \<times> 'l server) \<Rightarrow> request \<Rightarrow> 'l server \<Rightarrow>
     reply \<times> 'l server" where
  "withRateLimit rl now next_handler r s0 =
     (let ip = clientIP r;
          (l, s) = limiterFor rl ip s0;
          (ok, l') = rl_allow rl l now;
          s' = s\<lparr>sv_limits := put ip l' (sv_limits s)\<rparr>
      in if \<not> ok then ((429, ErrorBody ''rate limit exceeded''), s') else next_handler r s')"

definition withCORS ::
  "(request \<Rightarrow> 's \<Rightarrow> reply \<times> 's) \<Rightarrow> request \<Rightarrow> 's \<Rightarrow> reply \<times> 's" where
  "withCORS next_handler r s =
     (if Method r = ''OPTIONS'' then ((204, EmptyBody), s) else next_handler r s)"

definition handleHealth :: "runtime \<Rightarrow> time \<Rightarrow> db \<Rightarrow> reply \<times> db" where
  "handleHealth rt now d =
     (if up rt 0 then ((200, HealthBody now), d) else ((503, ErrorBody ''degraded''), d))"

text \<open>
  The routes of \<open>Handler\<close>, one constructor for a pattern, with the decoded bodies and the random
  values that the handlers draw.  Matching a URL against the patterns is \<open>net/http\<close>'s.
\<close>

datatype endpoint =
    Health | Channels | Configs | LockComponent | LockStatus
  | AppRegister string "string option" string
  | OwnerRegister "email_pass option" | OwnerLogin "email_pass option"
  | OwnerNewChannel string "channel_req option" | OwnerChannels | OwnerStats
  | OwnerNewBlob string "string option" "blob_req option" | OwnerRevokeBlob | OwnerRevokeChannel

record libs =
  lib_unicode :: unicode
  lib_jwt :: jwt_lib
  lib_bcrypt :: bcrypt_lib
  lib_crypto :: crypto

definition dispatch ::
  "libs \<Rightarrow> runtime \<Rightarrow> time \<Rightarrow> config \<Rightarrow> endpoint \<Rightarrow> api_request \<Rightarrow> db \<Rightarrow> reply \<times> db" where
  "dispatch lib rt now cfg ep r d =
     (let svc = NewService (LOCK_SERVER_KEY cfg) 5;
          auth = (\<lambda>h. ownerAuth cfg (lib_jwt lib) now h (q_http r) d);
          U = lib_unicode lib
      in case ep of
           Health \<Rightarrow> handleHealth rt now d
         | Channels \<Rightarrow> ListChannels rt d
         | Configs \<Rightarrow> GetConfigs rt r d
         | LockComponent \<Rightarrow> component_route rt now svc r d
         | LockStatus \<Rightarrow> status rt r d
         | AppRegister uuid random installId \<Rightarrow> register rt now uuid random installId d
         | OwnerRegister q \<Rightarrow> owner_register U rt now cfg (lib_jwt lib) (lib_bcrypt lib) q d
         | OwnerLogin q \<Rightarrow> owner_login U rt now cfg (lib_jwt lib) (lib_bcrypt lib) q d
         | OwnerNewChannel uuid q \<Rightarrow> auth (createChannel U rt now uuid q)
         | OwnerChannels \<Rightarrow> auth (listChannels rt)
         | OwnerStats \<Rightarrow> auth (getChannelStats rt r)
         | OwnerNewBlob uuid nonce q \<Rightarrow> auth (createBlob U rt now cfg (lib_crypto lib) uuid nonce r q)
         | OwnerRevokeBlob \<Rightarrow> auth (revokeBlob rt r)
         | OwnerRevokeChannel \<Rightarrow> auth (revokeChannel rt r))"

definition on_db :: "(db \<Rightarrow> reply \<times> db) \<Rightarrow> 'l server \<Rightarrow> reply \<times> 'l server" where
  "on_db f s = (case f (sv_db s) of (rep, d) \<Rightarrow> (rep, s\<lparr>sv_db := d\<rparr>))"

text \<open>\<open>Handler\<close>: the routes behind CORS behind the rate limit.\<close>

definition Handler ::
  "libs \<Rightarrow> 'l rate_lib \<Rightarrow> runtime \<Rightarrow> time \<Rightarrow> endpoint \<Rightarrow> api_request \<Rightarrow> 'l server \<Rightarrow> reply \<times> 'l server"
where
  "Handler lib rl rt now ep q s0 =
     withRateLimit rl now
       (withCORS (\<lambda>r s. on_db (dispatch lib rt now (sv_cfg s) ep (q\<lparr>q_http := r\<rparr>)) s)) (q_http q) s0"

definition start_server :: "runtime \<Rightarrow> bcrypt_lib \<Rightarrow> config \<Rightarrow> db \<Rightarrow> 'l server" where
  "start_server rt bc cfg d =
     New cfg (if SeedEmail cfg \<noteq> [] \<and> SeedPassword cfg \<noteq> []
              then seedOwner rt bc (SeedEmail cfg) (SeedPassword cfg) d else d)"

section \<open>Owners act on what is theirs\<close>

definition owns_blob :: "db \<Rightarrow> int \<Rightarrow> string \<Rightarrow> bool" where
  "owns_blob d oid bid \<longleftrightarrow> (\<exists>b \<in> set (blobs d). \<exists>c \<in> set (channels d).
     bl_id b = bid \<and> ch_id c = bl_channel b \<and> ch_owner c = oid)"

lemma ChannelByID_in:
  "ChannelByID up1 cid d = Inr c \<Longrightarrow> c \<in> set (channels d) \<and> ch_id c = cid"
  by (auto simp: ChannelByID_def query_row_def filter_eq_Cons_iff split: if_splits list.splits)

lemma ChannelOwnedBy_in:
  "ChannelOwnedBy up1 oid ref d = Inr c \<Longrightarrow> c \<in> set (channels d) \<and> ch_ref c = ref \<and> ch_owner c = oid"
  by (auto simp: ChannelOwnedBy_def query_row_def filter_eq_Cons_iff split: if_splits list.splits)

lemma owns_blob_later:
  assumes "fair rt" and "b \<in> set (blobs d0)" and "c \<in> set (channels (other rt i d0))"
    and "ch_id c = bl_channel b"
  shows "owns_blob (other rt j (other rt i d0)) (ch_owner c) (bl_id b)"
proof -
  have s: "db_step\<^sup>*\<^sup>* d0 (other rt j (other rt i d0))"
    using other_steps_trans [OF assms(1) other_steps [OF assms(1)]] .
  obtain b' where "b' \<in> set (blobs (other rt j (other rt i d0)))" "bl_id b' = bl_id b" "bl_channel b' = bl_channel b"
    using blobs_kept [OF s assms(2)] by blast
  moreover obtain c' where "c' \<in> set (channels (other rt j (other rt i d0)))" "ch_id c' = ch_id c"
      "ch_owner c' = ch_owner c"
    using channels_kept [OF other_steps [OF assms(1)] assms(3)] by blast
  ultimately show ?thesis unfolding owns_blob_def using assms(4) by metis
qed

lemma RevokeBlob_None:
  "RevokeBlob u bid d = (None, d') \<Longrightarrow> RevokeBlob True bid d = (None, d')"
  by (auto simp: RevokeBlob_def BlobByID_def query_row_def split: sum.splits if_splits)

lemma RevokeBlob_Some: "RevokeBlob u bid d = (Some err, d') \<Longrightarrow> d' = d"
  by (auto simp: RevokeBlob_def split: sum.splits)

text \<open>
  C29: An owner revokes only blobs of the owner's own channels, whatever runs between the statements of
  the handler: on the reply 200 the blob belongs to a channel of the owner in the very state on which
  \<open>RevokeBlob\<close> works, and on every other reply the handler itself changed nothing.
\<close>

theorem owner_revokes_only_own:
  fixes d :: db and rt :: runtime
  defines "d0 \<equiv> other rt 0 d"
  defines "d1 \<equiv> other rt 1 d0"
  defines "d2 \<equiv> other rt 2 d1"
  assumes "fair rt" and "revokeBlob rt r ctx d = ((code, out), d')"
  shows "if code = 200
    then owns_blob d2 (ownerIDFromCtx ctx) (PathValue r ''blobId'') \<and>
      RevokeBlob True (PathValue r ''blobId'') d2 = (None, d')
    else d' \<in> {d0, d1, d2}"
proof -
  let ?bid = "PathValue r ''blobId''"
  show ?thesis
  proof (cases "BlobByID (up rt 0) ?bid d0")
    case (Inl e)
    then show ?thesis using assms(5) by (auto simp: revokeBlob_def d0_def Let_def)
  next
    case (Inr b)
    note b = Inr
    show ?thesis
    proof (cases "ChannelByID (up rt 1) (bl_channel b) d1")
      case (Inl e)
      then show ?thesis using assms(5) b by (auto simp: revokeBlob_def d0_def d1_def Let_def)
    next
      case (Inr c)
      show ?thesis
      proof (cases "ch_owner c = ownerIDFromCtx ctx")
        case False
        then show ?thesis using assms(5) b Inr by (auto simp: revokeBlob_def d0_def d1_def Let_def)
      next
        case True
        have "owns_blob d2 (ch_owner c) ?bid"
          using owns_blob_later [OF assms(4)] BlobByID_in [OF b] ChannelByID_in [OF Inr]
          unfolding d1_def d2_def by metis
        moreover have "revokeBlob rt r ctx d =
            (case RevokeBlob (up rt 2) ?bid d2 of
               (Some _, d2) \<Rightarrow> ((500, ErrorBody ''revoke failed''), d2)
             | (None, d2) \<Rightarrow> ((200, RevokedBody ?bid), d2))"
          using b Inr True by (simp add: revokeBlob_def d0_def d1_def d2_def Let_def)
        ultimately show ?thesis
          using assms(5) True RevokeBlob_None RevokeBlob_Some
          by (cases "RevokeBlob (up rt 2) ?bid d2") (auto split: option.splits)
      qed
    qed
  qed
qed

definition wit_owner_request :: api_request where
  "wit_owner_request =
     \<lparr>q_http = \<lparr>Method = ''DELETE'', RemoteAddr = ''192.0.2.1:4000'', Path = ''/v1/owner/blobs/b1'', Header = []\<rparr>,
      q_query = [], q_path = [(''blobId'', ''b1''), (''ref'', ''r'')]\<rparr>"

lemma wit_owner_simps [simp]:
  "PathValue wit_owner_request ''blobId'' = ''b1''" "PathValue wit_owner_request ''ref'' = ''r''"
  by (simp_all add: wit_owner_request_def PathValue_def)

lemma wit_revoke_reply:
  "fst (revokeBlob quiet wit_owner_request (Some 1) wit_db) = (200, RevokedBody ''b1'')"
  using wit_db_revoke
  by (cases "RevokeBlob True ''b1'' wit_db")
    (simp add: revokeBlob_def ownerIDFromCtx_def wit_db_facts wit_blob_def ChannelByID_def query_row_def Let_def)

theorem owner_revokes_only_own_witness:
  "owns_blob wit_db 1 ''b1''"
proof -
  obtain d' where "revokeBlob quiet wit_owner_request (Some 1) wit_db = ((200, RevokedBody ''b1''), d')"
    using wit_revoke_reply by (metis prod.collapse)
  from owner_revokes_only_own [OF fair_quiet this] show ?thesis by (simp add: ownerIDFromCtx_def)
qed

section \<open>From the owner's config to the client\<close>

text \<open>The key that the app derives from its own material and the component it fetched.\<close>

definition client_key :: "string \<Rightarrow> string \<Rightarrow> int \<Rightarrow> string \<Rightarrow> string" where
  "client_key ck bid ep cm =
     HMAC ck (''oversea-lock|v2|'' @ FormatInt ep @ ''|'' @ bid @ ''|'' @ cm)"

lemma FinalKeyMaterial_client: "FinalKeyMaterial m ck bid ep = client_key ck bid ep (ComponentFor m bid ep)"
  by (simp add: FinalKeyMaterial_def client_key_def)

lemma createBlob_200:
  assumes "createBlob U rt now cfg cy uuid nonce r (Some q) ctx d = ((200, BlobBody bid locked meta ep), d1)"
  shows "\<exists>ch. ChannelOwnedBy (up rt 0) (ownerIDFromCtx ctx) (PathValue r ''ref'') (other rt 0 d) = Inr ch \<and>
    bid = uuid \<and> meta = blob_meta U q \<and> ep = EpochFor now \<and>
    BuildLockedBlob (cy_seal cy) (cy_marshal cy) nonce (LOCK_SERVER_KEY cfg) (ClientKeyMaterial cfg) uuid
      (br_Config q) meta ep = Inr locked \<and>
    CreateBlob (up rt 1) now (new_blob uuid (ch_id ch) ep meta locked) (other rt 1 (other rt 0 d)) = (None, d1)"
  using assms
  by (auto simp: createBlob_def NewMasterKey_def Let_def split: sum.splits if_splits prod.splits option.splits)

lemma CreateBlob_ok:
  assumes "CreateBlob u now b d = (None, d1)"
  shows "u \<and> blobs d1 = blobs d @ [b\<lparr>bl_status := ''active'', bl_created := sql_now now\<rparr>]"
  using assms by (auto simp: CreateBlob_def split: if_splits)

lemma ChannelByRef_unique:
  assumes "db_ok d" and "c \<in> set (channels d)"
  shows "ChannelByRef True (ch_ref c) d = Inr c"
proof -
  have "inj_on ch_ref (set (channels d))" using assms(1) by (simp add: db_ok_def distinct_map)
  then have all: "x = c" if "x \<in> set (filter (\<lambda>x. ch_ref x = ch_ref c) (channels d))" for x
    using assms(2) that by (auto dest: inj_onD)
  have "c \<in> set (filter (\<lambda>x. ch_ref x = ch_ref c) (channels d))" using assms(2) by simp
  then obtain x xs where f: "filter (\<lambda>x. ch_ref x = ch_ref c) (channels d) = x # xs"
    by (cases "filter (\<lambda>x. ch_ref x = ch_ref c) (channels d)") auto
  moreover have "x = c" by (rule all) (simp only: f list.set_intros)
  ultimately show ?thesis by (simp add: ChannelByRef_def query_row_def)
qed

lemma BlobByID_unique:
  assumes "db_ok d" and "b \<in> set (blobs d)"
  shows "BlobByID True (bl_id b) d = Inr b"
proof -
  obtain b' where "BlobByID True (bl_id b) d = Inr b'" using BlobByID_some [OF assms(2)] by blast
  with BlobByID_in unique_blob [OF assms(1) assms(2)] show ?thesis by metis
qed

text \<open>
  C18: A config that an owner publishes reaches the app and opens there: after the reply 200 of
  \<open>createBlob\<close> the feed of the channel lists the locked text, a registered install that asks for the
  blob and its epoch gets a component, and with the key it derives from this component the app opens
  the locked text to the config that was posted, provided the JSON of the envelope parses back and
  AES-GCM opens what it sealed.
\<close>

theorem published_config_opens:
  fixes U :: unicode and now :: time and cfg :: config and cy :: crypto and q :: blob_req and bid :: string and ep :: int
    and meta :: config_meta and nonce :: string
  defines "key \<equiv> FinalKeyMaterial (LOCK_SERVER_KEY cfg) (ClientKeyMaterial cfg) bid ep"
  defines "env \<equiv> envelope (cy_seal cy) key nonce bid (br_Config q) meta"
  assumes "db_ok d" and "bid \<noteq> []" and "length nonce = 12"
    and "createBlob U quiet now cfg cy uuid (Some nonce) r (Some q) ctx d = ((200, BlobBody bid locked meta ep), d1)"
    and "\<And>t. cy_marshal cy env = Some t \<Longrightarrow> unmarshal t = Some env"
    and "\<And>k. opener k nonce (cy_seal cy k nonce (br_Config q)) = Some (br_Config q)"
    and "PathValue feed ''ref'' = PathValue r ''ref''"
    and "token_known quiet (q_http ask) d1" and "Query_Get ask ''blobId'' = bid"
    and "Query_Get ask ''epoch'' \<noteq> []" and "ParseInt (Query_Get ask ''epoch'') = Some ep"
  shows "\<exists>cfgs ad tg cm.
    fst (GetConfigs quiet feed d1) = (200, ConfigsBody cfgs ad tg) \<and> locked \<in> set cfgs \<and>
    fst (component_route quiet later (NewService (LOCK_SERVER_KEY cfg) 5) ask d1) =
      (200, ComponentBody bid ep cm) \<and>
    DecodeBlob unmarshal locked = Inr env \<and>
    open_ciphertext opener (client_key (ClientKeyMaterial cfg) bid ep cm) (env_Ciphertext env) =
      Some (br_Config q)"
proof -
  from createBlob_200 [OF assms(6)] obtain ch where
    ch: "ChannelOwnedBy True (ownerIDFromCtx ctx) (PathValue r ''ref'') d = Inr ch" and
    build: "BuildLockedBlob (cy_seal cy) (cy_marshal cy) (Some nonce) (LOCK_SERVER_KEY cfg)
      (ClientKeyMaterial cfg) bid (br_Config q) meta ep = Inr locked" and
    create: "CreateBlob True now (new_blob bid (ch_id ch) ep meta locked) d = (None, d1)"
    by auto
  let ?b = "(new_blob bid (ch_id ch) ep meta locked)\<lparr>bl_status := ''active'', bl_created := sql_now now\<rparr>"
  have step: "db_step d d1" using db_step.create_blob [of d True now] create by (metis snd_conv)
  with assms(3) have ok1: "db_ok d1" using db_step_ok by blast
  have b: "?b \<in> set (blobs d1)" using CreateBlob_ok [OF create] by simp
  obtain c where c: "c \<in> set (channels d1)" "ch_id c = ch_id ch" "ch_ref c = PathValue r ''ref''"
    using channel_kept [OF step] ChannelOwnedBy_in [OF ch] by metis
  have "ChannelByRef True (PathValue feed ''ref'') d1 = Inr c"
    using ChannelByRef_unique [OF ok1 c(1)] c(3) assms(9) by simp
  then have feed: "fst (GetConfigs quiet feed d1) = (200, ConfigsBody (map bl_locked (sort_key bl_created
      (filter (\<lambda>x. bl_channel x = ch_id ch \<and> bl_status x = ''active'') (blobs d1))))
      (deref (ch_ad c)) (deref (ch_telegram c)))"
    by (simp add: GetConfigs_def ActiveBlobsForChannel_def query_def c(2) Let_def)
  have "bl_locked ?b = locked" by (simp add: new_blob_def)
  moreover have "bl_channel ?b = ch_id ch" "bl_status ?b = ''active''" by (simp_all add: new_blob_def)
  ultimately have "locked \<in> bl_locked ` set (filter (\<lambda>x. bl_channel x = ch_id ch \<and> bl_status x = ''active'') (blobs d1))"
    using b by force
  moreover have "fst (component_route quiet later (NewService (LOCK_SERVER_KEY cfg) 5) ask d1) =
      (200, ComponentBody bid ep (ComponentFor (LOCK_SERVER_KEY cfg) bid ep))"
  proof -
    have ok2: "db_ok (snd (install_lookup quiet later (q_http ask) d1))"
      using db_steps_ok [OF install_lookup_steps [OF fair_quiet] ok1] .
    have "blobs (snd (install_lookup quiet later (q_http ask) d1)) = blobs d1"
      by (simp add: install_lookup_def InstallIDByHash_def split: sum.splits)
    with b BlobByID_unique [OF ok2, of ?b] have
      "BlobByID True bid (snd (install_lookup quiet later (q_http ask) d1)) = Inr ?b"
      by (simp add: new_blob_def)
    then show ?thesis
      using assms(4,10-13)
      by (simp add: component_route_def installTokenAuth_pass component_200 NewService_def NewMasterKey_def)
  qed
  moreover have "DecodeBlob unmarshal locked = Inr env"
    using BuildLockedBlob_decodes [OF build assms(5,4)] assms(7) unfolding env_def key_def by blast
  moreover have "open_ciphertext opener (client_key (ClientKeyMaterial cfg) bid ep
      (ComponentFor (LOCK_SERVER_KEY cfg) bid ep)) (env_Ciphertext env) = Some (br_Config q)"
    using envelope_opens [of nonce opener "cy_seal cy" "br_Config q", OF assms(5,8)]
    unfolding env_def key_def FinalKeyMaterial_client by blast
  ultimately show ?thesis using feed by (intro exI conjI) (assumption | simp)+
qed

definition wit_config :: config where
  "wit_config =
     \<lparr>ListenAddr = '':8080'', DBPath = ''oversea.db'', PublicBaseURL = '''', LOCK_SERVER_KEY = ''server'',
      ClientKeyMaterial = ''client'', JWTSecret = ''jwt'', OwnerAuthEnabled = True, SeedEmail = ''Admin@example.com'',
      SeedPassword = ''secret'', RPS = 20, Burst = 40\<rparr>"

definition wit_crypto :: crypto where
  "wit_crypto = \<lparr>cy_seal = wit_seal, cy_marshal = (\<lambda>e. Some ''json'')\<rparr>"

definition wit_post :: blob_req where
  "wit_post = \<lparr>br_Config = ''vless://u@h:443'', br_Title = ''Home''\<rparr>"

definition wit_registered :: db where
  "wit_registered = snd (CreateInstall True 0 ''i1'' (HashToken ''tok'') wit_db)"

definition wit_day :: time where
  "wit_day = FromUnix (20000 * 86400)"

definition wit_published :: "reply \<times> db" where
  "wit_published = createBlob wit_unicode quiet wit_day wit_config wit_crypto ''b2'' (Some ''nonce-nonce-'')
     wit_owner_request (Some wit_post) (Some 1) wit_registered"

lemma wit_registered_facts:
  "db_ok wit_registered" "channels wit_registered = channels wit_db" "blobs wit_registered = blobs wit_db"
  "installs wit_registered = [\<lparr>in_id = ''i1'', in_hash = HashToken ''tok'', in_seen = 0\<rparr>]"
proof -
  have i: "installs wit_db = []"
    by (simp add: wit_db_def empty_db_def CreateBlob_def CreateChannel_def)
  show "db_ok wit_registered" unfolding wit_registered_def
    by (rule db_step_ok [OF db_step.create_install wit_db_ok])
  show "channels wit_registered = channels wit_db" "blobs wit_registered = blobs wit_db"
    "installs wit_registered = [\<lparr>in_id = ''i1'', in_hash = HashToken ''tok'', in_seen = 0\<rparr>]"
    by (simp_all add: wit_registered_def CreateInstall_def i)
qed

lemma wit_published_reply:
  "wit_published = ((200, BlobBody ''b2'' (RawURLEncode ''json'') (blob_meta wit_unicode wit_post) 20000),
     snd wit_published)"
proof -
  have "EpochFor wit_day = 20000" by (simp add: EpochFor_def wit_day_def go_div_def)
  moreover have "TrimSpace (br_Config wit_post) \<noteq> []" unfolding wit_post_def by code_simp
  ultimately show ?thesis
    by (simp add: wit_published_def createBlob_def ownerIDFromCtx_def wit_registered_facts ChannelOwnedBy_def
        query_row_def wit_db_facts BuildLockedBlob_def wit_crypto_def CreateBlob_def new_blob_def wit_blob_def
        NewMasterKey_def wit_config_def Let_def)
qed

theorem published_config_opens_witness:
  "\<exists>cfgs ad tg cm.
     fst (GetConfigs quiet wit_owner_request (snd wit_published)) = (200, ConfigsBody cfgs ad tg) \<and>
     RawURLEncode ''json'' \<in> set cfgs \<and>
     fst (component_route quiet 0 (NewService ''server'' 5) (wit_query ''tok'' ''b2'') (snd wit_published)) =
       (200, ComponentBody ''b2'' 20000 cm)"
proof -
  let ?env = "envelope wit_seal (FinalKeyMaterial ''server'' ''client'' ''b2'' 20000) ''nonce-nonce-'' ''b2''
    (br_Config wit_post) (blob_meta wit_unicode wit_post)"
  have inst: "installs (snd wit_published) = installs wit_registered"
    by (simp add: wit_published_def createBlob_def CreateBlob_def Let_def split: sum.splits)
  have tok: "token_known quiet (q_http (wit_query ''tok'' ''b2'')) (snd wit_published)"
    by (simp add: token_known_def wit_query_simps inst wit_registered_facts)
  have ep: "Query_Get (wit_query ''tok'' ''b2'') ''epoch'' = ''20000''"
    by (simp add: wit_query_def Query_Get_def)
  have p: "ParseInt ''20000'' = Some 20000" by code_simp
  have eq: "createBlob wit_unicode quiet wit_day wit_config wit_crypto ''b2'' (Some ''nonce-nonce-'')
      wit_owner_request (Some wit_post) (Some 1) wit_registered =
      ((200, BlobBody ''b2'' (RawURLEncode ''json'') (blob_meta wit_unicode wit_post) 20000), snd wit_published)"
    using wit_published_reply unfolding wit_published_def .
  note pub = published_config_opens [where opener = "\<lambda>k n c. Some (drop (length k) c)" and
      unmarshal = "\<lambda>t. Some ?env", OF wit_registered_facts(1) _ _ eq _ _ _ tok]
  have "length ''nonce-nonce-'' = 12" "''b2'' \<noteq> []" by simp_all
  then show ?thesis
    using pub [of wit_owner_request] by (simp add: wit_query_simps ep p wit_crypto_def wit_config_def wit_seal_def) blast
qed

section \<open>Accounts\<close>

text \<open>What the server relies on of the two libraries.\<close>

definition jwt_ok :: "jwt_lib \<Rightarrow> bool" where
  "jwt_ok jwt \<longleftrightarrow> (\<forall>s c. \<exists>t. jw_sign jwt s c = Some t \<and> t \<noteq> [] \<and> jw_hmac jwt t = Some True \<and>
     (\<forall>now. now < oc_ExpiresAt c \<longrightarrow> jw_verify jwt s now t = Some c))"

definition bcrypt_ok :: "bcrypt_lib \<Rightarrow> bool" where
  "bcrypt_ok bc \<longleftrightarrow> (\<forall>p h. bc_generate bc p = Some h \<longrightarrow> bc_compare bc h p)"

lemma owner_register_200:
  assumes "owner_register U rt now cfg jwt bc (Some q) d = ((200, OwnerBody oid tok), d1)"
  shows "\<exists>h. bc_generate bc (ep_Password q) = Some h \<and>
    \<lparr>ow_id = oid, ow_email = normal_email U (ep_Email q), ow_hash = h\<rparr> \<in> set (owners d1) \<and>
    d1 = snd (CreateOwner (up rt 0) (normal_email U (ep_Email q)) h (other rt 0 d))"
  using assms
  by (auto simp: owner_register_def CreateOwner_def Let_def split: option.splits if_splits)

lemma ownerAuth_bearer:
  assumes "Header_Get r ''Authorization'' = ''Bearer '' @ tok" and "tok \<noteq> []"
    and "ParseOwnerToken jwt now (JWTSecret cfg) tok = Some oid" and "OwnerAuthEnabled cfg"
  shows "ownerAuth cfg jwt now h r d = h (Some oid) d"
  using assms by (simp add: ownerAuth_def TrimPrefix_def HasPrefix_def Let_def)


text \<open>
  The first owner, seeded from the environment, is stored under the address as it was written, while
  \<open>login\<close> looks for its normal form: an address with a capital letter (or blanks around it) is an
  account that nobody can log in to.
\<close>

theorem seeded_owner_cannot_log_in:
  assumes "normal_email U email \<noteq> email" and "\<forall>o1 \<in> set (owners d). ow_email o1 \<noteq> normal_email U email"
  shows "fst (owner_login U quiet now cfg jwt bc (Some \<lparr>ep_Email = email, ep_Password = password\<rparr>)
    (seedOwner quiet bc email password d)) = (401, ErrorBody ''invalid credentials'')"
proof -
  have "\<forall>o1 \<in> set (owners (seedOwner quiet bc email password d)). ow_email o1 \<noteq> normal_email U email"
    using assms by (auto simp: seedOwner_def CreateOwner_def Let_def split: sum.splits option.splits)
  then have "OwnerByEmail True (normal_email U email) (seedOwner quiet bc email password d) = Inl ErrNoRows"
    by (simp add: OwnerByEmail_def query_row_def filter_empty_conv)
  then show ?thesis by (simp add: owner_login_def)
qed

text \<open>The owner id that a request carries: \<open>None\<close> without a valid bearer token.\<close>

definition caller :: "jwt_lib \<Rightarrow> time \<Rightarrow> config \<Rightarrow> request \<Rightarrow> int option" where
  "caller jwt now cfg r =
     (let authz = Header_Get r ''Authorization''
      in if HasPrefix authz ''Bearer '' \<and> authz \<noteq> ''Bearer ''
         then ParseOwnerToken jwt now (JWTSecret cfg) (TrimPrefix authz ''Bearer '') else None)"

definition owner_endpoint :: "endpoint \<Rightarrow> bool" where
  "owner_endpoint ep \<longleftrightarrow> (case ep of OwnerNewChannel _ _ \<Rightarrow> True | OwnerChannels \<Rightarrow> True | OwnerStats \<Rightarrow> True
     | OwnerNewBlob _ _ _ \<Rightarrow> True | OwnerRevokeBlob \<Rightarrow> True | OwnerRevokeChannel \<Rightarrow> True | _ \<Rightarrow> False)"

lemma TrimPrefix_cases:
  "TrimPrefix s p = s \<and> (\<not> HasPrefix s p \<or> p = []) \<or> s = p @ TrimPrefix s p \<and> HasPrefix s p"
proof (cases "HasPrefix s p")
  case True
  then have "s = p @ drop (length p) s" by (metis HasPrefix_def append_take_drop_id)
  with True show ?thesis by (simp add: TrimPrefix_def)
qed (simp add: TrimPrefix_def)

lemma ownerAuth_none:
  assumes "caller jwt now cfg r = None" and "OwnerAuthEnabled cfg"
  shows "fst (fst (ownerAuth cfg jwt now h r d)) = 401 \<and> snd (ownerAuth cfg jwt now h r d) = d"
  using assms TrimPrefix_cases [of "Header_Get r ''Authorization''" "''Bearer ''"]
  by (auto simp: ownerAuth_def caller_def Let_def split: option.splits if_splits)


text \<open>Witnesses: a token that spells its claims in unary, and a hash that is the password.\<close>

definition wit_enc :: "int \<Rightarrow> string" where
  "wit_enc i = (if i < 0 then CHR ''-'' else CHR ''+'') # replicate (nat \<bar>i\<bar>) (CHR ''1'')"

definition wit_dec :: "string \<Rightarrow> int" where
  "wit_dec s = (case s of [] \<Rightarrow> 0 | c # t \<Rightarrow> if c = CHR ''-'' then - int (length t) else int (length t))"

definition wit_jwt :: jwt_lib where
  "wit_jwt =
     \<lparr>jw_sign = (\<lambda>s c. Some (wit_enc (oc_OwnerID c) @ ''.'' @ wit_enc (oc_IssuedAt c) @ ''.'' @ wit_enc (oc_ExpiresAt c))),
      jw_hmac = (\<lambda>t. Some True),
      jw_verify = (\<lambda>s now t. case Split t (CHR ''.'') of
         [a, b, c] \<Rightarrow> if now < wit_dec c
           then Some \<lparr>oc_OwnerID = wit_dec a, oc_IssuedAt = wit_dec b, oc_ExpiresAt = wit_dec c\<rparr> else None
       | _ \<Rightarrow> None)\<rparr>"

definition wit_bcrypt :: bcrypt_lib where
  "wit_bcrypt = \<lparr>bc_generate = (\<lambda>p. if length p \<le> 72 then Some p else None), bc_compare = (=)\<rparr>"

lemma wit_dec_enc [simp]: "wit_dec (wit_enc i) = i"
  by (simp add: wit_dec_def wit_enc_def)

lemma wit_enc_no_dot: "CHR ''.'' \<notin> set (wit_enc i)"
  by (simp add: wit_enc_def)

lemma wit_jwt_ok: "jwt_ok wit_jwt"
proof -
  have "Split (wit_enc a @ CHR ''.'' # wit_enc b @ CHR ''.'' # wit_enc c) (CHR ''.'') = [wit_enc a, wit_enc b, wit_enc c]"
    for a b c by (simp add: Split_three wit_enc_no_dot)
  then show ?thesis unfolding jwt_ok_def wit_jwt_def by simp
qed

lemma wit_bcrypt_ok: "bcrypt_ok wit_bcrypt"
  by (simp add: bcrypt_ok_def wit_bcrypt_def)

definition wit_account :: "string \<Rightarrow> email_pass" where
  "wit_account email = \<lparr>ep_Email = email, ep_Password = ''secret''\<rparr>"

lemma wit_emails:
  "normal_email wit_unicode ''Me@example.com'' = ''me@example.com''"
  "normal_email wit_unicode '' me@example.com'' = ''me@example.com''"
  "normal_email wit_unicode ''Admin@example.com'' = ''admin@example.com''"
  by code_simp+

definition wit_owner :: "reply \<times> db" where
  "wit_owner = owner_register wit_unicode quiet 0 wit_config wit_jwt wit_bcrypt
     (Some (wit_account ''Me@example.com'')) empty_db"

lemma wit_owner_reply: "\<exists>tok. wit_owner = ((200, OwnerBody 1 tok), snd wit_owner)"
  by (simp add: wit_owner_def owner_register_def wit_account_def wit_emails wit_bcrypt_def CreateOwner_def
      empty_db_def IssueOwnerToken_def wit_jwt_def Let_def)


theorem seeded_owner_cannot_log_in_witness:
  "fst (owner_login wit_unicode quiet 0 wit_config wit_jwt wit_bcrypt
     (Some \<lparr>ep_Email = ''Admin@example.com'', ep_Password = ''secret''\<rparr>)
     (seedOwner quiet wit_bcrypt ''Admin@example.com'' ''secret'' empty_db)) = (401, ErrorBody ''invalid credentials'')"
  by (rule seeded_owner_cannot_log_in) (simp_all add: wit_emails empty_db_def)


end
