(* ===== verification/Os_Files.thy ===== *)
theory Os_Files
  imports Gate_Reload
begin

text \<open>
  Files as the server tool and the gate use them: paths (\<open>path/filepath\<close>), reading, the atomic
  replacement of \<open>server/internal/oversee/oversee.go\<close> (\<open>writeAtomic\<close>, \<open>readLines\<close>), ownership
  (\<open>server/internal/oversee/perms_unix.go\<close>) and \<open>Stats.WriteOnce\<close>'s variant.  A write is the
  list of file systems that a concurrent reader may see, with the operation that fails (if any)
  as an argument.  The locale \<open>atomic_replace\<close> is what the edits of the lists rely on.
\<close>

section \<open>Paths\<close>

fun clean_elems :: "bool \<Rightarrow> string list \<Rightarrow> string list \<Rightarrow> string list" where
  "clean_elems rooted out [] = out"
| "clean_elems rooted out (e # es) =
     (if e = [] \<or> e = ''.'' then clean_elems rooted out es
      else if e = ''..'' then
        (if out \<noteq> [] \<and> last out \<noteq> ''..'' then clean_elems rooted (butlast out) es
         else if rooted then clean_elems rooted out es
         else clean_elems rooted (out @ [e]) es)
      else clean_elems rooted (out @ [e]) es)"

text \<open>\<open>filepath.Clean\<close> on a system whose separator is the slash.\<close>

definition Clean :: "string \<Rightarrow> string" where
  "Clean s =
     (let rooted = HasPrefix s ''/'';
          out = clean_elems rooted [] (Split s (CHR ''/''))
      in if rooted then CHR ''/'' # Join out ''/''
         else if out = [] then ''.'' else Join out ''/'')"

definition JoinPath :: "string \<Rightarrow> string \<Rightarrow> string" where
  "JoinPath dir name =
     (let es = filter (\<lambda>e. e \<noteq> []) [dir, name] in if es = [] then [] else Clean (Join es ''/''))"

definition DirOf :: "string \<Rightarrow> string" where
  "DirOf s = Clean (if CHR ''/'' \<in> set s then before_last (CHR ''/'') s @ ''/'' else [])"

section \<open>The file system\<close>

text \<open>A permission mode from its three octal digits.\<close>

definition perm :: "nat \<Rightarrow> nat \<Rightarrow> nat \<Rightarrow> nat" where
  "perm u g w = 64 * u + 8 * g + w"

record file_info =
  f_data :: string
  f_mode :: nat
  f_uid :: int
  f_gid :: int
  f_mtime :: time

record dir_info =
  d_mode :: nat
  d_uid :: int
  d_gid :: int

record fsys =
  fs_files :: "(string, file_info) gmap"
  fs_dirs :: "(string, dir_info) gmap"

text \<open>
  What the environment decides for one command: which reads fail, whether creating the directory
  fails, which step of the atomic write fails (and after how many bytes), the unused name that
  \<open>os.CreateTemp\<close> picks, the identity of the process and the time.
\<close>

datatype fault = NoFault | CreateFault | WriteFault nat | ChmodFault | CloseFault | RenameFault

record env =
  e_denied :: "string \<Rightarrow> bool"
  e_mkdir_fails :: bool
  e_fault :: fault
  e_tmp :: string
  e_euid :: int
  e_egid :: int
  e_now :: time

datatype read_error = NoSuchFile | CannotRead

definition ReadFile :: "env \<Rightarrow> string \<Rightarrow> fsys \<Rightarrow> read_error + string" where
  "ReadFile e path s =
     (if e_denied e path then Inl CannotRead
      else (case lookup (fs_files s) path of
              None \<Rightarrow> Inl NoSuchFile
            | Some f \<Rightarrow> Inr (f_data f)))"

definition statFile :: "env \<Rightarrow> string \<Rightarrow> fsys \<Rightarrow> read_error + time" where
  "statFile e path s =
     (if e_denied e path then Inl CannotRead
      else (case lookup (fs_files s) path of
              None \<Rightarrow> Inl NoSuchFile
            | Some f \<Rightarrow> Inr (f_mtime f)))"

definition file_text :: "fsys \<Rightarrow> string \<Rightarrow> string option" where
  "file_text s path = map_option f_data (lookup (fs_files s) path)"

text \<open>What the gate's watcher observes of a path.\<close>

definition observe :: "env \<Rightarrow> string \<Rightarrow> fsys \<Rightarrow> disk" where
  "observe e path s =
     (if e_denied e path then Denied
      else (case lookup (fs_files s) path of
              None \<Rightarrow> Missing
            | Some f \<Rightarrow> OnDisk (f_data f) (Some (f_mtime f))))"

definition readLines :: "env \<Rightarrow> string \<Rightarrow> fsys \<Rightarrow> read_error + string list" where
  "readLines e path s =
     (case ReadFile e path s of
        Inl NoSuchFile \<Rightarrow> Inr []
      | Inl err \<Rightarrow> Inl err
      | Inr b \<Rightarrow>
          (let t = TrimRightByte b newline
           in if t = [] then Inr [] else Inr (Split t newline)))"

text \<open>\<open>os.MkdirAll\<close> for the tool's directory: \<open>None\<close> when it fails.\<close>

definition MkdirAll :: "env \<Rightarrow> string \<Rightarrow> nat \<Rightarrow> fsys \<Rightarrow> fsys option" where
  "MkdirAll e dir mode s =
     (if e_mkdir_fails e then None
      else (case lookup (fs_dirs s) dir of
              Some _ \<Rightarrow> Some s
            | None \<Rightarrow> Some (s\<lparr>fs_dirs :=
                put dir \<lparr>d_mode = mode, d_uid = e_euid e, d_gid = e_egid e\<rparr> (fs_dirs s)\<rparr>)))"

section \<open>Atomic replacement\<close>

definition set_file :: "string \<Rightarrow> file_info \<Rightarrow> fsys \<Rightarrow> fsys" where
  "set_file path f s = s\<lparr>fs_files := put path f (fs_files s)\<rparr>"

definition RemoveFile :: "string \<Rightarrow> fsys \<Rightarrow> fsys" where
  "RemoveFile path s = s\<lparr>fs_files := AList.delete path (fs_files s)\<rparr>"

definition temp_file :: "env \<Rightarrow> string \<Rightarrow> file_info" where
  "temp_file e data =
     \<lparr>f_data = data, f_mode = perm 6 0 0, f_uid = e_euid e, f_gid = e_egid e, f_mtime = e_now e\<rparr>"

text \<open>\<open>inheritOwner\<close>: as root, take over the owner and group of the directory.\<close>

definition inheritOwner :: "env \<Rightarrow> string \<Rightarrow> fsys \<Rightarrow> file_info \<Rightarrow> file_info" where
  "inheritOwner e dir s f =
     (if e_euid e \<noteq> 0 then f
      else (case lookup (fs_dirs s) dir of
              None \<Rightarrow> f
            | Some d \<Rightarrow> f\<lparr>f_uid := d_uid d, f_gid := d_gid d\<rparr>))"

definition RenameFile :: "string \<Rightarrow> string \<Rightarrow> fsys \<Rightarrow> fsys" where
  "RenameFile old new s =
     (case lookup (fs_files s) old of
        None \<Rightarrow> s
      | Some f \<Rightarrow> set_file new f (RemoveFile old s))"

text \<open>
  The successive states of \<open>writeAtomic\<close>, the last one being after the deferred \<open>os.Remove\<close>, and
  whether it returned nil.
\<close>

definition writeAtomic_states ::
  "env \<Rightarrow> string \<Rightarrow> string \<Rightarrow> nat \<Rightarrow> fsys \<Rightarrow> fsys list \<times> bool" where
  "writeAtomic_states e path data mode s =
     (let tmp = e_tmp e; f0 = temp_file e []; f1 = temp_file e data; f2 = f1\<lparr>f_mode := mode\<rparr>;
          f3 = inheritOwner e (DirOf path) s f2;
          s0 = set_file tmp f0 s; s1 = set_file tmp f1 s; s2 = set_file tmp f2 s;
          s3 = set_file tmp f3 s; s4 = RenameFile tmp path s3
      in case e_fault e of
           CreateFault \<Rightarrow> ([s], False)
         | WriteFault k \<Rightarrow>
             (let sp = set_file tmp (temp_file e (take k data)) s
              in ([s0, sp, RemoveFile tmp sp], False))
         | ChmodFault \<Rightarrow> ([s0, s1, RemoveFile tmp s1], False)
         | CloseFault \<Rightarrow> ([s0, s1, s2, s3, RemoveFile tmp s3], False)
         | RenameFault \<Rightarrow> ([s0, s1, s2, s3, RemoveFile tmp s3], False)
         | NoFault \<Rightarrow> ([s0, s1, s2, s3, s4, RemoveFile tmp s4], True))"

definition writeAtomic :: "env \<Rightarrow> string \<Rightarrow> string \<Rightarrow> nat \<Rightarrow> fsys \<Rightarrow> bool \<times> fsys" where
  "writeAtomic e path data mode s =
     (case writeAtomic_states e path data mode s of (ss, ok) \<Rightarrow> (ok, last ss))"

text \<open>
  \<open>Stats.WriteOnce\<close> (\<open>server/internal/gate/stats.go\<close>): the same, without inheriting the owner, and
  ignoring errors of \<open>Chmod\<close> and \<open>Close\<close>.  \<open>marshalled\<close> is the JSON text, \<open>None\<close> an error of
  \<open>json.Marshal\<close>.
\<close>

definition WriteOnce_states ::
  "env \<Rightarrow> string \<Rightarrow> string option \<Rightarrow> fsys \<Rightarrow> fsys list \<times> bool" where
  "WriteOnce_states e path marshalled s =
     (case marshalled of
        None \<Rightarrow> ([s], False)
      | Some data \<Rightarrow>
          (let tmp = e_tmp e; f1 = temp_file e data;
               f2 = (if e_fault e = ChmodFault then f1 else f1\<lparr>f_mode := perm 6 4 4\<rparr>);
               s0 = set_file tmp (temp_file e []) s; s1 = set_file tmp f1 s; s2 = set_file tmp f2 s;
               s4 = RenameFile tmp path s2
           in case e_fault e of
                CreateFault \<Rightarrow> ([s], False)
              | WriteFault k \<Rightarrow>
                  (let sp = set_file tmp (temp_file e (take k data)) s
                   in ([s0, sp, RemoveFile tmp sp], False))
              | RenameFault \<Rightarrow> ([s0, s1, s2, RemoveFile tmp s2], False)
              | _ \<Rightarrow> ([s0, s1, s2, s4, RemoveFile tmp s4], True)))"

definition WriteOnce :: "env \<Rightarrow> string \<Rightarrow> string option \<Rightarrow> fsys \<Rightarrow> bool \<times> fsys" where
  "WriteOnce e path marshalled s =
     (case WriteOnce_states e path marshalled s of (ss, ok) \<Rightarrow> (ok, last ss))"

text \<open>
  \<open>FixPerms\<close>: \<open>gid\<close> is the group "oversee" (\<open>None\<close>: no such group).  \<open>chown_fails\<close> and
  \<open>chmod_fails\<close> say which paths the two calls fail on; the regular files of \<open>dir\<close> are those of
  the file system.  \<open>Inl\<close> is the error of \<open>os.ReadDir\<close>.
\<close>

definition fix_file :: "(string \<Rightarrow> bool) \<Rightarrow> (string \<Rightarrow> bool) \<Rightarrow> int \<Rightarrow> string \<times> file_info \<Rightarrow> string \<times> file_info" where
  "fix_file chown_fails chmod_fails g pf =
     (case pf of (p, f) \<Rightarrow>
        if chown_fails p then (p, f)
        else if chmod_fails p then (p, f\<lparr>f_uid := 0, f_gid := g\<rparr>)
        else (p, f\<lparr>f_uid := 0, f_gid := g, f_mode := perm 6 6 0\<rparr>))"

definition fix_dir :: "(string \<Rightarrow> bool) \<Rightarrow> (string \<Rightarrow> bool) \<Rightarrow> int \<Rightarrow> string \<Rightarrow> dir_info \<Rightarrow> dir_info" where
  "fix_dir chown_fails chmod_fails g dir d0 =
     (let d1 = (if chown_fails dir then d0 else d0\<lparr>d_uid := 0, d_gid := g\<rparr>)
      in if chmod_fails dir then d1 else d1\<lparr>d_mode := perm 7 7 0\<rparr>)"

definition FixPerms ::
  "env \<Rightarrow> int option \<Rightarrow> (string \<Rightarrow> bool) \<Rightarrow> (string \<Rightarrow> bool) \<Rightarrow> string \<Rightarrow> fsys \<Rightarrow>
     (read_error + nat) \<times> fsys" where
  "FixPerms e gid chown_fails chmod_fails dir s0 =
     (if e_euid e \<noteq> 0 then (Inr 0, s0)
      else (case gid of
          None \<Rightarrow> (Inr 0, s0)
        | Some g \<Rightarrow>
            if g < 0 then (Inr 0, s0)
            else
              (let s = (case lookup (fs_dirs s0) dir of
                     None \<Rightarrow> s0
                   | Some d \<Rightarrow> s0\<lparr>fs_dirs :=
                       put dir (fix_dir chown_fails chmod_fails g dir d) (fs_dirs s0)\<rparr>)
               in if e_denied e dir then (Inl CannotRead, s)
                  else
                    (Inr (length (filter (\<lambda>pf. DirOf (fst pf) = dir \<and> \<not> chown_fails (fst pf) \<and>
                         \<not> chmod_fails (fst pf)) (fs_files s))),
                     s\<lparr>fs_files := map (\<lambda>pf. if DirOf (fst pf) = dir
                       then fix_file chown_fails chmod_fails g pf else pf) (fs_files s)\<rparr>))))"

section \<open>Facts on files\<close>

lemma file_text_set [simp]:
  "file_text (set_file p f s) q = (if q = p then Some (f_data f) else file_text s q)"
  by (simp add: file_text_def set_file_def)

lemma lookup_delete: "lookup (AList.delete k m) j = (if j = k then None else lookup m j)"
  by (simp add: delete_conv')

lemma file_text_Remove [simp]:
  "file_text (RemoveFile p s) q = (if q = p then None else file_text s q)"
  by (simp add: file_text_def RemoveFile_def lookup_delete)

lemma file_text_Rename:
  "old \<noteq> new \<Longrightarrow> file_text (RenameFile old new s) q =
     (if lookup (fs_files s) old = None then file_text s q
      else if q = new then file_text s old else if q = old then None else file_text s q)"
  by (auto simp: RenameFile_def file_text_def set_file_def RemoveFile_def lookup_delete
      split: option.splits)

lemma lookup_set_file [simp]:
  "lookup (fs_files (set_file p f s)) q = (if q = p then Some f else lookup (fs_files s) q)"
  by (simp add: set_file_def)

lemma set_file_dirs [simp]: "fs_dirs (set_file p f s) = fs_dirs s"
  by (simp add: set_file_def)

lemma file_text_MkdirAll: "MkdirAll e dir mode s = Some s' \<Longrightarrow> file_text s' = file_text s"
  by (auto simp: MkdirAll_def file_text_def fun_eq_iff split: if_splits option.splits)

lemma ReadFile_text: "\<not> e_denied e path \<Longrightarrow>
    ReadFile e path s = (case file_text s path of None \<Rightarrow> Inl NoSuchFile | Some b \<Rightarrow> Inr b)"
  by (simp add: ReadFile_def file_text_def split: option.splits)

lemma inheritOwner_simps [simp]:
  "f_data (inheritOwner e d s f) = f_data f" "f_mode (inheritOwner e d s f) = f_mode f"
  by (simp_all add: inheritOwner_def split: option.splits)

lemma temp_file_simps [simp]: "f_data (temp_file e d) = d"
  by (simp add: temp_file_def)

section \<open>The contract of an atomic replacement\<close>

text \<open>
  \<open>text s q\<close> is what a reader finds at \<open>q\<close>; \<open>states\<close> are the states it may see while \<open>path\<close> is
  being replaced; \<open>hidden\<close> is the temporary name, which no reader uses.
\<close>

locale atomic_replace =
  fixes reads :: "'s \<Rightarrow> string \<Rightarrow> string option"
    and hidden :: string
    and states :: "string \<Rightarrow> string \<Rightarrow> 's \<Rightarrow> 's list \<times> bool"
  assumes states_nonempty: "fst (states path new s) \<noteq> []"
    and states_other: "u \<in> set (fst (states path new s)) \<Longrightarrow> q \<noteq> path \<Longrightarrow> q \<noteq> hidden \<Longrightarrow> reads u q = reads s q"
    and states_path: "path \<noteq> hidden \<Longrightarrow> u \<in> set (fst (states path new s)) \<Longrightarrow>
      reads u path = reads s path \<or> reads u path = Some new"
    and states_last: "path \<noteq> hidden \<Longrightarrow>
      reads (last (fst (states path new s))) path =
        (if snd (states path new s) then Some new else reads s path)"
    and states_clean: "path \<noteq> hidden \<Longrightarrow> reads s hidden = None \<Longrightarrow>
      reads (last (fst (states path new s))) hidden = None"
begin

definition replace :: "string \<Rightarrow> string \<Rightarrow> 's \<Rightarrow> bool \<times> 's" where
  "replace path new s = (case states path new s of (ss, ok) \<Rightarrow> (ok, last ss))"

lemma replace_cases:
  assumes "path \<noteq> hidden" and "replace path new s = (ok, s')"
  shows "reads s' path = (if ok then Some new else reads s path)"
    and "q \<noteq> path \<Longrightarrow> q \<noteq> hidden \<Longrightarrow> reads s' q = reads s q"
proof -
  have s': "s' = last (fst (states path new s))" "ok = snd (states path new s)"
    using assms(2) by (auto simp: replace_def split: prod.splits)
  show "reads s' path = (if ok then Some new else reads s path)"
    by (simp add: s' states_last [OF assms(1)])
  show "q \<noteq> path \<Longrightarrow> q \<noteq> hidden \<Longrightarrow> reads s' q = reads s q"
    using states_other [of s' path new s q] states_nonempty by (simp add: s')
qed

lemma replace_fun:
  assumes "path \<noteq> hidden" and "reads s hidden = None" and "replace path new s = (ok, s')"
  shows "reads s' = (if ok then (reads s)(path \<mapsto> new) else reads s)"
proof
  fix q
  have "reads s' hidden = None"
    using states_clean [OF assms(1,2), of new] assms(3)
    by (auto simp: replace_def split: prod.splits)
  with assms(2) replace_cases [OF assms(1,3)] show "reads s' q = (if ok then (reads s)(path \<mapsto> new) else reads s) q"
    by (cases "q = path"; cases "q = hidden") auto
qed

end

lemma writeAtomic_states_text:
  "u \<in> set (fst (writeAtomic_states e path data mode s)) \<Longrightarrow> q \<noteq> e_tmp e \<Longrightarrow>
     file_text u q = file_text s q \<or> q = path \<and> path \<noteq> e_tmp e \<and> file_text u q = Some data"
  by (cases "path = e_tmp e"; cases "e_fault e")
    (auto simp: writeAtomic_states_def Let_def file_text_Rename RenameFile_def split: if_splits)

lemma WriteOnce_states_text:
  "u \<in> set (fst (WriteOnce_states e path (Some data) s)) \<Longrightarrow> q \<noteq> e_tmp e \<Longrightarrow>
     file_text u q = file_text s q \<or> q = path \<and> path \<noteq> e_tmp e \<and> file_text u q = Some data"
  by (cases "path = e_tmp e"; cases "e_fault e")
    (auto simp: WriteOnce_states_def Let_def file_text_Rename RenameFile_def split: if_splits)

interpretation write_atomic: atomic_replace file_text "e_tmp e"
  "\<lambda>path new s. writeAtomic_states e path new mode s" for e mode
proof unfold_locales
  fix path new :: string and s :: fsys
  show "fst (writeAtomic_states e path new mode s) \<noteq> []"
    by (simp add: writeAtomic_states_def Let_def split: fault.splits)
next
  fix path new :: string and s u :: fsys and q :: string
  assume "u \<in> set (fst (writeAtomic_states e path new mode s))" "q \<noteq> path" "q \<noteq> e_tmp e"
  then show "file_text u q = file_text s q" by (auto dest: writeAtomic_states_text)
next
  fix path new :: string and s u :: fsys
  assume "path \<noteq> e_tmp e" "u \<in> set (fst (writeAtomic_states e path new mode s))"
  then show "file_text u path = file_text s path \<or> file_text u path = Some new"
    by (auto dest: writeAtomic_states_text)
next
  fix path new :: string and s :: fsys
  assume "path \<noteq> e_tmp e"
  then show "file_text (last (fst (writeAtomic_states e path new mode s))) path =
      (if snd (writeAtomic_states e path new mode s) then Some new else file_text s path)"
    by (cases "e_fault e") (auto simp: writeAtomic_states_def Let_def file_text_Rename)
next
  fix path new :: string and s :: fsys
  assume "path \<noteq> e_tmp e" "file_text s (e_tmp e) = None"
  then show "file_text (last (fst (writeAtomic_states e path new mode s))) (e_tmp e) = None"
    by (cases "e_fault e") (auto simp: writeAtomic_states_def Let_def file_text_Rename)
qed

interpretation write_once: atomic_replace file_text "e_tmp e"
  "\<lambda>path new s. WriteOnce_states e path (Some new) s" for e
proof unfold_locales
  fix path new :: string and s :: fsys
  show "fst (WriteOnce_states e path (Some new) s) \<noteq> []"
    by (simp add: WriteOnce_states_def Let_def split: fault.splits)
next
  fix path new :: string and s u :: fsys and q :: string
  assume "u \<in> set (fst (WriteOnce_states e path (Some new) s))" "q \<noteq> path" "q \<noteq> e_tmp e"
  then show "file_text u q = file_text s q" by (auto dest: WriteOnce_states_text)
next
  fix path new :: string and s u :: fsys
  assume "path \<noteq> e_tmp e" "u \<in> set (fst (WriteOnce_states e path (Some new) s))"
  then show "file_text u path = file_text s path \<or> file_text u path = Some new"
    by (auto dest: WriteOnce_states_text)
next
  fix path new :: string and s :: fsys
  assume "path \<noteq> e_tmp e"
  then show "file_text (last (fst (WriteOnce_states e path (Some new) s))) path =
      (if snd (WriteOnce_states e path (Some new) s) then Some new else file_text s path)"
    by (cases "e_fault e") (auto simp: WriteOnce_states_def Let_def file_text_Rename)
next
  fix path new :: string and s :: fsys
  assume "path \<noteq> e_tmp e" "file_text s (e_tmp e) = None"
  then show "file_text (last (fst (WriteOnce_states e path (Some new) s))) (e_tmp e) = None"
    by (cases "e_fault e") (auto simp: WriteOnce_states_def Let_def file_text_Rename)
qed

lemma writeAtomic_replace: "writeAtomic e path data mode s = write_atomic.replace e mode path data s"
  by (simp add: writeAtomic_def write_atomic.replace_def)

lemma writeAtomic_ok: "fst (writeAtomic e path data mode s) \<longleftrightarrow> e_fault e = NoFault"
  by (simp add: writeAtomic_def writeAtomic_states_def Let_def split: fault.splits)

lemmas writeAtomic_text = write_atomic.replace_fun [folded writeAtomic_replace]

text \<open>Owner and mode of the new file.\<close>

lemma writeAtomic_file:
  assumes "path \<noteq> e_tmp e" and "e_fault e = NoFault"
  shows "lookup (fs_files (snd (writeAtomic e path data mode s))) path =
     Some (inheritOwner e (DirOf path) s ((temp_file e data)\<lparr>f_mode := mode\<rparr>))"
  using assms by (simp add: writeAtomic_def writeAtomic_states_def Let_def RenameFile_def RemoveFile_def
      lookup_delete set_file_def)

section \<open>Properties\<close>

text \<open>
  C15: No reader ever sees a half-written list: at every moment of \<open>writeAtomic\<close>, whichever of
  its steps fails, the file holds its old content or all of the new one, every other file is
  untouched, the call returns nil exactly when the new content is in place, and no temporary file
  stays behind.
\<close>

theorem write_atomic_never_torn:
  assumes "path \<noteq> e_tmp e" and "file_text s (e_tmp e) = None"
    and "writeAtomic_states e path data mode s = (states, ok)"
  shows "(\<forall>u \<in> set states. file_text u path \<in> {file_text s path, Some data} \<and>
       (\<forall>q. q \<in> {path, e_tmp e} \<or> file_text u q = file_text s q)) \<and>
     writeAtomic e path data mode s = (ok, last states) \<and>
     file_text (last states) = (if ok then (file_text s)(path \<mapsto> data) else file_text s)"
proof (intro conjI)
  show "\<forall>u \<in> set states. file_text u path \<in> {file_text s path, Some data} \<and>
       (\<forall>q. q \<in> {path, e_tmp e} \<or> file_text u q = file_text s q)"
    using assms(1,3) writeAtomic_states_text [of _ e path data mode s] by fastforce
  show w: "writeAtomic e path data mode s = (ok, last states)"
    by (simp add: writeAtomic_def assms(3))
  show "file_text (last states) = (if ok then (file_text s)(path \<mapsto> data) else file_text s)"
    by (rule writeAtomic_text [OF assms(1,2) w])
qed

text \<open>
  A list that root writes stays readable for the gate's service: the new file has the owner
  and group of its directory and the mode asked for, so with mode 0640 the directory's group can
  read it.
\<close>

theorem written_file_readable_by_service:
  assumes "path \<noteq> e_tmp e" and "e_euid e = 0" and "lookup (fs_dirs s) (DirOf path) = Some d"
    and "fst (writeAtomic e path data (perm 6 4 0) s)"
  shows "\<exists>f. lookup (fs_files (snd (writeAtomic e path data (perm 6 4 0) s))) path = Some f \<and>
     f_uid f = d_uid d \<and> f_gid f = d_gid d \<and> f_mode f = perm 6 4 0 \<and> f_mode f div 8 mod 8 = 4 \<and>
     f_mode f mod 8 = 0"
  using writeAtomic_file [OF assms(1), of data "perm 6 4 0" s] assms
  by (simp add: writeAtomic_ok inheritOwner_def perm_def)

lemma FixPerms_root:
  "e_euid e = 0 \<Longrightarrow> 0 \<le> g \<Longrightarrow> \<not> e_denied e dir \<Longrightarrow>
     snd (FixPerms e (Some g) chown_fails chmod_fails dir s) =
       (case lookup (fs_dirs s) dir of None \<Rightarrow> s
        | Some d \<Rightarrow> s\<lparr>fs_dirs := put dir (fix_dir chown_fails chmod_fails g dir d) (fs_dirs s)\<rparr>)
       \<lparr>fs_files := map (\<lambda>pf. if DirOf (fst pf) = dir
          then fix_file chown_fails chmod_fails g pf else pf) (fs_files s)\<rparr>"
  by (auto simp: FixPerms_def Let_def split: option.splits)

lemma fst_fix_file [simp]: "fst (fix_file a b g pf) = fst pf"
  by (cases pf) (simp add: fix_file_def)

lemma lookup_map_fix:
  assumes "\<And>pf. fst (h pf) = fst pf"
  shows "lookup (map h m) p = map_option (\<lambda>f. snd (h (p, f))) (lookup m p)"
proof (induction m)
  case (Cons qf m)
  obtain q f where qf: "qf = (q, f)" by (cases qf)
  obtain g where "h (q, f) = (q, g)" using assms [of "(q, f)"] by (metis prod.collapse fst_conv)
  with Cons qf show ?case by simp
qed simp

text \<open>
  \<open>fixperms\<close> repairs every file of the directory that it can change: afterwards the file
  belongs to root and the service group with mode 0660 and keeps its content; files elsewhere are
  as before.
\<close>

theorem fixperms_repairs:
  assumes "e_euid e = 0" and "0 \<le> g" and "\<not> e_denied e dir"
    and "lookup (fs_files s) p = Some f"
    and "\<not> chown_fails p" and "\<not> chmod_fails p"
  shows "lookup (fs_files (snd (FixPerms e (Some g) chown_fails chmod_fails dir s))) p =
     Some (if DirOf p = dir then f\<lparr>f_uid := 0, f_gid := g, f_mode := perm 6 6 0\<rparr> else f)"
proof -
  let ?h = "\<lambda>pf. if DirOf (fst pf) = dir then fix_file chown_fails chmod_fails g pf else pf"
  have "fst (?h pf) = fst pf" for pf by simp
  from lookup_map_fix [OF this, of "fs_files s" p] show ?thesis
    using assms by (simp add: FixPerms_root fix_file_def)
qed

text \<open>Witnesses: a directory of the service group and one list in it.\<close>

definition wit_env :: env where
  "wit_env = \<lparr>e_denied = (\<lambda>p. False), e_mkdir_fails = False, e_fault = NoFault,
     e_tmp = ''/etc/oversea/.tmp-1'', e_euid = 0, e_egid = 0, e_now = 100\<rparr>"

definition wit_fs :: fsys where
  "wit_fs = \<lparr>fs_files = [(''/etc/oversea/allow.txt'',
        \<lparr>f_data = ''old'', f_mode = perm 6 0 0, f_uid = 0, f_gid = 0, f_mtime = 50\<rparr>)],
     fs_dirs = [(''/etc/oversea'', \<lparr>d_mode = perm 7 7 0, d_uid = 0, d_gid = 990\<rparr>)]\<rparr>"

lemma wit_DirOf: "DirOf ''/etc/oversea/allow.txt'' = ''/etc/oversea''"
  by (simp add: DirOf_def before_last_def after_def Clean_def Let_def)

theorem write_atomic_never_torn_witness:
  "file_text (snd (writeAtomic wit_env ''/etc/oversea/allow.txt'' ''new'' (perm 6 4 0) wit_fs))
     ''/etc/oversea/allow.txt'' = Some ''new''"
proof -
  obtain ss ok
    where w: "writeAtomic_states wit_env ''/etc/oversea/allow.txt'' ''new'' (perm 6 4 0) wit_fs = (ss, ok)"
    by fastforce
  then have ok: "ok" by (auto simp: writeAtomic_states_def wit_env_def Let_def)
  have "''/etc/oversea/allow.txt'' \<noteq> e_tmp wit_env" "file_text wit_fs (e_tmp wit_env) = None"
    by (simp_all add: wit_env_def wit_fs_def file_text_def)
  from write_atomic_never_torn [OF this w] ok
  show ?thesis by simp
qed

theorem written_file_readable_by_service_witness:
  "\<exists>f. lookup (fs_files (snd (writeAtomic wit_env ''/etc/oversea/allow.txt'' ''new'' (perm 6 4 0)
       wit_fs))) ''/etc/oversea/allow.txt'' = Some f \<and> f_gid f = 990 \<and> f_mode f div 8 mod 8 = 4"
proof -
  have "lookup (fs_dirs wit_fs) (DirOf ''/etc/oversea/allow.txt'') =
      Some \<lparr>d_mode = perm 7 7 0, d_uid = 0, d_gid = 990\<rparr>"
    by (simp add: wit_fs_def wit_DirOf)
  from written_file_readable_by_service [OF _ _ this, of wit_env "''new''"]
  show ?thesis by (auto simp: wit_env_def writeAtomic_ok)
qed

theorem fixperms_repairs_witness:
  "lookup (fs_files (snd (FixPerms wit_env (Some 990) (\<lambda>p. False) (\<lambda>p. False) ''/etc/oversea'' wit_fs)))
     ''/etc/oversea/allow.txt'' =
   Some \<lparr>f_data = ''old'', f_mode = 432, f_uid = 0, f_gid = 990, f_mtime = 50\<rparr>"
  by (subst fixperms_repairs [where f = "\<lparr>f_data = ''old'', f_mode = perm 6 0 0, f_uid = 0,
        f_gid = 0, f_mtime = 50\<rparr>"])
    (simp_all add: wit_env_def wit_fs_def wit_DirOf perm_def)

end
