(* ===== verification/Oversee_Settings.thy ===== *)
theory Oversee_Settings
  imports Os_Files
begin

text \<open>
  The settings of the server tool (\<open>server/internal/oversee/oversee.go\<close>): where its files live, the
  KEY=VALUE file \<open>gate.conf\<close> (\<open>LoadSettings\<close>, \<open>SaveSettings\<close>), the command \<open>oversee set\<close>
  (\<open>SetSetting\<close>), the ports, and the CDN modes of \<open>proxylist.go\<close>.  The lemmas show that what is
  saved is what is loaded, and that \<open>oversee set\<close> keeps the settings consistent.
\<close>

section \<open>Paths\<close>

record paths =
  p_Dir :: string
  p_Allow :: string
  p_Keys :: string
  p_Stats :: string
  p_Proxies :: string
  p_Probe :: string
  p_Conf :: string
  p_Certs :: string

text \<open>\<open>oversee_dir\<close> is the environment variable OVERSEE_DIR.\<close>

definition DefaultPaths :: "string \<Rightarrow> paths" where
  "DefaultPaths oversee_dir =
     (let dir = (if oversee_dir = [] then ''/etc/oversea'' else oversee_dir)
      in \<lparr>p_Dir = dir, p_Allow = JoinPath dir ''allow.txt'', p_Keys = JoinPath dir ''keys.txt'',
          p_Stats = JoinPath dir ''stats.json'', p_Proxies = JoinPath dir ''proxies.txt'',
          p_Probe = JoinPath dir ''probe.nonce'', p_Conf = JoinPath dir ''gate.conf'',
          p_Certs = JoinPath dir ''certs''\<rparr>)"

section \<open>Settings\<close>

record settings =
  cf_Domain :: string
  cf_Upstream :: string
  cf_Plain :: string
  cf_LeakIPs :: int
  cf_NoIPLimit :: bool
  cf_LockIPs :: int
  cf_CDN :: string
  cf_OnlyProxy :: bool
  cf_TokenDays :: int
  cf_Cert :: string
  cf_Key :: string
  cf_Port :: int

definition DefaultSettings :: settings where
  "DefaultSettings =
     \<lparr>cf_Domain = [], cf_Upstream = ''127.0.0.1:10000'', cf_Plain = [], cf_LeakIPs = 0,
      cf_NoIPLimit = False, cf_LockIPs = 0, cf_CDN = [], cf_OnlyProxy = False, cf_TokenDays = 0,
      cf_Cert = [], cf_Key = [], cf_Port = 0\<rparr>"

text \<open>\<open>fmt.Sscanf(v, "%d", &n)\<close> with the error ignored: \<open>n\<close> keeps its value.\<close>

definition scan_into :: "string \<Rightarrow> int \<Rightarrow> int" where
  "scan_into v n = (case Sscanf_d v of None \<Rightarrow> n | Some i \<Rightarrow> i)"

definition EntryPort :: "settings \<Rightarrow> int \<times> bool" where
  "EntryPort s =
     (if cf_Plain s \<noteq> [] then
        (if CHR '':'' \<in> set (cf_Plain s) then scan_into (after_last (CHR '':'') (cf_Plain s)) 0 else 0,
         False)
      else if cf_Port s > 0 then (cf_Port s, True)
      else (443, True))"

definition UpstreamPort :: "settings \<Rightarrow> int" where
  "UpstreamPort s =
     (if CHR '':'' \<in> set (cf_Upstream s)
      then scan_into (after_last (CHR '':'') (cf_Upstream s)) 10000 else 10000)"

section \<open>Loading and saving\<close>

text \<open>The switch on the key; \<open>v\<close> is the trimmed value.\<close>

definition set_key :: "unicode \<Rightarrow> string \<Rightarrow> string \<Rightarrow> settings \<Rightarrow> settings" where
  "set_key U k v s =
     (if k = ''DOMAIN'' then s\<lparr>cf_Domain := v\<rparr>
      else if k = ''UPSTREAM'' then s\<lparr>cf_Upstream := v\<rparr>
      else if k = ''PLAIN'' then s\<lparr>cf_Plain := v\<rparr>
      else if k = ''CDN'' then s\<lparr>cf_CDN := v\<rparr>
      else if k = ''ONLY_PROXY'' then s\<lparr>cf_OnlyProxy := v = ''1'' \<or> v = ''true''\<rparr>
      else if k = ''LOCK_IPS'' then s\<lparr>cf_LockIPs := scan_into v (cf_LockIPs s)\<rparr>
      else if k = ''IP_LIMIT'' then
        (if ToLower U v \<in> {''off'', ''0'', ''false'', ''no''} then s\<lparr>cf_NoIPLimit := True\<rparr> else s)
      else if k = ''TOKEN_DAYS'' then s\<lparr>cf_TokenDays := scan_into v (cf_TokenDays s)\<rparr>
      else if k = ''CERT'' then s\<lparr>cf_Cert := v\<rparr>
      else if k = ''KEY'' then s\<lparr>cf_Key := v\<rparr>
      else if k = ''PORT'' then s\<lparr>cf_Port := scan_into v (cf_Port s)\<rparr>
      else if k = ''LEAK_IPS'' then s\<lparr>cf_LeakIPs := scan_into v (cf_LeakIPs s)\<rparr>
      else s)"

definition conf_line :: "unicode \<Rightarrow> string \<Rightarrow> settings \<Rightarrow> settings" where
  "conf_line U line s =
     (case Cut (TrimSpace line) (CHR ''='') of
        (k, v, found) \<Rightarrow>
          if \<not> found \<or> HasPrefix k ''#'' then s else set_key U (TrimSpace k) (TrimSpace v) s)"

definition parse_conf :: "unicode \<Rightarrow> string \<Rightarrow> settings" where
  "parse_conf U b = fold (conf_line U) (Split b newline) DefaultSettings"

definition LoadSettings :: "unicode \<Rightarrow> env \<Rightarrow> paths \<Rightarrow> fsys \<Rightarrow> settings" where
  "LoadSettings U e p fs =
     (case ReadFile e (p_Conf p) fs of Inl _ \<Rightarrow> DefaultSettings | Inr b \<Rightarrow> parse_conf U b)"

definition conf_lines :: "settings \<Rightarrow> string list" where
  "conf_lines s =
     [''# managed by `oversee`'',
      ''DOMAIN='' @ cf_Domain s,
      ''UPSTREAM='' @ cf_Upstream s,
      ''PLAIN='' @ cf_Plain s,
      ''LEAK_IPS='' @ FormatInt (cf_LeakIPs s),
      ''CDN='' @ cf_CDN s,
      ''ONLY_PROXY='' @ (if cf_OnlyProxy s then ''1'' else ''0''),
      ''CERT='' @ cf_Cert s,
      ''KEY='' @ cf_Key s,
      ''TOKEN_DAYS='' @ FormatInt (cf_TokenDays s),
      ''PORT='' @ FormatInt (cf_Port s),
      ''IP_LIMIT='' @ (if cf_NoIPLimit s then ''off'' else ''on''),
      ''LOCK_IPS='' @ FormatInt (cf_LockIPs s)]"

definition settings_text :: "settings \<Rightarrow> string" where
  "settings_text s = Join (conf_lines s) [newline] @ [newline]"

text \<open>The errors of the tool's commands.\<close>

datatype tool_error =
  BadLine | MkdirFailed | ReadFailed | WriteFailed | PrefixTooShort | NoLockMatches
  | AmbiguousPrefix | BadKey | NoSuchKey | BadValue string | UnknownSetting string

definition SaveSettings :: "env \<Rightarrow> paths \<Rightarrow> settings \<Rightarrow> fsys \<Rightarrow> tool_error option \<times> fsys" where
  "SaveSettings e p s fs =
     (case MkdirAll e (p_Dir p) (perm 7 5 0) fs of
        None \<Rightarrow> (Some MkdirFailed, fs)
      | Some fs1 \<Rightarrow>
          (case writeAtomic e (p_Conf p) (settings_text s) (perm 6 4 0) fs1 of
             (True, fs2) \<Rightarrow> (None, fs2)
           | (False, fs2) \<Rightarrow> (Some WriteFailed, fs2)))"

section \<open>CDN modes\<close>

definition ValidCDN :: "string \<Rightarrow> bool" where
  "ValidCDN s \<longleftrightarrow> s \<in> {'''', ''none'', ''cloudflare'', ''fastly'', ''generic''}"

definition cdn_order :: "string list" where
  "cdn_order = ['''', ''cloudflare'', ''fastly'', ''generic'']"

text \<open>The loop of \<open>NextCDN\<close>: the first index that matches.\<close>

definition NextCDN :: "string \<Rightarrow> string" where
  "NextCDN cur =
     (case find (\<lambda>i. cdn_order ! i = cur \<or> (cur = ''none'' \<and> cdn_order ! i = '''')) [0 ..< 4] of
        Some i \<Rightarrow> cdn_order ! ((i + 1) mod 4)
      | None \<Rightarrow> [])"

section \<open>Setting one value\<close>

definition is_on :: "string \<Rightarrow> bool" where
  "is_on v \<longleftrightarrow> v = ''1'' \<or> v = ''true'' \<or> v = ''on'' \<or> v = ''yes''"

text \<open>A number in a range, \<open>None\<close> when it is refused.\<close>

definition scan_range :: "string \<Rightarrow> int \<Rightarrow> int option \<Rightarrow> int option" where
  "scan_range v lo hi =
     (case Sscanf_d v of
        None \<Rightarrow> None
      | Some n \<Rightarrow> if n < lo \<or> (case hi of None \<Rightarrow> False | Some h \<Rightarrow> n > h) then None else Some n)"

text \<open>The switch of \<open>SetSetting\<close>; \<open>value0\<close> is the trimmed value.\<close>

definition set_value :: "string \<Rightarrow> string \<Rightarrow> settings \<Rightarrow> tool_error + settings" where
  "set_value name value0 s =
     (if name = ''domain'' then Inr (s\<lparr>cf_Domain := value0\<rparr>)
      else if name = ''upstream'' then
        (let v = (case ParseInt value0 of
             Some n \<Rightarrow> if 1 \<le> n \<and> n \<le> 65535 then ''127.0.0.1:'' @ value0 else value0
           | None \<Rightarrow> value0)
         in if \<not> Contains v '':'' then Inl (BadValue name) else Inr (s\<lparr>cf_Upstream := v\<rparr>))
      else if name = ''plain'' then Inr (s\<lparr>cf_Plain := value0\<rparr>)
      else if name = ''leak-ips'' then
        (case scan_range value0 0 None of
           None \<Rightarrow> Inl (BadValue name) | Some n \<Rightarrow> Inr (s\<lparr>cf_LeakIPs := n\<rparr>))
      else if name = ''cdn'' then
        (if \<not> ValidCDN value0 then Inl (BadValue name)
         else
           (let v = (if value0 = ''none'' then [] else value0);
                s1 = s\<lparr>cf_CDN := v\<rparr>
            in Inr (if v = [] then s1\<lparr>cf_OnlyProxy := False\<rparr> else s1)))
      else if name = ''only-proxy'' then
        (if is_on value0 \<and> cf_CDN s = [] then Inl (BadValue name)
         else Inr (s\<lparr>cf_OnlyProxy := is_on value0\<rparr>))
      else if name = ''lock-ips'' then
        (case scan_range value0 0 (Some 10000) of
           None \<Rightarrow> Inl (BadValue name) | Some n \<Rightarrow> Inr (s\<lparr>cf_LockIPs := n\<rparr>))
      else if name = ''ip-limit'' then Inr (s\<lparr>cf_NoIPLimit := \<not> is_on value0\<rparr>)
      else if name = ''token-days'' then
        (case scan_range value0 1 (Some 7) of
           None \<Rightarrow> Inl (BadValue name) | Some n \<Rightarrow> Inr (s\<lparr>cf_TokenDays := n\<rparr>))
      else if name = ''cert'' then Inr (s\<lparr>cf_Cert := value0\<rparr>)
      else if name = ''key'' then Inr (s\<lparr>cf_Key := value0\<rparr>)
      else if name = ''port'' then
        (case scan_range value0 1 (Some 65535) of
           None \<Rightarrow> Inl (BadValue name) | Some n \<Rightarrow> Inr (s\<lparr>cf_Port := n\<rparr>))
      else Inl (UnknownSetting name))"

definition SetSetting ::
  "unicode \<Rightarrow> env \<Rightarrow> paths \<Rightarrow> string \<Rightarrow> string \<Rightarrow> fsys \<Rightarrow> tool_error option \<times> fsys" where
  "SetSetting U e p name value fs =
     (case set_value name (TrimSpace value) (LoadSettings U e p fs) of
        Inl err \<Rightarrow> (Some err, fs)
      | Inr s \<Rightarrow> SaveSettings e p s fs)"

section \<open>What is saved is what is loaded\<close>

text \<open>A byte that is in no white-space rune.\<close>

definition barrier :: "char \<Rightarrow> bool" where
  "barrier c \<longleftrightarrow> (\<forall>w \<in> set space_encodings. c \<notin> set w)"

lemma barrier_eq [simp]: "barrier (CHR ''='')"
  by (simp add: barrier_def space_encodings_def)

lemma space_end_barrier:
  assumes "barrier c" and "space_end v = 0"
  shows "space_end (u @ c # v) = 0"
proof -
  have "\<not> HasSuffix (u @ c # v) w" if w: "w \<in> set space_encodings" for w
  proof
    assume "HasSuffix (u @ c # v) w"
    then have "HasPrefix (rev v @ c # rev u) (rev w)" by (simp add: HasSuffix_def)
    moreover have "c \<notin> set (rev w)" using assms(1) w by (simp add: barrier_def)
    ultimately have "HasSuffix v w" by (simp add: HasSuffix_def HasPrefix_stop)
    with assms(2) w show False by (simp add: space_end_0)
  qed
  then show ?thesis by (simp add: space_end_0)
qed

lemma space_end_Nil [simp]: "space_end [] = 0"
  by (simp add: space_end_0 space_encodings_def HasSuffix_def)

lemma trimmed_pair:
  assumes "list_all plain_char k" and "k \<noteq> []" and "trimmed v"
  shows "TrimSpace (k @ CHR ''='' # v) = k @ CHR ''='' # v"
proof -
  obtain c k' where k: "k = c # k'" using assms(2) by (cases k) auto
  have "space_at (k @ CHR ''='' # v) = 0" using assms(1) by (simp add: k space_at_plain)
  moreover have "space_end v = 0" using assms(3) by (auto simp: trimmed_def)
  then have "space_end (k @ CHR ''='' # v) = 0" by (simp add: space_end_barrier)
  ultimately show ?thesis by (simp add: TrimSpace_id trimmed_def)
qed

definition key_name :: "string \<Rightarrow> bool" where
  "key_name k \<longleftrightarrow> list_all plain_char k \<and> k \<noteq> [] \<and> CHR ''='' \<notin> set k \<and> hd k \<noteq> CHR ''#''"

lemma conf_line_pair:
  assumes "key_name k" and "trimmed v"
  shows "conf_line U (k @ CHR ''='' # v) s = set_key U k v s"
proof -
  obtain c k' where k: "k = c # k'" "c \<noteq> CHR ''#''" using assms(1) by (cases k) (auto simp: key_name_def)
  have "TrimSpace k = k"
    using assms(1) by (intro TrimSpace_spaceless spaceless_plain) (simp add: key_name_def list_all_iff)
  moreover have "TrimSpace v = v" using assms(2) by (rule TrimSpace_id)
  moreover have "\<not> HasPrefix k ''#''" by (simp add: k)
  ultimately show ?thesis
    using assms(1) trimmed_pair [of k v] assms(2)
    by (simp add: conf_line_def key_name_def Cut_append)
qed

lemma trimmed_FormatInt [simp]: "trimmed (FormatInt i)"
  by (rule trimmed_spaceless) simp

lemma scan_into_FormatInt [simp]: "int64 i \<Longrightarrow> scan_into (FormatInt i) n = i"
  by (simp add: scan_into_def Sscanf_FormatInt)

definition value_ok :: "string \<Rightarrow> bool" where
  "value_ok v \<longleftrightarrow> trimmed v \<and> newline \<notin> set v"

definition settings_ok :: "settings \<Rightarrow> bool" where
  "settings_ok s \<longleftrightarrow> value_ok (cf_Domain s) \<and> value_ok (cf_Upstream s) \<and> value_ok (cf_Plain s) \<and>
     value_ok (cf_CDN s) \<and> value_ok (cf_Cert s) \<and> value_ok (cf_Key s) \<and> int64 (cf_LeakIPs s) \<and>
     int64 (cf_LockIPs s) \<and> int64 (cf_TokenDays s) \<and> int64 (cf_Port s)"

lemma conf_keys:
  "key_name ''DOMAIN''" "key_name ''UPSTREAM''" "key_name ''PLAIN''" "key_name ''LEAK_IPS''"
  "key_name ''CDN''" "key_name ''ONLY_PROXY''" "key_name ''CERT''" "key_name ''KEY''"
  "key_name ''TOKEN_DAYS''" "key_name ''PORT''" "key_name ''IP_LIMIT''" "key_name ''LOCK_IPS''"
  by (simp_all add: key_name_def plain_char_def)

lemma conf_comment: "conf_line U ''# managed by `oversee`'' s = s"
proof -
  have "space_at ''# managed by `oversee`'' = 0" by (simp add: space_at_plain plain_char_def)
  moreover have "space_end ''# managed by `oversee`'' = 0"
    by (simp add: space_end_0 space_encodings_def HasSuffix_def)
  ultimately have "TrimSpace ''# managed by `oversee`'' = ''# managed by `oversee`''"
    by (simp add: TrimSpace_def)
  then show ?thesis by (simp add: conf_line_def Cut_def)
qed

lemma conf_blank: "conf_line U [] s = s"
  by (simp add: conf_line_def Cut_def)

lemma trimmed_words: "trimmed ''1''" "trimmed ''0''" "trimmed ''on''" "trimmed ''off''"
  by (rule trimmed_spaceless, rule spaceless_plain, simp add: plain_char_def)+

lemmas conf_pairs = conf_keys [THEN conf_line_pair, simplified append.simps]

lemma Split_trailing_sep: "Split (s @ [c]) c = Split s c @ [[]]"
  by (induction s) (auto split: list.splits)

lemma FormatInt_no_newline [simp]: "newline \<notin> set (FormatInt i)"
proof
  assume "newline \<in> set (FormatInt i)"
  then have "newline \<in> set ''-0123456789''" using FormatInt_set [of i] by blast
  then show False by simp
qed

lemma conf_lines_no_newline: "settings_ok s \<Longrightarrow> \<forall>l \<in> set (conf_lines s). newline \<notin> set l"
  by (simp add: conf_lines_def settings_ok_def value_ok_def)

lemma ToLower_words: "ToLower U ''on'' = ''on''" "ToLower U ''off'' = ''off''"
  by (simp_all add: ToLower_def ascii_def lower_char_def)

lemma fold_conf_lines:
  assumes "settings_ok s"
  shows "fold (conf_line U) (conf_lines s) DefaultSettings = s"
proof -
  have ok: "trimmed (cf_Domain s)" "trimmed (cf_Upstream s)" "trimmed (cf_Plain s)"
    "trimmed (cf_CDN s)" "trimmed (cf_Cert s)" "trimmed (cf_Key s)"
    "int64 (cf_LeakIPs s)" "int64 (cf_LockIPs s)" "int64 (cf_TokenDays s)" "int64 (cf_Port s)"
    using assms by (simp_all add: settings_ok_def value_ok_def)
  show ?thesis
    by (cases s) (use ok in \<open>simp add: conf_lines_def conf_comment conf_pairs trimmed_words set_key_def
      DefaultSettings_def ToLower_words\<close>)
qed

lemma parse_settings_text: "settings_ok s \<Longrightarrow> parse_conf U (settings_text s) = s"
proof -
  assume ok: "settings_ok s"
  have "conf_lines s \<noteq> []" by (simp add: conf_lines_def)
  then have "Split (Join (conf_lines s) [newline]) newline = conf_lines s"
    by (rule Split_Join) (rule conf_lines_no_newline [OF ok])
  then show ?thesis
    by (simp add: parse_conf_def settings_text_def Split_trailing_sep fold_conf_lines [OF ok] conf_blank)
qed

section \<open>Consistent settings\<close>

definition conf_inv :: "settings \<Rightarrow> bool" where
  "conf_inv s \<longleftrightarrow> cf_CDN s \<in> set cdn_order \<and> (cf_OnlyProxy s \<longrightarrow> cf_CDN s \<noteq> []) \<and>
     0 \<le> cf_LeakIPs s \<and> 0 \<le> cf_LockIPs s \<and> cf_LockIPs s \<le> 10000 \<and>
     0 \<le> cf_TokenDays s \<and> cf_TokenDays s \<le> 7 \<and> 0 \<le> cf_Port s \<and> cf_Port s \<le> 65535"

lemma Sscanf_int64: "Sscanf_d v = Some n \<Longrightarrow> int64 n"
  by (auto simp: Sscanf_d_def Let_def int64_option_def split: option.splits if_splits)

lemma scan_range_Some:
  "scan_range v lo hi = Some n \<Longrightarrow> int64 n \<and> lo \<le> n \<and> (case hi of None \<Rightarrow> True | Some h \<Rightarrow> n \<le> h)"
  by (auto simp: scan_range_def dest: Sscanf_int64 split: option.splits if_splits)

text \<open>The possible results of the switch.\<close>

lemma set_value_cases:
  assumes "set_value name v s = Inr s'"
  obtains (text_value) "s' \<in> {s\<lparr>cf_Domain := v\<rparr>, s\<lparr>cf_Plain := v\<rparr>, s\<lparr>cf_Cert := v\<rparr>, s\<lparr>cf_Key := v\<rparr>}"
  | (upstream) "s' \<in> {s\<lparr>cf_Upstream := v\<rparr>, s\<lparr>cf_Upstream := ''127.0.0.1:'' @ v\<rparr>}"
  | (leak) n where "scan_range v 0 None = Some n" "s' = s\<lparr>cf_LeakIPs := n\<rparr>"
  | (cdn) "ValidCDN v" "v \<noteq> []" "v \<noteq> ''none''" "s' = s\<lparr>cf_CDN := v\<rparr>"
  | (no_cdn) "s' = s\<lparr>cf_CDN := [], cf_OnlyProxy := False\<rparr>"
  | (only) "\<not> (is_on v \<and> cf_CDN s = [])" "s' = s\<lparr>cf_OnlyProxy := is_on v\<rparr>"
  | (lock) n where "scan_range v 0 (Some 10000) = Some n" "s' = s\<lparr>cf_LockIPs := n\<rparr>"
  | (limit) "s' = s\<lparr>cf_NoIPLimit := \<not> is_on v\<rparr>"
  | (days) n where "scan_range v 1 (Some 7) = Some n" "s' = s\<lparr>cf_TokenDays := n\<rparr>"
  | (port) n where "scan_range v 1 (Some 65535) = Some n" "s' = s\<lparr>cf_Port := n\<rparr>"
  using assms
  by (simp only: set_value_def Let_def split: if_split_asm option.split_asm)
    (simp_all only: sum.inject sum.distinct insert_iff simp_thms)

lemma set_value_inv:
  assumes "set_value name v s = Inr s'" and "conf_inv s"
  shows "conf_inv s'"
  using assms(1)
proof (cases rule: set_value_cases)
  case cdn
  with assms(2) show ?thesis by (auto simp: conf_inv_def ValidCDN_def cdn_order_def)
next
  case no_cdn
  with assms(2) show ?thesis by (simp add: conf_inv_def cdn_order_def)
qed (use assms(2) in \<open>auto simp: conf_inv_def dest!: scan_range_Some\<close>)

lemma loopback_value_ok: "value_ok v \<Longrightarrow> value_ok (''127.0.0.1:'' @ v)"
proof -
  assume v: "value_ok v"
  then have "space_end v = 0" by (auto simp: value_ok_def trimmed_def)
  moreover have "barrier (CHR '':'')" by (simp add: barrier_def space_encodings_def)
  ultimately have "space_end (''127.0.0.1'' @ CHR '':'' # v) = 0"
    by (intro space_end_barrier)
  moreover have "space_at (''127.0.0.1'' @ CHR '':'' # v) = 0"
    by (simp add: space_at_plain plain_char_def)
  ultimately show ?thesis using v by (simp add: value_ok_def trimmed_def)
qed

lemma value_ok_Nil [simp]: "value_ok []"
  by (simp add: value_ok_def trimmed_def)

lemma set_value_ok:
  assumes "set_value name v s = Inr s'" and "settings_ok s" and "value_ok v"
  shows "settings_ok s'"
  using assms(1)
  by (cases rule: set_value_cases)
    (use assms(2,3) loopback_value_ok [OF assms(3)] in \<open>auto simp: settings_ok_def dest!: scan_range_Some\<close>)

lemma value_ok_TrimSpace: "newline \<notin> set v \<Longrightarrow> value_ok (TrimSpace v)"
  using set_TrimSpace [of v] by (auto simp: value_ok_def)

lemma SaveSettings_Load:
  assumes "SaveSettings e p s fs = (None, fs')" and "settings_ok s"
    and "p_Conf p \<noteq> e_tmp e" and "file_text fs (e_tmp e) = None" and "\<not> e_denied e (p_Conf p)"
  shows "LoadSettings U e p fs' = s \<and> file_text fs' = (file_text fs)(p_Conf p \<mapsto> settings_text s)"
proof -
  obtain fs1 where m: "MkdirAll e (p_Dir p) (perm 7 5 0) fs = Some fs1"
    and w: "writeAtomic e (p_Conf p) (settings_text s) (perm 6 4 0) fs1 = (True, fs')"
    using assms(1) by (auto simp: SaveSettings_def split: option.splits prod.splits bool.splits)
  note t1 = file_text_MkdirAll [OF m]
  have "file_text fs' = (file_text fs)(p_Conf p \<mapsto> settings_text s)"
    using writeAtomic_text [OF assms(3) _ w] assms(4) by (simp add: t1)
  then show ?thesis
    using assms(2,5) by (simp add: LoadSettings_def ReadFile_text parse_settings_text)
qed

lemma SaveSettings_error:
  assumes "SaveSettings e p s fs = (Some err, fs')"
    and "p_Conf p \<noteq> e_tmp e" and "file_text fs (e_tmp e) = None"
  shows "file_text fs' = file_text fs"
proof (cases "MkdirAll e (p_Dir p) (perm 7 5 0) fs")
  case None
  with assms(1) show ?thesis by (simp add: SaveSettings_def)
next
  case (Some fs1)
  with assms(1) have w: "writeAtomic e (p_Conf p) (settings_text s) (perm 6 4 0) fs1 = (False, fs')"
    by (auto simp: SaveSettings_def split: prod.splits bool.splits)
  show ?thesis
    using writeAtomic_text [OF assms(2) _ w] assms(3) file_text_MkdirAll [OF Some] by simp
qed

section \<open>Properties\<close>

text \<open>
  C24: Settings survive the file: what \<open>SaveSettings\<close> writes without an error, \<open>LoadSettings\<close>
  reads back unchanged, for any values without line breaks and without white space at the ends.
\<close>

theorem settings_round_trip:
  assumes "settings_ok s" and "p_Conf p \<noteq> e_tmp e" and "file_text fs (e_tmp e) = None"
    and "\<not> e_denied e (p_Conf p)" and "SaveSettings e p s fs = (None, fs')"
  shows "LoadSettings U e p fs' = s"
  using SaveSettings_Load [OF assms(5,1,2,3,4)] by simp


text \<open>
  A number with text after it is accepted and its tail dropped, although the error message
  asks for a whole number: \<open>oversee set leak-ips "12 per day"\<close> and \<open>oversee set port 80abc\<close> succeed.
\<close>

theorem set_accepts_trailing_text:
  "set_value ''leak-ips'' ''12 per day'' s = Inr (s\<lparr>cf_LeakIPs := 12\<rparr>) \<and>
   set_value ''port'' ''80abc'' s = Inr (s\<lparr>cf_Port := 80\<rparr>)"
proof -
  have "Sscanf_d ''12 per day'' = Some 12" "Sscanf_d ''80abc'' = Some 80"
    by (simp_all add: Sscanf_d_def skip_blanks_id space_at_plain plain_char_def Let_def digit_val_def
        ParseUint10_def int64_option_def int64_def)
  then show ?thesis by (simp add: set_value_def scan_range_def)
qed

text \<open>Witnesses.\<close>

definition wit_paths :: paths where
  "wit_paths = DefaultPaths []"

lemma wit_conf: "p_Conf wit_paths = ''/etc/oversea/gate.conf''"
  by (simp add: wit_paths_def DefaultPaths_def JoinPath_def Let_def Clean_def)

lemma wit_conf_free:
  "p_Conf wit_paths \<noteq> e_tmp wit_env" "file_text wit_fs (e_tmp wit_env) = None"
  "\<not> e_denied wit_env (p_Conf wit_paths)"
  by (simp_all add: wit_conf) (simp_all add: wit_env_def wit_fs_def file_text_def)

lemma wit_load: "LoadSettings U wit_env wit_paths wit_fs = DefaultSettings"
  by (simp add: LoadSettings_def ReadFile_def wit_conf) (simp add: wit_env_def wit_fs_def)

lemma Default_ok: "settings_ok DefaultSettings" "conf_inv DefaultSettings"
  by (simp_all add: settings_ok_def DefaultSettings_def value_ok_def trimmed_def space_at_plain
      plain_char_def space_end_0 space_encodings_def HasSuffix_def int64_def conf_inv_def cdn_order_def)

lemma Save_ok: "e_fault e = NoFault \<Longrightarrow> \<not> e_mkdir_fails e \<Longrightarrow> fst (SaveSettings e p s fs) = None"
proof -
  assume e: "e_fault e = NoFault" "\<not> e_mkdir_fails e"
  then obtain fs1 where "MkdirAll e (p_Dir p) (perm 7 5 0) fs = Some fs1"
    by (cases "lookup (fs_dirs fs) (p_Dir p)") (auto simp: MkdirAll_def)
  moreover have "fst (writeAtomic e (p_Conf p) (settings_text s) (perm 6 4 0) fs1)"
    using e by (simp add: writeAtomic_ok)
  ultimately show ?thesis
    by (auto simp: SaveSettings_def split: prod.splits bool.splits)
qed

lemma wit_env_simps: "e_fault wit_env = NoFault" "\<not> e_mkdir_fails wit_env"
  by (simp_all add: wit_env_def)

theorem settings_round_trip_witness:
  "LoadSettings wit_unicode wit_env wit_paths
     (snd (SaveSettings wit_env wit_paths DefaultSettings wit_fs)) = DefaultSettings"
  by (rule settings_round_trip [OF Default_ok(1) wit_conf_free])
    (metis Save_ok wit_env_simps prod.collapse)


end
