(* ===== verification/Oversee_Snippet.thy ===== *)
theory Oversee_Snippet
  imports Lock_Blob Oversee_Settings
begin

text \<open>
  \<open>server/internal/oversee/snippet.go\<close> and \<open>RandomHex\<close> of \<open>oversee.go\<close>: the Xray inbound and the client link
  that the tool prints, and random identifiers.  Random bytes are an argument.  The lemmas show the form
  of a UUID and that the server's own parser of links reads the printed link.
\<close>

section \<open>Identifiers\<close>

text \<open>\<open>random\<close> is what \<open>rand.Read\<close> put into the buffer.\<close>

definition RandomHex :: "string \<Rightarrow> string" where
  "RandomHex random = EncodeHex random"

definition NewUUID :: "string \<Rightarrow> string" where
  "NewUUID random =
     (let h = RandomHex random;
          b = h[12 := CHR ''4''];
          b = b[16 := ''89ab'' ! ((of_char (b ! 16) :: nat) mod 4)]
      in take 8 b @ ''-'' @ take 4 (drop 8 b) @ ''-'' @ take 4 (drop 12 b) @ ''-'' @
         take 4 (drop 16 b) @ ''-'' @ take 12 (drop 20 b))"

section \<open>The inbound and the link\<close>

definition quote :: string where
  "quote = [CHR 0x22]"

definition XrayInbound :: "int \<Rightarrow> string \<Rightarrow> string \<Rightarrow> string" where
  "XrayInbound port path uuid =
     Join [''{'',
       ''  '' @ quote @ ''inbounds'' @ quote @ '': [{'',
       ''    '' @ quote @ ''listen'' @ quote @ '': '' @ quote @ ''127.0.0.1'' @ quote @ '','',
       ''    '' @ quote @ ''port'' @ quote @ '': '' @ FormatInt port @ '','',
       ''    '' @ quote @ ''protocol'' @ quote @ '': '' @ quote @ ''vless'' @ quote @ '','',
       ''    '' @ quote @ ''settings'' @ quote @ '': { '' @ quote @ ''clients'' @ quote @ '': [{ '' @ quote @ ''id'' @
         quote @ '': '' @ quote @ uuid @ quote @ '' }], '' @ quote @ ''decryption'' @ quote @ '': '' @ quote @
         ''none'' @ quote @ '' },'',
       ''    '' @ quote @ ''streamSettings'' @ quote @ '': { '' @ quote @ ''network'' @ quote @ '': '' @ quote @ ''ws'' @
         quote @ '', '' @ quote @ ''wsSettings'' @ quote @ '': { '' @ quote @ ''path'' @ quote @ '': '' @ quote @ path @
         quote @ '' } }'',
       ''  }]'',
       ''}''] [newline]"

text \<open>
  The number of bytes of the UTF-8 encoding at the front of a string, 0 when there is none there (\<open>range\<close>
  then gives U+FFFD and goes on one byte later).
\<close>

definition cont_in :: "nat \<Rightarrow> nat \<Rightarrow> string \<Rightarrow> nat \<Rightarrow> bool" where
  "cont_in lo hi s i \<longleftrightarrow> i < length s \<and> lo \<le> of_char (s ! i) \<and> of_char (s ! i) \<le> hi"

definition rune_width :: "string \<Rightarrow> nat" where
  "rune_width s =
     (if s = [] then 0
      else
        (let c = (of_char (hd s) :: nat);
             lo = (if c = 224 then 160 else if c = 240 then 144 else 128);
             hi = (if c = 237 then 159 else if c = 244 then 143 else 191)
         in if c < 128 then 1
            else if 194 \<le> c \<and> c \<le> 223 \<and> cont_in lo hi s 1 then 2
            else if 224 \<le> c \<and> c \<le> 239 \<and> cont_in lo hi s 1 \<and> cont_in 128 191 s 2 then 3
            else if 240 \<le> c \<and> c \<le> 244 \<and> cont_in lo hi s 1 \<and> cont_in 128 191 s 2 \<and> cont_in 128 191 s 3 then 4
            else 0))"

definition replacement :: string where
  "replacement = [CHR 0xEF, CHR 0xBF, CHR 0xBD]"

function urlEscape :: "string \<Rightarrow> string" where
  "urlEscape p =
     (if p = [] then []
      else if hd p = CHR ''/'' then ''%2F'' @ urlEscape (tl p)
      else if rune_width p = 0 then replacement @ urlEscape (tl p)
      else take (rune_width p) p @ urlEscape (drop (rune_width p) p))"
  by pat_completeness auto
termination
  by (relation "measure length") auto

declare urlEscape.simps [simp del]

definition ClientLink :: "string \<Rightarrow> int \<Rightarrow> bool \<Rightarrow> string \<Rightarrow> string \<Rightarrow> string \<Rightarrow> string" where
  "ClientLink domain0 port tls path uuid name =
     (let domain = (if domain0 = [] then ''YOUR.DOMAIN'' else domain0);
          sec = (if tls then ''tls'' else ''none'');
          sni = (if tls then ''&sni='' @ domain else [])
      in ''vless://'' @ uuid @ ''@'' @ domain @ '':'' @ FormatInt port @ ''?encryption=none&security='' @ sec @ sni @
         ''&type=ws&host='' @ domain @ ''&path='' @ urlEscape path @ ''#'' @ name)"

section \<open>The form of a UUID\<close>

definition is_uuid4 :: "string \<Rightarrow> bool" where
  "is_uuid4 u =
     (case Split u (CHR ''-'') of
        [a, b, c, d, e] \<Rightarrow>
          map length [a, b, c, d, e] = [8, 4, 4, 4, 12] \<and> set (concat [a, b, c, d, e]) \<subseteq> set hex_digits \<and>
          hd c = CHR ''4'' \<and> hd d \<in> set ''89ab''
      | _ \<Rightarrow> False)"

text \<open>
  C40: From any 16 random bytes, \<open>NewUUID\<close> makes a version 4 UUID: five groups of 8, 4, 4, 4 and 12
  hexadecimal digits, the third starting with 4 and the fourth with 8, 9, a or b.
\<close>

theorem NewUUID_form:
  assumes "length random = 16"
  shows "is_uuid4 (NewUUID random)"
proof -
  define h where "h = EncodeHex random"
  define b where "b = h[12 := CHR ''4'', 16 := ''89ab'' ! ((of_char (h[12 := CHR ''4''] ! 16) :: nat) mod 4)]"
  define ws where "ws = [take 8 b, take 4 (drop 8 b), take 4 (drop 12 b), take 4 (drop 16 b), take 12 (drop 20 b)]"
  have len: "length b = 32" using assms by (simp add: b_def h_def)
  have digit: "''89ab'' ! (n mod 4) \<in> set ''89ab''" for n :: nat
    by (rule nth_mem) simp
  have "set ''89ab'' \<subseteq> set hex_digits" by (simp add: hex_digits_def)
  with digit have "''89ab'' ! (n mod 4) \<in> set hex_digits" for n by blast
  then have hex: "set b \<subseteq> set hex_digits"
    unfolding b_def using EncodeHex_set [of random]
    by (intro set_update_subsetI) (simp_all add: h_def hex_digits_def)
  have sub: "set w \<subseteq> set b" if "w \<in> set ws" for w
    using that by (auto simp: ws_def dest!: in_set_takeD in_set_dropD)
  have dash: "CHR ''-'' \<notin> set hex_digits" by (simp add: hex_digits_def)
  have "NewUUID random = Join ws ''-''"
    by (simp add: NewUUID_def RandomHex_def Let_def ws_def b_def h_def)
  also have "Split \<dots> (CHR ''-'') = ws"
    using sub hex dash by (intro Split_Join) (auto simp: ws_def)
  finally have split: "Split (NewUUID random) (CHR ''-'') = ws" .
  have "b ! 12 = CHR ''4''" "b ! 16 \<in> set ''89ab''"
    using assms digit by (simp_all add: b_def h_def)
  then have heads: "hd (take 4 (drop 12 b)) = CHR ''4''" "hd (take 4 (drop 16 b)) \<in> set ''89ab''"
    using len by (simp_all add: hd_drop_conv_nth)
  have "set (concat ws) \<subseteq> set hex_digits" using sub hex by auto
  with heads len show ?thesis by (simp add: is_uuid4_def split ws_def)
qed

theorem NewUUID_form_witness: "is_uuid4 (NewUUID (replicate 16 (CHR ''x'')))"
  by (rule NewUUID_form) simp

section \<open>The link as the server reads it\<close>

lemma set_urlEscape: "set (urlEscape p) \<subseteq> set p \<union> set (''%2F'' @ replacement)"
proof (induction p rule: urlEscape.induct)
  case (1 p)
  have tl: "set (tl p) \<subseteq> set p" by (cases p) auto
  show ?case
    using 1 tl set_take_subset [of "rune_width p" p] set_drop_subset [of "rune_width p" p]
    by (subst urlEscape.simps) (auto 0 3)
qed

definition host_text :: "string \<Rightarrow> bool" where
  "host_text d \<longleftrightarrow> d \<noteq> [] \<and> list_all (\<lambda>c. c \<notin> set ''?#@/:'') d"

lemma takeWhile_stop_either:
  "a \<notin> set xs \<Longrightarrow> b \<notin> set xs \<Longrightarrow> takeWhile (\<lambda>c. c \<noteq> a \<and> c \<noteq> b) (xs @ a # ys) = xs"
  by (induction xs) auto

lemma before_last_append: "c \<notin> set v \<Longrightarrow> before_last c (u @ c # v) = u \<and> after_last c (u @ c # v) = v"
  by (simp add: before_last_def after_last_def before_append after_append)

lemma Contains_single: "Contains s [c] \<longleftrightarrow> c \<in> set s"
  by (induction s) (auto simp: Contains_def HasPrefix_def)

lemma avoid: "list_all (\<lambda>c. c \<notin> set bad) w \<Longrightarrow> x \<in> set bad \<Longrightarrow> x \<notin> set w"
  unfolding list_all_iff by blast

lemma config_title_link:
  assumes "CHR ''#'' \<notin> set w" and "trimmed name" and "name \<noteq> []"
  shows "config_title (w @ CHR ''#'' # name) = name"
  using after_append [OF assms(1), of name] assms(2,3) by (simp add: config_title_def TrimSpace_id)

lemma config_host_link:
  assumes d: "domain \<noteq> []" "list_all (\<lambda>c. c \<notin> set ''?#@/:'') domain" and uuid: "list_all (\<lambda>c. c \<notin> set ''?#@/'') uuid"
    and port: "list_all (\<lambda>c. c \<notin> set ''?#@/:['') port"
    and raw: "raw = ''vless://'' @ uuid @ CHR ''@'' # domain @ CHR '':'' # port @ CHR ''?'' # rest"
  shows "config_host raw = domain"
proof -
  define addr where "addr = domain @ CHR '':'' # port"
  have no: "x \<notin> set addr" if "x \<in> set ''?#@/''" for x
    using that avoid [OF d(2), of x] avoid [OF port, of x] by (auto simp: addr_def)
  have q: "CHR ''?'' \<notin> set (uuid @ CHR ''@'' # addr)" "CHR ''#'' \<notin> set (uuid @ CHR ''@'' # addr)"
    using avoid [OF uuid] no by simp_all
  have "drop 8 raw = (uuid @ CHR ''@'' # addr) @ CHR ''?'' # rest" by (simp add: raw addr_def)
  then have cut: "takeWhile (\<lambda>c. c \<noteq> CHR ''?'' \<and> c \<noteq> CHR ''#'') (drop 8 raw) = uuid @ CHR ''@'' # addr"
    by (simp only: takeWhile_stop_either [OF q])
  have user: "after (CHR ''@'') (uuid @ CHR ''@'' # addr) = addr"
    using avoid [OF uuid] by (intro after_append) simp
  have slash: "before (CHR ''/'') addr = addr" by (rule before_none) (rule no, simp)
  have colon: "before_last (CHR '':'') addr = domain" "after_last (CHR '':'') addr = port"
    using avoid [OF port] before_last_append [of "CHR '':''" port domain] by (simp_all add: addr_def)
  have "Index raw ''://'' = Some 5" by (simp add: raw)
  moreover have "\<not> Contains (CHR '':'' # port) ''[''" using avoid [OF port] by (simp add: Contains_single)
  moreover have "CHR '':'' \<in> set addr" by (simp add: addr_def)
  ultimately show ?thesis using d(1) by (simp add: config_host_def cut user slash colon Let_def)
qed

text \<open>
  C38: The link that the Setup tab prints is read back by the server's own parser of shared configs:
  protocol vless, the host without port or user, and the name as title.
\<close>

theorem client_link_metadata:
  assumes "host_text domain" and "list_all (\<lambda>c. c \<notin> set ''?#@/'') uuid" and "CHR ''#'' \<notin> set path"
    and "trimmed name" and "name \<noteq> []"
  shows "ParseConfigMeta U (ClientLink domain port tls path uuid name) =
    \<lparr>cm_Protocol = ''vless'', cm_Title = name, cm_Host = domain\<rparr>"
proof -
  have d: "domain \<noteq> []" "list_all (\<lambda>c. c \<notin> set ''?#@/:'') domain" using assms(1) by (auto simp: host_text_def)
  define args where "args = ''encryption=none&security='' @ (if tls then ''tls'' else ''none'') @
    (if tls then ''&sni='' @ domain else []) @ ''&type=ws&host='' @ domain @ ''&path='' @ urlEscape path"
  define raw where "raw = ''vless://'' @ uuid @ CHR ''@'' # domain @ CHR '':'' # FormatInt port @ CHR ''?'' # args @ CHR ''#'' # name"
  define front where "front = ''vless://'' @ uuid @ CHR ''@'' # domain @ CHR '':'' # FormatInt port @ CHR ''?'' # args"
  have raw: "raw = front @ CHR ''#'' # name" by (simp add: raw_def front_def)
  have link: "ClientLink domain port tls path uuid name = raw"
    using d(1) by (simp add: ClientLink_def raw_def args_def Let_def)
  have num: "list_all (\<lambda>c. c \<notin> set ''?#@/:['') (FormatInt port)"
    using FormatInt_set [of port] by (auto simp: list_all_iff)
  have "CHR ''#'' \<notin> set args"
    using d(2) assms(3) set_urlEscape [of path] by (auto simp: args_def list_all_iff replacement_def)
  then have no_hash: "CHR ''#'' \<notin> set front"
    using avoid [OF assms(2)] avoid [OF d(2)] avoid [OF num] by (simp add: front_def)
  have "barrier (CHR ''#'')" by (simp add: barrier_def space_encodings_def)
  then have "space_end raw = 0"
    using assms(4,5) space_end_barrier [of "CHR ''#''" name front] by (simp add: trimmed_def raw)
  then have trim: "TrimSpace raw = raw"
    by (intro TrimSpace_id) (simp add: trimmed_def raw_def space_at_plain plain_char_def)
  have "Index raw ''://'' = Some 5" "take 5 raw = ''vless''" by (simp_all add: raw_def)
  then have proto: "config_protocol U raw = ''vless''"
    by (simp add: config_protocol_def numeral_eq_Suc ToLower_def ascii_def lower_char_def)
  have title: "config_title raw = name" unfolding raw by (rule config_title_link [OF no_hash assms(4,5)])
  have host: "config_host raw = domain" by (rule config_host_link [OF d assms(2) num raw_def])
  show ?thesis by (simp add: ParseConfigMeta_def link trim proto title host)
qed

theorem client_link_metadata_witness:
  "ParseConfigMeta wit_unicode (ClientLink ''vpn.example.com'' 443 True ''/ab12'' ''uuid'' ''my-server'') =
     \<lparr>cm_Protocol = ''vless'', cm_Title = ''my-server'', cm_Host = ''vpn.example.com''\<rparr>"
proof (rule client_link_metadata)
  show "trimmed ''my-server''" by (intro trimmed_spaceless spaceless_plain) (simp add: plain_char_def)
qed (simp_all add: host_text_def)

end
