(* ===== verification/Oversee_Locks.thy ===== *)
theory Oversee_Locks
  imports Oversee_Settings "HOL-Library.List_Lexorder" "HOL-Library.Char_ord"
    "HOL-Library.Product_Lexorder"
begin

text \<open>
  The allow-list commands of the server tool (\<open>server/internal/oversee/oversee.go\<close>: \<open>Locks\<close>,
  \<open>parseLine\<close>, \<open>AddLock\<close>, \<open>RevokeLock\<close>, \<open>SortLocks\<close>) and the app-key commands (\<open>ListKeys\<close>,
  \<open>AddKey\<close>, \<open>RemoveKey\<close>, \<open>MaskKey\<close>).  The lemmas show that these edits of a text file are the
  updates of the map and of the key list that the gate reads from it.
\<close>

section \<open>Locks\<close>

record lock =
  lk_CodeID :: string
  lk_Code :: string
  lk_CreatorFp :: string
  lk_Note :: string

definition lock_of :: "entry \<Rightarrow> lock" where
  "lock_of e = \<lparr>lk_CodeID = CodeID (Code e), lk_Code = Code e, lk_CreatorFp = CreatorFp e,
     lk_Note = Note e\<rparr>"

definition parseLine :: "unicode \<Rightarrow> string \<Rightarrow> entry option" where
  "parseLine U l =
     (case ParseAllowList U l of
        Inl _ \<Rightarrow> None
      | Inr m \<Rightarrow> (case m of [(_, e)] \<Rightarrow> Some e | _ \<Rightarrow> None))"

definition Locks :: "unicode \<Rightarrow> env \<Rightarrow> paths \<Rightarrow> fsys \<Rightarrow> read_error + lock list" where
  "Locks U e p fs =
     (case readLines e (p_Allow p) fs of
        Inl err \<Rightarrow> Inl err
      | Inr ls \<Rightarrow> Inr (map lock_of (List.map_filter (parseLine U) ls)))"

definition noteSuffix :: "string \<Rightarrow> string" where
  "noteSuffix n = (if n = [] then [] else '' '' @ n)"

definition entry_text :: "entry \<Rightarrow> string" where
  "entry_text en = Code en @ '' '' @ CreatorFp en @ noteSuffix (Note en)"

text \<open>Does a line of the file hold this code id?\<close>

definition holds_id :: "unicode \<Rightarrow> string \<Rightarrow> string \<Rightarrow> bool" where
  "holds_id U lid l = (case parseLine U l of None \<Rightarrow> False | Some x \<Rightarrow> CodeID (Code x) = lid)"

definition AddLock ::
  "unicode \<Rightarrow> env \<Rightarrow> paths \<Rightarrow> string \<Rightarrow> fsys \<Rightarrow> (tool_error + lock) \<times> fsys" where
  "AddLock U e p line0 fs =
     (let line = TrimSpace line0
      in case parseLine U line of
           None \<Rightarrow> (Inl BadLine, fs)
         | Some en \<Rightarrow>
             (case MkdirAll e (p_Dir p) (perm 7 5 0) fs of
                None \<Rightarrow> (Inl MkdirFailed, fs)
              | Some fs1 \<Rightarrow>
                  (case readLines e (p_Allow p) fs1 of
                     Inl _ \<Rightarrow> (Inl ReadFailed, fs1)
                   | Inr ls \<Rightarrow>
                       (let lid = CodeID (Code en);
                            kept = filter (\<lambda>l. \<not> holds_id U lid l) ls @ [entry_text en]
                        in case writeAtomic e (p_Allow p) (Join kept [newline] @ [newline])
                               (perm 6 4 0) fs1 of
                             (True, fs2) \<Rightarrow> (Inr (lock_of en), fs2)
                           | (False, fs2) \<Rightarrow> (Inl WriteFailed, fs2)))))"

definition matches_prefix :: "unicode \<Rightarrow> string \<Rightarrow> string \<Rightarrow> bool" where
  "matches_prefix U pre l =
     (case parseLine U l of
        None \<Rightarrow> False
      | Some x \<Rightarrow> HasPrefix (CodeID (Code x)) pre \<or> HasPrefix (Code x) pre)"

definition RevokeLock ::
  "unicode \<Rightarrow> env \<Rightarrow> paths \<Rightarrow> string \<Rightarrow> fsys \<Rightarrow> (tool_error + lock) \<times> fsys" where
  "RevokeLock U e p prefix0 fs =
     (let pre = ToLower U (TrimSpace prefix0)
      in if length pre < 4 then (Inl PrefixTooShort, fs)
         else (case readLines e (p_Allow p) fs of
             Inl _ \<Rightarrow> (Inl ReadFailed, fs)
           | Inr ls \<Rightarrow>
               (case filter (\<lambda>i. matches_prefix U pre (ls ! i)) [0 ..< length ls] of
                  [] \<Rightarrow> (Inl NoLockMatches, fs)
                | [i] \<Rightarrow>
                    (let kept = take i ls @ drop (Suc i) ls;
                         body = Join kept [newline];
                         body = (if body \<noteq> [] then body @ [newline] else body)
                     in case (parseLine U (ls ! i), writeAtomic e (p_Allow p) body (perm 6 4 0) fs) of
                          (Some x, True, fs2) \<Rightarrow> (Inr (lock_of x), fs2)
                        | (_, _, fs2) \<Rightarrow> (Inl WriteFailed, fs2))
                | _ \<Rightarrow> (Inl AmbiguousPrefix, fs))))"

text \<open>\<open>sort.Slice\<close> by note, then id (locks that agree in both are equal up to the fingerprint).\<close>

definition SortLocks :: "lock list \<Rightarrow> lock list" where
  "SortLocks ls = sort_key (\<lambda>l. (lk_Note l, lk_CodeID l)) ls"

section \<open>App keys\<close>

definition ListKeys :: "env \<Rightarrow> paths \<Rightarrow> fsys \<Rightarrow> read_error + string list" where
  "ListKeys e p fs =
     (case readLines e (p_Keys p) fs of
        Inl err \<Rightarrow> Inl err
      | Inr ls \<Rightarrow> Inr (key_lines ls))"

definition keys_header :: string where
  "keys_header = ''# app keys, newest first. Keep the previous one until old app builds age out.''"

definition writeKeys :: "env \<Rightarrow> paths \<Rightarrow> string list \<Rightarrow> fsys \<Rightarrow> tool_error option \<times> fsys" where
  "writeKeys e p ks fs =
     (case MkdirAll e (p_Dir p) (perm 7 5 0) fs of
        None \<Rightarrow> (Some MkdirFailed, fs)
      | Some fs1 \<Rightarrow>
          (case writeAtomic e (p_Keys p)
               (keys_header @ [newline] @ Join ks [newline] @ [newline]) (perm 6 4 0) fs1 of
             (True, fs2) \<Rightarrow> (None, fs2)
           | (False, fs2) \<Rightarrow> (Some WriteFailed, fs2)))"

definition AddKey :: "env \<Rightarrow> paths \<Rightarrow> string \<Rightarrow> fsys \<Rightarrow> tool_error option \<times> fsys" where
  "AddKey e p key0 fs =
     (let key = TrimSpace key0
      in if length key < 8 \<or> ContainsAny key [CHR '' '', CHR 0x09, CHR ''#''] then (Some BadKey, fs)
         else (case ListKeys e p fs of
             Inl _ \<Rightarrow> (Some ReadFailed, fs)
           | Inr cur \<Rightarrow> writeKeys e p (key # filter (\<lambda>k. k \<noteq> key) cur) fs))"

definition RemoveKey :: "env \<Rightarrow> paths \<Rightarrow> int \<Rightarrow> fsys \<Rightarrow> tool_error option \<times> fsys" where
  "RemoveKey e p index fs =
     (case ListKeys e p fs of
        Inl _ \<Rightarrow> (Some ReadFailed, fs)
      | Inr cur \<Rightarrow>
          if index < 0 \<or> index \<ge> int (length cur) then (Some NoSuchKey, fs)
          else writeKeys e p (take (nat index) cur @ drop (nat index + 1) cur) fs)"

text \<open>The bullet is U+2022 in UTF-8.\<close>

definition bullet :: string where
  "bullet = [CHR 0xE2, CHR 0x80, CHR 0xA2]"

definition MaskKey :: "string \<Rightarrow> string" where
  "MaskKey k =
     (if length k \<le> 6 then Repeat bullet (length k)
      else Repeat bullet 8 @ drop (length k - 4) k)"

section \<open>One line\<close>

lemma raw_lines_one: "newline \<notin> set l \<Longrightarrow> raw_lines l = (if l = [] then [] else [l])"
  by (simp add: raw_lines_def Split_no_sep Let_def)

lemma parseLine_one:
  assumes "newline \<notin> set l" and "length l < max_token"
  shows "parseLine U l = (case allow_line_of U l of Good en \<Rightarrow> Some en | _ \<Rightarrow> None)"
proof -
  have "fits l" using assms by (simp add: fits_def raw_lines_one)
  then have "ParseAllowList U l =
      (case allow_lines U 0 (raw_lines l) [] of Inl x \<Rightarrow> Inl x | Inr m \<Rightarrow> Inr m)"
    by (simp add: ParseAllowList_def ScanLines_fits allow_lines_map_cr split: sum.splits)
  then show ?thesis
    using assms(1) by (auto simp: parseLine_def raw_lines_one put_def split: allow_line.splits)
qed

lemma parseLine_line:
  assumes "parseLine U s = Some en"
  shows "\<exists>l \<in> set (raw_lines s). allow_line_of U l = Good en \<and> length l < max_token"
proof -
  from assms obtain lid where p: "ParseAllowList U s = Inr [(lid, en)]"
    by (auto simp: parseLine_def split: sum.splits list.splits)
  then have f: "fits s" and m: "[(lid, en)] = fold put_entry (good_entries U (raw_lines s)) []"
    by (simp_all add: ParseAllowList_Inr)
  have "lookup (fold put_entry (good_entries U (raw_lines s)) []) lid = Some en"
    by (simp flip: m)
  then have "find (\<lambda>e. CodeID (Code e) = lid) (rev (good_entries U (raw_lines s))) = Some en"
    by (auto simp: lookup_fold_put split: option.splits)
  then have "en \<in> set (rev (good_entries U (raw_lines s)))"
    using find_SomeD by metis
  then have "\<exists>l \<in> set (raw_lines s). allow_line_of U l = Good en"
  proof -
    have "en \<in> set (good_entries U ls) \<Longrightarrow> \<exists>l \<in> set ls. allow_line_of U l = Good en" for ls
      by (induction ls) (auto split: allow_line.splits)
    with \<open>en \<in> set (rev (good_entries U (raw_lines s)))\<close> show ?thesis by simp
  qed
  with f show ?thesis by (auto simp: fits_def list_all_iff)
qed

section \<open>The line of an entry reads back as the entry\<close>

lemma length_Join_Fields:
  "length (Join (Fields s) '' '') \<le> length s \<and>
     (0 < space_at s \<longrightarrow> length (Join (Fields s) '' '') < length s \<or> s = [])"
proof (induction s rule: Fields.induct)
  case (1 s)
  consider "s = []" | "s \<noteq> []" "0 < space_at s" | "s \<noteq> []" "space_at s = 0" by auto
  then show ?case
  proof cases
    case 1
    then show ?thesis by (simp add: Fields.simps)
  next
    case 2
    then have F: "Fields s = Fields (drop (space_at s) s)" by (simp add: Fields.simps [of s])
    from 2 "1.IH"(1) have "length (Join (Fields s) '' '') \<le> length s - space_at s"
      by (simp add: F)
    with 2 show ?thesis by (cases s) (auto intro: le_trans)
  next
    case 3
    obtain w r where wr: "take_word s = (w, r)" by (cases "take_word s")
    then have s: "s = w @ r" using take_word_append [of s] by simp
    have F: "Fields s = w # Fields r" using 3 by (simp add: Fields.simps [of s] wr)
    have r: "r = [] \<or> 0 < space_at r"
      using wr
    proof (induction s arbitrary: w)
      case (Cons c s)
      then show ?case by (auto split: if_splits prod.splits)
    qed simp
    have IH: "length (Join (Fields r) '' '') \<le> length r \<and>
        (0 < space_at r \<longrightarrow> length (Join (Fields r) '' '') < length r \<or> r = [])"
      using "1.IH"(2) 3 by (simp add: wr)
    show ?thesis
    proof (cases "Fields r = []")
      case True
      with F have "Join (Fields s) '' '' = w" by simp
      with 3 s show ?thesis by simp
    next
      case False
      then have "r \<noteq> []" by (intro notI) (simp add: Fields.simps [of "[]"])
      with IH r have "length (Join (Fields r) '' '') < length r" by auto
      moreover have "length (Join (Fields s) '' '') = length w + 1 + length (Join (Fields r) '' '')"
        by (simp only: F Join_Cons [OF False]) simp
      moreover have "length s = length w + length r" by (simp only: s length_append)
      ultimately show ?thesis using 3(2) by linarith
    qed
  qed
qed

lemma Join_Nil_iff: "\<forall>w \<in> set ws. w \<noteq> [] \<Longrightarrow> Join ws sep = [] \<longleftrightarrow> ws = []"
proof (cases ws)
  case (Cons w vs)
  assume "\<forall>w \<in> set ws. w \<noteq> []"
  with Cons show ?thesis by (cases "vs = []") (simp_all add: Join_Cons)
qed simp

lemma length_Join: "length ws = length vs \<Longrightarrow> map length ws = map length vs \<Longrightarrow>
    length (Join ws sep) = length (Join vs sep)"
proof (induction ws vs rule: list_induct2)
  case (Cons w ws v vs)
  then show ?case by (cases "ws = []"; cases "vs = []") (auto simp: Join_Cons)
qed simp

lemma Join_no_char: "d \<notin> set sep \<Longrightarrow> \<forall>w \<in> set ws. d \<notin> set w \<Longrightarrow> d \<notin> set (Join ws sep)"
proof (induction ws)
  case (Cons w ws)
  then show ?case by (cases "ws = []") (simp_all add: Join_Cons)
qed simp

lemma ascii_sub: "ascii s \<Longrightarrow> set w \<subseteq> set s \<Longrightarrow> ascii w"
  by (auto simp: ascii_def list_all_iff)

lemma set_strip_comment: "set (strip_comment l) \<subseteq> set l"
proof -
  have "set (before c t) \<subseteq> set t" for c t
    by (auto simp: before_def dest: set_takeWhileD)
  then show ?thesis
    using set_TrimSpace [of l] set_TrimSpace [of "before (CHR ''#'') (TrimSpace l)"]
    unfolding strip_comment_def Let_def by (auto simp: subset_iff)
qed

lemma length_before: "length (before c t) \<le> length t"
  by (simp add: before_def length_takeWhile_le)

lemma length_strip_comment: "length (strip_comment l) \<le> length l"
proof -
  let ?t = "TrimSpace l"
  have "length (TrimSpace (before (CHR ''#'') ?t)) \<le> length ?t"
    by (rule le_trans [OF length_TrimSpace length_before])
  then show ?thesis
    using length_TrimSpace [of l] by (simp add: strip_comment_def Let_def)
qed

lemma strip_comment_no_hash: "CHR ''#'' \<notin> set (strip_comment l)"
proof -
  have "CHR ''#'' \<notin> set (TrimSpace (before (CHR ''#'') t))" for t
    using set_TrimSpace [of "before (CHR ''#'') t"] before_no_sep [of "CHR ''#''" t] by blast
  then show ?thesis by (simp add: strip_comment_def Let_def)
qed

lemma strip_comment_id: "trimmed l \<Longrightarrow> CHR ''#'' \<notin> set l \<Longrightarrow> strip_comment l = l"
  by (simp add: strip_comment_def Let_def TrimSpace_id)

lemma Good_fields:
  assumes "allow_line_of U l = Good en"
  obtains f1 rest where "Fields (strip_comment l) = Code en # f1 # rest" and "length (Code en) = 32"
    and "isHex (Code en)" and "CreatorFp en = ToUpper U f1" and "Note en = Join rest '' ''"
  using assms by (auto simp: allow_line_of_def Let_def split: if_splits list.splits)

lemma set_ToUpper_char:
  "ascii f \<Longrightarrow> (of_char d :: nat) < 65 \<Longrightarrow> d \<notin> set f \<Longrightarrow> d \<notin> set (ToUpper U f)"
  by (auto simp: ToUpper_def upper_char_ne eq_commute [of d])

lemma length_ToUpper: "ascii f \<Longrightarrow> length (ToUpper U f) = length f"
  by (simp add: ToUpper_def)

lemma entry_line:
  assumes "allow_line_of U l = Good en" and "ascii l"
  shows "allow_line_of U (entry_text en) = Good en" and "length (entry_text en) \<le> length l"
    and "newline \<notin> set (entry_text en)"
proof -
  from assms(1) obtain f1 rest where F: "Fields (strip_comment l) = Code en # f1 # rest"
    and c: "length (Code en) = 32" "isHex (Code en)" and fp: "CreatorFp en = ToUpper U f1"
    and nt: "Note en = Join rest '' ''"
    by (rule Good_fields)
  let ?ws = "Code en # ToUpper U f1 # rest"
  have in_l: "w \<in> set (Code en # f1 # rest) \<Longrightarrow> set w \<subseteq> set (strip_comment l)" for w
    using set_Fields [of w "strip_comment l"] F by simp
  have asc: "w \<in> set (Code en # f1 # rest) \<Longrightarrow> ascii w" for w
    using in_l set_strip_comment [of l] ascii_sub [OF assms(2)] by blast
  have word: "w \<in> set (Code en # f1 # rest) \<Longrightarrow> w \<noteq> [] \<and> spaceless w" for w
    using Fields_spaceless [of w "strip_comment l"] F by simp
  have up: "ToUpper U f1 \<noteq> [] \<and> spaceless (ToUpper U f1)"
    using word [of f1] asc [of f1] length_ToUpper [of f1 U] by (auto simp: spaceless_ToUpper)
  have words: "\<forall>w \<in> set ?ws. w \<noteq> [] \<and> spaceless w" using word up by simp
  have rest: "noteSuffix (Note en) = (if rest = [] then [] else '' '' @ Join rest '' '')"
    using word by (auto simp: noteSuffix_def nt Join_Nil_iff)
  then have tx: "entry_text en = Join ?ws '' ''"
    by (cases "rest = []") (simp_all add: entry_text_def fp Join_Cons)
  have no: "d \<notin> set (entry_text en)"
    if d: "(of_char d :: nat) < 65" "d \<noteq> CHR '' ''" "d \<notin> set (strip_comment l)" for d
  proof -
    have "\<forall>w \<in> set ?ws. d \<notin> set w"
      using in_l d asc [of f1] set_ToUpper_char [of f1 d] by auto
    then show ?thesis unfolding tx using d(2) by (intro Join_no_char) simp_all
  qed
  have "entry_text en \<noteq> []" using c(1) by (auto simp: entry_text_def)
  moreover have "Fields (entry_text en) = ?ws" unfolding tx by (rule Fields_Join) (rule words)
  moreover have "strip_comment (entry_text en) = entry_text en"
  proof (rule strip_comment_id)
    show "trimmed (entry_text en)" unfolding tx by (rule trimmed_Join) (rule words)
    show "CHR ''#'' \<notin> set (entry_text en)" by (rule no) (simp_all add: strip_comment_no_hash)
  qed
  moreover have "ToUpper U (ToUpper U f1) = ToUpper U f1" using asc [of f1] by (simp add: ToUpper_idem)
  ultimately show "allow_line_of U (entry_text en) = Good en"
    using c by (simp add: allow_line_of_def fp [symmetric] nt [symmetric])
  have "length (entry_text en) = length (Join (Fields (strip_comment l)) '' '')"
    unfolding tx F by (rule length_Join) (simp_all add: length_ToUpper asc)
  also have "\<dots> \<le> length (strip_comment l)" using length_Join_Fields by blast
  also have "\<dots> \<le> length l" by (rule length_strip_comment)
  finally show "length (entry_text en) \<le> length l" .
  show "newline \<notin> set (entry_text en)"
  proof (cases "newline \<in> set (strip_comment l)")
    case False
    then show ?thesis by (intro no) simp_all
  next
    case True
    have "newline \<notin> set w" if "w \<in> set (Code en # f1 # rest)" for w
      using word [OF that] asc [OF that] by (auto simp: spaceless_ascii ascii_space_def)
    then have "\<forall>w \<in> set ?ws. newline \<notin> set w"
      using asc [of f1] set_ToUpper_char [of f1 newline] by auto
    then show ?thesis unfolding tx by (intro Join_no_char) simp_all
  qed
qed

section \<open>The file as the tool and the gate read it\<close>

definition text_lines :: "string option \<Rightarrow> string list" where
  "text_lines t =
     (case t of None \<Rightarrow> []
      | Some b \<Rightarrow> (let s = TrimRightByte b newline in if s = [] then [] else Split s newline))"

text \<open>The map the gate would load from the file: \<open>None\<close> when it refuses the file.\<close>

definition gate_map :: "unicode \<Rightarrow> string option \<Rightarrow> entries option" where
  "gate_map U t =
     (case t of None \<Rightarrow> Some []
      | Some b \<Rightarrow> (case ParseAllowList U b of Inl _ \<Rightarrow> None | Inr m \<Rightarrow> Some m))"

definition good_line :: "string \<Rightarrow> bool" where
  "good_line l \<longleftrightarrow> newline \<notin> set l \<and> length l < max_token"

definition entries_map :: "unicode \<Rightarrow> string list \<Rightarrow> entries" where
  "entries_map U ls = fold put_entry (good_entries U ls) []"

lemma readLines_text:
  "\<not> e_denied e path \<Longrightarrow> readLines e path fs = Inr (text_lines (file_text fs path))"
  by (simp add: readLines_def ReadFile_text text_lines_def Let_def split: option.splits)

lemma raw_text_lines:
  "\<exists>k. raw_lines b = text_lines (Some b) @ replicate k []"
proof (cases "TrimRightByte b newline = []")
  case True
  have "\<exists>k. raw_lines b = replicate k []"
    using raw_lines_tool [of b] True by (auto intro: exI [of _ 0]) (metis replicate_Suc)
  with True show ?thesis by (simp add: text_lines_def)
next
  case False
  from raw_lines_tool [of b]
  have "\<exists>k. raw_lines b = Split (TrimRightByte b newline) newline @ replicate k []"
  proof
    assume "raw_lines b = [] \<and> Split (TrimRightByte b newline) newline = [[]]"
    then have "Join [[]] [newline] = TrimRightByte b newline" by (metis Join_Split)
    with False show ?thesis by simp
  qed
  with False show ?thesis by (simp add: text_lines_def)
qed

lemma text_lines_no_newline: "l \<in> set (text_lines t) \<Longrightarrow> newline \<notin> set l"
  by (auto simp: text_lines_def Let_def dest: Split_parts_no_sep split: option.splits if_splits)

lemma gate_map_lines:
  "gate_map U t = Some m \<longleftrightarrow>
     (\<forall>l \<in> set (text_lines t). good_line l) \<and> well_formed_lines U (text_lines t) \<and>
     m = entries_map U (text_lines t)"
proof (cases t)
  case None
  then show ?thesis
    by (auto simp: gate_map_def text_lines_def well_formed_lines_def entries_map_def)
next
  case (Some b)
  obtain k where k: "raw_lines b = text_lines (Some b) @ replicate k []"
    using raw_text_lines by blast
  have "fits b \<longleftrightarrow> (\<forall>l \<in> set (text_lines (Some b)). good_line l)"
    by (auto simp: fits_def k good_line_def list_all_iff max_token_def text_lines_no_newline)
  then show ?thesis
    using Some ParseAllowList_Inr [of U b m]
    by (auto simp: gate_map_def k good_entries_append well_formed_append good_entries_blank
        well_formed_blank entries_map_def split: sum.splits)
qed

lemma parseLine_good:
  "good_line l \<Longrightarrow>
     parseLine U l = (case allow_line_of U l of Good en \<Rightarrow> Some en | _ \<Rightarrow> None)"
  by (simp add: good_line_def parseLine_one)

lemma lookup_entries_map:
  "lookup (entries_map U ls) lid = find (\<lambda>en. CodeID (Code en) = lid) (rev (good_entries U ls))"
  by (simp add: entries_map_def lookup_fold_put split: option.splits)

lemma good_entries_filter:
  "\<forall>l \<in> set ls. good_line l \<Longrightarrow>
     good_entries U (filter (\<lambda>l. \<not> holds_id U lid l) ls) =
       filter (\<lambda>en. CodeID (Code en) \<noteq> lid) (good_entries U ls)"
  by (induction ls) (auto simp: holds_id_def parseLine_good split: allow_line.splits)

lemma find_filter:
  "find P (filter Q xs) = (if \<forall>x. P x \<longrightarrow> Q x then find P xs else find (\<lambda>x. P x \<and> Q x) xs)"
  by (induction xs) auto

lemma well_formed_filter: "well_formed_lines U ls \<Longrightarrow> well_formed_lines U (filter P ls)"
  by (auto simp: well_formed_lines_def list_all_iff)

lemma find_none: "(\<And>x. x \<in> set xs \<Longrightarrow> \<not> P x) \<Longrightarrow> find P xs = None"
  by (simp add: find_None_iff)

lemma entries_map_filter:
  assumes "\<forall>l \<in> set ls. good_line l"
  shows "lookup (entries_map U (filter (\<lambda>l. \<not> holds_id U lid l) ls)) =
     (lookup (entries_map U ls))(lid := None)"
proof
  fix j
  show "lookup (entries_map U (filter (\<lambda>l. \<not> holds_id U lid l) ls)) j =
     ((lookup (entries_map U ls))(lid := None)) j"
    by (auto simp: lookup_entries_map good_entries_filter [OF assms] rev_filter find_filter
        intro: find_none)
qed

lemma entries_map_snoc:
  "allow_line_of U l = Good en \<Longrightarrow>
     lookup (entries_map U (ls @ [l])) = (lookup (entries_map U ls))(CodeID (Code en) \<mapsto> en)"
  by (auto simp: lookup_entries_map good_entries_append fun_eq_iff)

text \<open>Writing lines back.\<close>

lemma Split_kept:
  assumes "\<forall>l \<in> set ls. newline \<notin> set l" and "ls \<noteq> []"
  shows "Split (Join ls [newline] @ [newline]) newline = ls @ [[]]"
  using assms by (simp add: Split_trailing_sep Split_Join)

lemma gate_map_written:
  assumes "\<forall>l \<in> set ls. good_line l" and "well_formed_lines U ls" and "ls \<noteq> []"
  shows "gate_map U (Some (Join ls [newline] @ [newline])) = Some (entries_map U ls)"
proof -
  have raw: "raw_lines (Join ls [newline] @ [newline]) = ls"
    using assms(1,3) by (simp add: raw_lines_def Split_kept good_line_def)
  then show ?thesis
    using assms ParseAllowList_Inr [of U "Join ls [newline] @ [newline]" "entries_map U ls"]
    by (simp add: gate_map_def fits_def list_all_iff good_line_def entries_map_def)
qed

lemma gate_map_empty: "gate_map U (Some []) = Some []"
  using ParseAllowList_Inr [of U "[]" "[]"]
  by (simp add: gate_map_def fits_def raw_lines_def well_formed_lines_def)

section \<open>The edits are updates of the gate's map\<close>

lemma ascii_lines: "ascii s \<Longrightarrow> l \<in> set (raw_lines s) \<Longrightarrow> ascii l"
proof -
  assume a: "ascii s" and l: "l \<in> set (raw_lines s)"
  have part: "w \<in> set ws \<Longrightarrow> set w \<subseteq> set (Join ws sep)" for w sep :: string and ws
  proof (induction ws)
    case (Cons v ws)
    then show ?case by (cases "ws = []") (auto simp: Join_Cons)
  qed simp
  have "w \<in> set (Split s c) \<Longrightarrow> set w \<subseteq> set s" for w c
    using part [of w "Split s c" "[c]"] by (simp add: Join_Split)
  moreover have "l \<in> set (Split s newline)"
    using l by (auto simp: raw_lines_def Let_def dest: in_set_butlastD split: if_splits)
  ultimately show "ascii l" using a ascii_sub by blast
qed

lemma ascii_TrimSpace: "ascii s \<Longrightarrow> ascii (TrimSpace s)"
  using set_TrimSpace [of s] by (rule ascii_sub [rotated])

lemma parseLine_entry:
  assumes "parseLine U s = Some en" and "ascii s"
  shows "allow_line_of U (entry_text en) = Good en" and "good_line (entry_text en)"
proof -
  obtain l where l: "l \<in> set (raw_lines s)" "allow_line_of U l = Good en" "length l < max_token"
    using parseLine_line [OF assms(1)] by blast
  from entry_line [OF l(2) ascii_lines [OF assms(2) l(1)]] l(3)
  show "allow_line_of U (entry_text en) = Good en" "good_line (entry_text en)"
    by (auto simp: good_line_def)
qed

definition entry_of :: "lock \<Rightarrow> entry" where
  "entry_of k = \<lparr>Code = lk_Code k, CreatorFp = lk_CreatorFp k, Note = lk_Note k\<rparr>"

lemma entry_of_lock_of [simp]: "entry_of (lock_of en) = en"
  by (simp add: entry_of_def lock_of_def)

lemma AddLock_Inr:
  assumes "AddLock U e p line fs = (Inr k, fs')" and "ascii line"
    and "gate_map U (file_text fs (p_Allow p)) = Some m"
    and "p_Allow p \<noteq> e_tmp e" and "file_text fs (e_tmp e) = None" and "\<not> e_denied e (p_Allow p)"
  shows "lk_CodeID k = CodeID (lk_Code k)"
    and "\<exists>m'. gate_map U (file_text fs' (p_Allow p)) = Some m' \<and>
      lookup m' = (lookup m)(lk_CodeID k \<mapsto> entry_of k)"
    and "q \<noteq> p_Allow p \<Longrightarrow> file_text fs' q = file_text fs q"
proof -
  let ?ls = "text_lines (file_text fs (p_Allow p))"
  obtain en fs1 where en: "parseLine U (TrimSpace line) = Some en"
    and m1: "MkdirAll e (p_Dir p) (perm 7 5 0) fs = Some fs1" and k: "k = lock_of en"
    and w: "writeAtomic e (p_Allow p) (Join (filter (\<lambda>l. \<not> holds_id U (CodeID (Code en)) l) ?ls @
        [entry_text en]) [newline] @ [newline]) (perm 6 4 0) fs1 = (True, fs')"
    using assms(1,6)
    by (auto simp: AddLock_def Let_def readLines_text file_text_MkdirAll
        split: option.splits prod.splits bool.splits)
  note ft = file_text_MkdirAll [OF m1]
  from assms(3) have g: "\<forall>l \<in> set ?ls. good_line l" "well_formed_lines U ?ls" "m = entries_map U ?ls"
    by (simp_all add: gate_map_lines)
  note e1 = parseLine_entry [OF en ascii_TrimSpace [OF assms(2)]]
  let ?kept = "filter (\<lambda>l. \<not> holds_id U (CodeID (Code en)) l) ?ls"
  have text': "file_text fs' = (file_text fs)(p_Allow p \<mapsto>
      Join (?kept @ [entry_text en]) [newline] @ [newline])"
    using writeAtomic_text [OF assms(4) _ w] assms(5) by (simp add: ft)
  have wf: "well_formed_lines U (?kept @ [entry_text en])"
    using well_formed_filter [OF g(2)] e1(1) by (simp add: well_formed_lines_def)
  have "gate_map U (file_text fs' (p_Allow p)) = Some (entries_map U (?kept @ [entry_text en]))"
    unfolding text' using g(1) e1(2) gate_map_written [OF _ wf] by simp
  moreover have "lookup (entries_map U (?kept @ [entry_text en])) = (lookup m)(CodeID (Code en) \<mapsto> en)"
    by (simp add: entries_map_snoc [OF e1(1)] entries_map_filter [OF g(1)] g(3) fun_eq_iff)
  ultimately show "\<exists>m'. gate_map U (file_text fs' (p_Allow p)) = Some m' \<and>
      lookup m' = (lookup m)(lk_CodeID k \<mapsto> entry_of k)"
    by (simp add: k) (simp add: lock_of_def)
  show "lk_CodeID k = CodeID (lk_Code k)" by (simp add: k lock_of_def)
  show "q \<noteq> p_Allow p \<Longrightarrow> file_text fs' q = file_text fs q" by (simp add: text')
qed

lemma filter_upt_one:
  assumes "filter P [0 ..< length xs] = [i]"
  shows "i < length xs" and "P i" and "\<forall>j < length xs. P j \<longrightarrow> j = i"
proof -
  have s: "set (filter P [0 ..< length xs]) = {i}" by (simp add: assms)
  then show "i < length xs" "P i" by auto
  from s show "\<forall>j < length xs. P j \<longrightarrow> j = i" by auto
qed

text \<open>No two codes of the list share an id (ids are 64 bits of a hash).\<close>

definition no_id_collision :: "entry list \<Rightarrow> bool" where
  "no_id_collision es \<longleftrightarrow>
     (\<forall>x \<in> set es. \<forall>y \<in> set es. CodeID (Code x) = CodeID (Code y) \<longrightarrow> Code x = Code y)"

lemma parseLine_in_good:
  "\<forall>l \<in> set ls. good_line l \<Longrightarrow> l \<in> set ls \<Longrightarrow> parseLine U l = Some en \<Longrightarrow> en \<in> set (good_entries U ls)"
  by (induction ls) (auto simp: parseLine_good split: allow_line.splits)

lemma filter_drop_one:
  assumes "i < length ls" and "\<not> P (ls ! i)" and "\<forall>j < length ls. j \<noteq> i \<longrightarrow> P (ls ! j)"
  shows "take i ls @ drop (Suc i) ls = filter P ls"
proof -
  have "filter P (take i ls) = take i ls" "filter P (drop (Suc i) ls) = drop (Suc i) ls"
    using assms(1,3) by (auto simp: filter_id_conv in_set_conv_nth)
  moreover have "filter P ls = filter P (take i ls @ ls ! i # drop (Suc i) ls)"
    using id_take_nth_drop [OF assms(1)] by simp
  ultimately show ?thesis using assms(2) by simp
qed

lemma revoked_rest:
  assumes good: "\<forall>l \<in> set ls. good_line l" and nc: "no_id_collision (good_entries U ls)"
    and i: "i < length ls" and en: "parseLine U (ls ! i) = Some en" and m: "matches_prefix U pre (ls ! i)"
    and uniq: "\<forall>j < length ls. matches_prefix U pre (ls ! j) \<longrightarrow> j = i"
  shows "take i ls @ drop (Suc i) ls = filter (\<lambda>l. \<not> holds_id U (CodeID (Code en)) l) ls"
proof (rule filter_drop_one [OF i])
  show "\<not> \<not> holds_id U (CodeID (Code en)) (ls ! i)" by (simp add: holds_id_def en)
  show "\<forall>j < length ls. j \<noteq> i \<longrightarrow> \<not> holds_id U (CodeID (Code en)) (ls ! j)"
  proof (intro allI impI notI)
    fix j assume j: "j < length ls" "j \<noteq> i" and "holds_id U (CodeID (Code en)) (ls ! j)"
    then obtain x where x: "parseLine U (ls ! j) = Some x" "CodeID (Code x) = CodeID (Code en)"
      by (auto simp: holds_id_def split: option.splits)
    have "x \<in> set (good_entries U ls)" "en \<in> set (good_entries U ls)"
      using parseLine_in_good [OF good nth_mem [OF j(1)] x(1)]
        parseLine_in_good [OF good nth_mem [OF i] en] by simp_all
    with nc x(2) have "Code x = Code en" unfolding no_id_collision_def by blast
    with m x en have "matches_prefix U pre (ls ! j)" by (simp add: matches_prefix_def)
    with uniq j show False by blast
  qed
qed

lemma gate_map_body:
  assumes "\<forall>l \<in> set ls. good_line l" and "well_formed_lines U ls"
  shows "gate_map U (Some (let b = Join ls [newline] in if b \<noteq> [] then b @ [newline] else b)) =
     Some (entries_map U ls)"
proof (cases "Join ls [newline] = []")
  case True
  have "Split (Join ls [newline]) newline = ls" if "ls \<noteq> []"
    using that assms(1) by (intro Split_Join) (simp_all add: good_line_def)
  with True have "ls = [] \<or> ls = [[]]" by (cases "ls = []") auto
  then have "entries_map U ls = []" by (auto simp: entries_map_def)
  with True show ?thesis by (simp add: gate_map_empty)
next
  case False
  then have "ls \<noteq> []" by auto
  with False assms show ?thesis by (simp add: gate_map_written)
qed

lemma RevokeLock_Inr:
  assumes "RevokeLock U e p pfx fs = (Inr k, fs')"
    and "gate_map U (file_text fs (p_Allow p)) = Some m"
    and "no_id_collision (good_entries U (text_lines (file_text fs (p_Allow p))))"
    and "p_Allow p \<noteq> e_tmp e" and "file_text fs (e_tmp e) = None" and "\<not> e_denied e (p_Allow p)"
  shows "\<exists>y. lookup m (lk_CodeID k) = Some y \<and> Code y = lk_Code k"
    and "\<exists>m'. gate_map U (file_text fs' (p_Allow p)) = Some m' \<and>
      lookup m' = (lookup m)(lk_CodeID k := None)"
    and "HasPrefix (lk_CodeID k) (ToLower U (TrimSpace pfx)) \<or>
      HasPrefix (lk_Code k) (ToLower U (TrimSpace pfx))"
    and "q \<noteq> p_Allow p \<Longrightarrow> file_text fs' q = file_text fs q"
proof -
  let ?ls = "text_lines (file_text fs (p_Allow p))" and ?pre = "ToLower U (TrimSpace pfx)"
  from assms(1,6) obtain i where
    hit: "filter (\<lambda>i. matches_prefix U ?pre (?ls ! i)) [0 ..< length ?ls] = [i]"
    by (simp add: RevokeLock_def Let_def readLines_text split: if_splits list.splits)
  let ?body = "let b = Join (take i ?ls @ drop (Suc i) ?ls) [newline]
    in if b \<noteq> [] then b @ [newline] else b"
  from assms(1,6) hit obtain en where en: "parseLine U (?ls ! i) = Some en" and k: "k = lock_of en"
    and w: "writeAtomic e (p_Allow p) ?body (perm 6 4 0) fs = (True, fs')"
    by (simp add: RevokeLock_def Let_def readLines_text
        split: if_splits option.splits prod.splits bool.splits)
  note hits = filter_upt_one [OF hit]
  from assms(2) have g: "\<forall>l \<in> set ?ls. good_line l" "well_formed_lines U ?ls" "m = entries_map U ?ls"
    by (simp_all add: gate_map_lines)
  let ?kept = "filter (\<lambda>l. \<not> holds_id U (CodeID (Code en)) l) ?ls"
  have kept: "take i ?ls @ drop (Suc i) ?ls = ?kept"
    by (rule revoked_rest [OF g(1) assms(3) hits(1) en hits(2,3)])
  have t: "file_text fs' = (file_text fs)(p_Allow p \<mapsto> ?body)"
    using writeAtomic_text [OF assms(4,5) w] by simp
  have "gate_map U (file_text fs' (p_Allow p)) = Some (entries_map U ?kept)"
    unfolding t kept using gate_map_body [OF _ well_formed_filter [OF g(2)]] g(1) by simp
  then show "\<exists>m'. gate_map U (file_text fs' (p_Allow p)) = Some m' \<and>
      lookup m' = (lookup m)(lk_CodeID k := None)"
    by (simp add: entries_map_filter [OF g(1)] g(3) k) (simp add: lock_of_def)
  show "HasPrefix (lk_CodeID k) ?pre \<or> HasPrefix (lk_Code k) ?pre"
    using hits(2) by (simp add: matches_prefix_def en k lock_of_def)
  show "q \<noteq> p_Allow p \<Longrightarrow> file_text fs' q = file_text fs q" by (simp add: t)
  have in_g: "en \<in> set (good_entries U ?ls)"
    using parseLine_in_good [OF g(1) _ en] hits(1) by simp
  obtain y where y: "lookup m (CodeID (Code en)) = Some y"
    using in_g by (cases "lookup m (CodeID (Code en))")
      (auto simp: g(3) lookup_entries_map find_None_iff)
  then have "y \<in> set (good_entries U ?ls)" "CodeID (Code y) = CodeID (Code en)"
    using find_SomeD by (fastforce simp: g(3) lookup_entries_map)+
  with assms(3) in_g have "Code y = Code en" unfolding no_id_collision_def by blast
  with y show "\<exists>y. lookup m (lk_CodeID k) = Some y \<and> Code y = lk_Code k"
    by (simp add: k lock_of_def)
qed

section \<open>Keys as the tool and the gate read them\<close>

definition gate_keys :: "string option \<Rightarrow> string list option" where
  "gate_keys t = (case t of None \<Rightarrow> Some [] | Some b \<Rightarrow> ParseKeys b)"

lemma key_lines_nonblank: "key_lines (replicate k []) = []"
  by (induction k) (auto simp: Let_def)

lemma gate_keys_lines:
  "gate_keys t = (if \<forall>l \<in> set (text_lines t). good_line l then Some (key_lines (text_lines t)) else None)"
proof (cases t)
  case None
  then show ?thesis by (simp add: gate_keys_def text_lines_def)
next
  case (Some b)
  obtain k where k: "raw_lines b = text_lines (Some b) @ replicate k []"
    using raw_text_lines by blast
  have fits: "fits b \<longleftrightarrow> (\<forall>l \<in> set (text_lines (Some b)). good_line l)"
    by (auto simp: fits_def k good_line_def list_all_iff max_token_def text_lines_no_newline)
  show ?thesis
  proof (cases "fits b")
    case True
    then show ?thesis
      using fits by (simp add: Some gate_keys_def ParseKeys_def ScanLines_fits k
          key_lines_append key_lines_nonblank key_lines_map_cr del: map_replicate)
  next
    case False
    then show ?thesis
      using fits ScanLines_snd [of b] by (cases "ScanLines b") (simp add: Some gate_keys_def ParseKeys_def)
  qed
qed

definition key_ok :: "string \<Rightarrow> bool" where
  "key_ok k \<longleftrightarrow> strip_comment k = k \<and> k \<noteq> [] \<and> good_line k"

lemma trimmed_strip_comment: "trimmed (strip_comment l)"
  by (simp add: strip_comment_def Let_def)

lemma strip_comment_idem: "strip_comment (strip_comment l) = strip_comment l"
  by (rule strip_comment_id [OF trimmed_strip_comment strip_comment_no_hash])

lemma key_lines_ok:
  "\<forall>l \<in> set ls. good_line l \<Longrightarrow> k \<in> set (key_lines ls) \<Longrightarrow> key_ok k"
proof (induction ls)
  case (Cons l ls)
  have "good_line (strip_comment l)"
    using Cons.prems(1) set_strip_comment [of l] length_strip_comment [of l]
    by (auto simp: good_line_def)
  with Cons show ?case by (auto simp: key_ok_def Let_def strip_comment_idem split: if_splits)
qed simp

lemma key_lines_id: "\<forall>k \<in> set ks. key_ok k \<Longrightarrow> key_lines ks = ks"
  by (induction ks) (auto simp: key_ok_def Let_def)

lemma strip_header: "strip_comment keys_header = []"
proof -
  have "TrimSpace keys_header = keys_header"
  proof (rule TrimSpace_id)
    have "space_at keys_header = 0" by (simp add: keys_header_def space_at_plain plain_char_def)
    moreover have "space_end keys_header = 0"
      by (simp add: keys_header_def space_end_0 space_encodings_def HasSuffix_def)
    ultimately show "trimmed keys_header" by (simp add: trimmed_def)
  qed
  then show ?thesis by (simp add: strip_comment_def Let_def) (simp add: keys_header_def before_def)
qed

definition keys_text :: "string list \<Rightarrow> string" where
  "keys_text ks = keys_header @ [newline] @ Join ks [newline] @ [newline]"

lemma gate_keys_text:
  assumes "\<forall>k \<in> set ks. key_ok k"
  shows "gate_keys (Some (keys_text ks)) = Some ks"
proof -
  let ?ls = "keys_header # (if ks = [] then [[]] else ks)"
  have nl: "newline \<notin> set keys_header" by (simp add: keys_header_def)
  have good: "\<forall>l \<in> set ?ls. newline \<notin> set l \<and> length l < max_token"
    using assms nl by (auto simp: key_ok_def good_line_def keys_header_def max_token_def)
  have t: "keys_text ks = Join ?ls [newline] @ [newline]"
    by (cases "ks = []") (simp_all add: keys_text_def Join_Cons)
  have "Split (Join ?ls [newline] @ [newline]) newline = ?ls @ [[]]"
    by (rule Split_kept) (use good in auto)
  then have raw: "raw_lines (keys_text ks) = ?ls" by (simp add: raw_lines_def t)
  have "fits (keys_text ks)" using good by (simp add: fits_def raw list_all_iff)
  then show ?thesis
    using key_lines_id [OF assms]
    by (simp add: gate_keys_def ParseKeys_def ScanLines_fits raw key_lines_map_cr strip_header)
qed

lemma writeKeys_cases:
  assumes "writeKeys e p ks fs = (err, fs')"
    and "p_Keys p \<noteq> e_tmp e" and "file_text fs (e_tmp e) = None"
  shows "file_text fs' = (if err = None then (file_text fs)(p_Keys p \<mapsto> keys_text ks) else file_text fs)"
proof (cases "MkdirAll e (p_Dir p) (perm 7 5 0) fs")
  case None
  with assms(1) show ?thesis by (auto simp: writeKeys_def)
next
  case (Some fs1)
  then obtain ok where w: "writeAtomic e (p_Keys p) (keys_text ks) (perm 6 4 0) fs1 = (ok, fs')"
    and err: "err = None \<longleftrightarrow> ok"
    using assms(1) by (auto simp: writeKeys_def keys_text_def split: prod.splits bool.splits)
  show ?thesis
    using writeAtomic_text [OF assms(2) _ w] assms(3) file_text_MkdirAll [OF Some] err by simp
qed

lemma ListKeys_gate:
  assumes "\<not> e_denied e (p_Keys p)" and "gate_keys (file_text fs (p_Keys p)) = Some ks"
  shows "ListKeys e p fs = Inr ks" and "\<forall>k \<in> set ks. key_ok k"
  using assms key_lines_ok
  by (auto simp: ListKeys_def readLines_text gate_keys_lines split: if_splits)

lemma AddKey_ok:
  assumes "AddKey e p key fs = (None, fs')" and "gate_keys (file_text fs (p_Keys p)) = Some ks"
    and "good_line key" and "p_Keys p \<noteq> e_tmp e" and "file_text fs (e_tmp e) = None"
    and "\<not> e_denied e (p_Keys p)"
  shows "gate_keys (file_text fs' (p_Keys p)) =
    Some (TrimSpace key # filter (\<lambda>k. k \<noteq> TrimSpace key) ks)"
proof -
  note cur = ListKeys_gate [OF assms(6,2)]
  let ?new = "TrimSpace key # filter (\<lambda>k. k \<noteq> TrimSpace key) ks"
  from assms(1) have ok: "8 \<le> length (TrimSpace key)" "CHR ''#'' \<notin> set (TrimSpace key)"
    and w: "writeKeys e p ?new fs = (None, fs')"
    by (auto simp: AddKey_def Let_def cur(1) ContainsAny_def list_ex_iff split: if_splits)
  have "key_ok (TrimSpace key)"
    using ok assms(3) set_TrimSpace [of key] length_TrimSpace [of key]
    by (auto simp: key_ok_def good_line_def strip_comment_id)
  with cur(2) have "gate_keys (Some (keys_text ?new)) = Some ?new"
    by (intro gate_keys_text) auto
  with writeKeys_cases [OF w assms(4,5)] show ?thesis by simp
qed

lemma RemoveKey_ok:
  assumes "RemoveKey e p i fs = (None, fs')" and "gate_keys (file_text fs (p_Keys p)) = Some ks"
    and "p_Keys p \<noteq> e_tmp e" and "file_text fs (e_tmp e) = None" and "\<not> e_denied e (p_Keys p)"
  shows "0 \<le> i \<and> nat i < length ks \<and>
    gate_keys (file_text fs' (p_Keys p)) = Some (take (nat i) ks @ drop (nat i + 1) ks)"
proof -
  note cur = ListKeys_gate [OF assms(5,2)]
  let ?new = "take (nat i) ks @ drop (nat i + 1) ks"
  from assms(1) have i: "0 \<le> i" "nat i < length ks" and w: "writeKeys e p ?new fs = (None, fs')"
    by (auto simp: RemoveKey_def cur(1) split: if_splits)
  have "\<forall>k \<in> set ?new. key_ok k" using cur(2) by (auto dest: in_set_takeD in_set_dropD)
  with writeKeys_cases [OF w assms(3,4)] i show ?thesis by (simp add: gate_keys_text)
qed

lemma AddLock_error:
  assumes "AddLock U e p line fs = (Inl err, fs')"
    and "p_Allow p \<noteq> e_tmp e" and "file_text fs (e_tmp e) = None"
  shows "file_text fs' = file_text fs"
proof -
  have w: "file_text fs2 = file_text fs"
    if "MkdirAll e (p_Dir p) (perm 7 5 0) fs = Some fs1"
      and "writeAtomic e (p_Allow p) body (perm 6 4 0) fs1 = (False, fs2)" for body fs1 fs2
    using writeAtomic_text [OF assms(2) _ that(2)] assms(3) file_text_MkdirAll [OF that(1)] by simp
  from assms(1) show ?thesis
    by (auto simp: AddLock_def Let_def w file_text_MkdirAll
        split: option.splits sum.splits prod.splits bool.splits)
qed

lemma RevokeLock_error:
  assumes "RevokeLock U e p pfx fs = (Inl err, fs')"
    and "p_Allow p \<noteq> e_tmp e" and "file_text fs (e_tmp e) = None"
  shows "file_text fs' = file_text fs"
proof -
  obtain ls where fs: "fs' = fs \<or> (\<exists>i body ok. readLines e (p_Allow p) fs = Inr ls \<and>
      filter (\<lambda>i. matches_prefix U (ToLower U (TrimSpace pfx)) (ls ! i)) [0 ..< length ls] = [i] \<and>
      writeAtomic e (p_Allow p) body (perm 6 4 0) fs = (ok, fs') \<and>
      (ok \<longrightarrow> parseLine U (ls ! i) = None))"
    using assms(1) by (simp add: RevokeLock_def Let_def
        split: if_splits sum.splits list.splits option.splits prod.splits bool.splits) blast+
  show ?thesis
  proof (cases "fs' = fs")
    case False
    with fs obtain i body ok where
      hit: "filter (\<lambda>i. matches_prefix U (ToLower U (TrimSpace pfx)) (ls ! i)) [0 ..< length ls] = [i]"
      and w: "writeAtomic e (p_Allow p) body (perm 6 4 0) fs = (ok, fs')"
      and none: "ok \<longrightarrow> parseLine U (ls ! i) = None" by blast
    from filter_upt_one(2) [OF hit] none have "\<not> ok"
      by (auto simp: matches_prefix_def split: option.splits)
    with writeAtomic_text [OF assms(2,3) w] show ?thesis by simp
  qed simp
qed

text \<open>A lock that stands on two lines matches twice under every prefix, so the command refuses it.\<close>

lemma duplicate_lines_cannot_be_revoked:
  assumes "readLines e (p_Allow p) fs = Inr ls" and "i < length ls" and "j < length ls" and "i \<noteq> j"
    and "parseLine U (ls ! i) = Some x" and "parseLine U (ls ! j) = Some y" and "Code x = Code y"
    and "RevokeLock U e p pfx fs = (Inr k, fs')"
  shows "lk_Code k \<noteq> Code x"
proof
  assume code: "lk_Code k = Code x"
  let ?m = "matches_prefix U (ToLower U (TrimSpace pfx))"
  from assms(1,8) obtain h en where hit: "filter (\<lambda>i. ?m (ls ! i)) [0 ..< length ls] = [h]"
    and en: "parseLine U (ls ! h) = Some en" and k: "k = lock_of en"
    by (simp add: RevokeLock_def Let_def
        split: if_splits list.splits option.splits prod.splits bool.splits)
  note hits = filter_upt_one [OF hit]
  have "?m (ls ! i)" "?m (ls ! j)"
    using hits(2) en assms(5-7) code k by (simp_all add: matches_prefix_def lock_of_def)
  with hits(3) assms(2-4) show False by blast
qed

section \<open>Properties\<close>

text \<open>
  C9: \<open>oversee add\<close> is the update of the gate's map: when it succeeds, the gate reads from the new
  file exactly the old map with the printed lock put under its code id (a re-pasted line replaces
  the old one), and no other file changes.
\<close>

theorem add_lock_updates_gate:
  assumes "AddLock U e p line fs = (Inr k, fs')" and "ascii line"
    and "gate_map U (file_text fs (p_Allow p)) = Some m"
    and "p_Allow p \<noteq> e_tmp e" and "file_text fs (e_tmp e) = None" and "\<not> e_denied e (p_Allow p)"
  shows "lk_CodeID k = CodeID (lk_Code k) \<and>
    (\<exists>m'. gate_map U (file_text fs' (p_Allow p)) = Some m' \<and>
      lookup m' = (lookup m)(lk_CodeID k \<mapsto> entry_of k)) \<and>
    (\<forall>q. q = p_Allow p \<or> file_text fs' q = file_text fs q)"
  using AddLock_Inr [OF assms] by blast

text \<open>
  C8: \<open>oversee revoke\<close> is the deletion from the gate's map: when it succeeds, the printed lock
  matches the prefix and was on the list, the gate reads from the new file the old map without
  that id and nothing else changed.
\<close>

theorem revoke_lock_updates_gate:
  assumes "RevokeLock U e p pfx fs = (Inr k, fs')"
    and "gate_map U (file_text fs (p_Allow p)) = Some m"
    and "no_id_collision (good_entries U (text_lines (file_text fs (p_Allow p))))"
    and "p_Allow p \<noteq> e_tmp e" and "file_text fs (e_tmp e) = None" and "\<not> e_denied e (p_Allow p)"
  shows "(\<exists>y. lookup m (lk_CodeID k) = Some y \<and> Code y = lk_Code k) \<and>
    (HasPrefix (lk_CodeID k) (ToLower U (TrimSpace pfx)) \<or>
      HasPrefix (lk_Code k) (ToLower U (TrimSpace pfx))) \<and>
    (\<exists>m'. gate_map U (file_text fs' (p_Allow p)) = Some m' \<and>
      lookup m' = (lookup m)(lk_CodeID k := None)) \<and>
    (\<forall>q. q = p_Allow p \<or> file_text fs' q = file_text fs q)"
  using RevokeLock_Inr [OF assms] by blast

text \<open>
  A failed \<open>oversee add\<close> or \<open>oversee revoke\<close>, for whatever reason (bad line, ambiguous
  prefix, unreadable list, full disk), leaves every file as it was.
\<close>

theorem failed_lock_commands_change_nothing:
  assumes "AddLock U e p line fs = (Inl err, fs') \<or> RevokeLock U e p pfx fs = (Inl err, fs')"
    and "p_Allow p \<noteq> e_tmp e" and "file_text fs (e_tmp e) = None"
  shows "file_text fs' = file_text fs"
  using assms AddLock_error RevokeLock_error by blast

text \<open>
  The key commands are list operations on the keys the gate accepts: after \<open>oversee key add\<close>
  the gate reads the new key first and the other keys in their order, each once; after removing
  number \<open>i\<close> it reads the list without that key.
\<close>

theorem key_commands_update_gate:
  assumes "gate_keys (file_text fs (p_Keys p)) = Some ks" and "good_line key"
    and "p_Keys p \<noteq> e_tmp e" and "file_text fs (e_tmp e) = None" and "\<not> e_denied e (p_Keys p)"
  shows "(AddKey e p key fs = (None, fs') \<longrightarrow> gate_keys (file_text fs' (p_Keys p)) =
      Some (TrimSpace key # filter (\<lambda>k. k \<noteq> TrimSpace key) ks)) \<and>
    (RemoveKey e p i fs = (None, fs') \<longrightarrow> 0 \<le> i \<and> nat i < length ks \<and>
      gate_keys (file_text fs' (p_Keys p)) = Some (take (nat i) ks @ drop (nat i + 1) ks))"
  using AddKey_ok [OF _ assms] RemoveKey_ok [OF _ assms(1,3,4,5)] by blast

text \<open>Witnesses: one lock added to an empty list, then revoked; one key added.\<close>

definition wit_line :: string where
  "wit_line = ''0123456789abcdef0123456789abcdef AAAA-0000 home''"

definition wit_entry :: entry where
  "wit_entry = \<lparr>Code = wit_code, CreatorFp = ''AAAA-0000'', Note = ''home''\<rparr>"

definition wit_empty :: fsys where
  "wit_empty = \<lparr>fs_files = [], fs_dirs = []\<rparr>"

lemma wit_words: "\<forall>w \<in> set [wit_code, ''AAAA-0000'', ''home'']. w \<noteq> [] \<and> spaceless w"
  by (simp add: wit_code_def space_at_plain plain_char_def)

lemma wit_line_words: "wit_line = Join [wit_code, ''AAAA-0000'', ''home''] '' ''"
  by (simp add: wit_line_def wit_code_def)

lemma wit_line_Good: "allow_line_of U wit_line = Good wit_entry"
proof -
  have t: "trimmed wit_line" unfolding wit_line_words by (rule trimmed_Join) (rule wit_words)
  have F: "Fields wit_line = [wit_code, ''AAAA-0000'', ''home'']"
    unfolding wit_line_words by (rule Fields_Join) (rule wit_words)
  have "CHR ''#'' \<notin> set wit_line" by (simp add: wit_line_def)
  with t have s: "strip_comment wit_line = wit_line" by (rule strip_comment_id)
  have "isHex wit_code" by (simp add: isHex_def wit_code_def hex_val_def)
  moreover have "length wit_code = 32" by (simp add: wit_code_def)
  moreover have "ToUpper U ''AAAA-0000'' = ''AAAA-0000''"
    by (simp add: ToUpper_def ascii_def upper_char_def)
  moreover have "wit_line \<noteq> []" by (simp add: wit_line_def)
  ultimately show ?thesis by (simp add: allow_line_of_def s F wit_entry_def)
qed

lemma wit_line_trimmed: "TrimSpace wit_line = wit_line"
proof -
  have "trimmed wit_line" unfolding wit_line_words by (rule trimmed_Join) (rule wit_words)
  then show ?thesis by (rule TrimSpace_id)
qed

lemma wit_line_good: "good_line wit_line"
  by (simp add: good_line_def wit_line_def max_token_def)

lemma wit_line_parse: "parseLine U wit_line = Some wit_entry"
  by (simp add: parseLine_good wit_line_good wit_line_Good)

lemma wit_allow: "p_Allow wit_paths = ''/etc/oversea/allow.txt''" "p_Keys wit_paths = ''/etc/oversea/keys.txt''"
  by (simp_all add: wit_paths_def DefaultPaths_def JoinPath_def Let_def Clean_def)

lemma wit_free:
  "p_Allow wit_paths \<noteq> e_tmp wit_env" "file_text wit_empty (e_tmp wit_env) = None"
  "\<not> e_denied wit_env (p_Allow wit_paths)" "p_Keys wit_paths \<noteq> e_tmp wit_env"
  "\<not> e_denied wit_env (p_Keys wit_paths)"
  by (simp_all add: wit_allow) (simp_all add: wit_env_def wit_empty_def file_text_def)

lemma wit_writes: "\<exists>fs2. writeAtomic wit_env path data mode fs = (True, fs2)"
  using writeAtomic_ok [of wit_env path data mode fs] by (metis wit_env_simps(1) prod.collapse)

lemma wit_add: "\<exists>fs'. AddLock U wit_env wit_paths wit_line wit_empty = (Inr (lock_of wit_entry), fs')"
proof -
  obtain fs1 where m: "MkdirAll wit_env (p_Dir wit_paths) (perm 7 5 0) wit_empty = Some fs1"
    by (cases "lookup (fs_dirs wit_empty) (p_Dir wit_paths)") (auto simp: MkdirAll_def wit_env_simps)
  have "file_text fs1 (p_Allow wit_paths) = None"
    using file_text_MkdirAll [OF m] by (simp add: file_text_def wit_empty_def)
  then have r: "readLines wit_env (p_Allow wit_paths) fs1 = Inr []"
    by (simp add: readLines_text wit_free text_lines_def)
  obtain fs2 where "writeAtomic wit_env (p_Allow wit_paths)
      (Join ([] @ [entry_text wit_entry]) [newline] @ [newline]) (perm 6 4 0) fs1 = (True, fs2)"
    using wit_writes by blast
  then show ?thesis by (simp add: AddLock_def wit_line_trimmed wit_line_parse m r Let_def)
qed

definition wit_listed :: fsys where
  "wit_listed = \<lparr>fs_files = [(''/etc/oversea/allow.txt'',
      \<lparr>f_data = wit_line @ [newline], f_mode = perm 6 4 0, f_uid = 0, f_gid = 990, f_mtime = 50\<rparr>)],
     fs_dirs = []\<rparr>"

lemma wit_listed_lines: "text_lines (file_text wit_listed (p_Allow wit_paths)) = [wit_line]"
proof -
  have "TrimRightByte (wit_line @ [newline]) newline = wit_line"
    by (simp add: TrimRightByte_snoc) (simp add: TrimRightByte_def wit_line_def)
  moreover have "Split wit_line newline = [wit_line]" by (rule Split_no_sep) (simp add: wit_line_def)
  moreover have "wit_line \<noteq> []" by (simp add: wit_line_def)
  ultimately show ?thesis
    by (simp add: wit_listed_def file_text_def wit_allow text_lines_def Let_def)
qed

lemma wit_listed_map:
  "gate_map U (file_text wit_listed (p_Allow wit_paths)) = Some (entries_map U [wit_line])"
  "no_id_collision (good_entries U (text_lines (file_text wit_listed (p_Allow wit_paths))))"
  by (simp_all add: gate_map_lines wit_listed_lines wit_line_good well_formed_lines_def wit_line_Good
      no_id_collision_def)

lemma wit_revoke:
  "\<exists>fs'. RevokeLock U wit_env wit_paths ''0123'' wit_listed = (Inr (lock_of wit_entry), fs')"
proof -
  have t: "TrimSpace ''0123'' = ''0123''"
    by (rule TrimSpace_spaceless) (simp add: space_at_plain plain_char_def)
  have l: "ToLower U ''0123'' = ''0123''" by (simp add: ToLower_def ascii_def lower_char_def)
  have r: "readLines wit_env (p_Allow wit_paths) wit_listed = Inr [wit_line]"
    by (simp add: readLines_text wit_free wit_listed_lines)
  have m: "matches_prefix U ''0123'' wit_line"
    by (simp add: matches_prefix_def wit_line_parse wit_entry_def wit_code_def)
  obtain fs2 where "writeAtomic wit_env (p_Allow wit_paths) [] (perm 6 4 0) wit_listed = (True, fs2)"
    using wit_writes by blast
  then show ?thesis
    by (simp add: RevokeLock_def t l r m wit_line_parse Let_def)
qed

theorem add_lock_updates_gate_witness:
  "\<exists>fs' m'. AddLock wit_unicode wit_env wit_paths wit_line wit_empty = (Inr (lock_of wit_entry), fs') \<and>
     gate_map wit_unicode (file_text fs' (p_Allow wit_paths)) = Some m' \<and>
     lookup m' = [CodeID wit_code \<mapsto> wit_entry]"
proof -
  obtain fs' where add: "AddLock wit_unicode wit_env wit_paths wit_line wit_empty =
      (Inr (lock_of wit_entry), fs')" using wit_add by blast
  have "ascii wit_line" by (simp add: ascii_def wit_line_def)
  moreover have "gate_map wit_unicode (file_text wit_empty (p_Allow wit_paths)) = Some []"
    by (simp add: gate_map_def file_text_def wit_empty_def)
  ultimately obtain m' where "gate_map wit_unicode (file_text fs' (p_Allow wit_paths)) = Some m'"
    "lookup m' = (lookup [])(lk_CodeID (lock_of wit_entry) \<mapsto> entry_of (lock_of wit_entry))"
    using add_lock_updates_gate [OF add _ _ wit_free(1,2,3)] by blast
  with add show ?thesis by (auto simp: wit_entry_def lock_of_def entry_of_def)
qed

theorem revoke_lock_updates_gate_witness:
  "\<exists>fs' m'. RevokeLock wit_unicode wit_env wit_paths ''0123'' wit_listed =
       (Inr (lock_of wit_entry), fs') \<and>
     gate_map wit_unicode (file_text fs' (p_Allow wit_paths)) = Some m' \<and>
     lookup m' (CodeID wit_code) = None"
proof -
  obtain fs' where rev: "RevokeLock wit_unicode wit_env wit_paths ''0123'' wit_listed =
      (Inr (lock_of wit_entry), fs')" using wit_revoke by blast
  have "file_text wit_listed (e_tmp wit_env) = None"
    by (simp add: file_text_def wit_listed_def wit_env_def)
  from revoke_lock_updates_gate [OF rev wit_listed_map wit_free(1) this wit_free(3)] rev
  show ?thesis by (fastforce simp: lock_of_def wit_entry_def)
qed

theorem failed_lock_commands_change_nothing_witness:
  "file_text (snd (RevokeLock wit_unicode wit_env wit_paths ''01'' wit_listed)) = file_text wit_listed"
proof -
  have "TrimSpace ''01'' = ''01''"
    by (rule TrimSpace_spaceless) (simp add: space_at_plain plain_char_def)
  moreover have "ToLower U ''01'' = ''01''" for U by (simp add: ToLower_def ascii_def lower_char_def)
  ultimately have "RevokeLock wit_unicode wit_env wit_paths ''01'' wit_listed =
      (Inl PrefixTooShort, snd (RevokeLock wit_unicode wit_env wit_paths ''01'' wit_listed))"
    by (simp add: RevokeLock_def)
  moreover have "file_text wit_listed (e_tmp wit_env) = None"
    by (simp add: file_text_def wit_listed_def wit_env_def)
  ultimately show ?thesis
    using failed_lock_commands_change_nothing [OF disjI2 wit_free(1)] by blast
qed

theorem key_commands_update_gate_witness:
  "gate_keys (file_text (snd (AddKey wit_env wit_paths ''abcdefgh'' wit_empty)) (p_Keys wit_paths)) =
     Some [''abcdefgh'']"
proof -
  have g: "gate_keys (file_text wit_empty (p_Keys wit_paths)) = Some []"
    by (simp add: gate_keys_def file_text_def wit_empty_def)
  have k: "good_line ''abcdefgh''" by (simp add: good_line_def max_token_def)
  have t: "TrimSpace ''abcdefgh'' = ''abcdefgh''"
    by (rule TrimSpace_spaceless) (simp add: space_at_plain plain_char_def)
  obtain fs1 where m: "MkdirAll wit_env (p_Dir wit_paths) (perm 7 5 0) wit_empty = Some fs1"
    by (cases "lookup (fs_dirs wit_empty) (p_Dir wit_paths)") (auto simp: MkdirAll_def wit_env_simps)
  obtain fs2 where w: "writeAtomic wit_env (p_Keys wit_paths) (keys_header @ [newline] @
      Join [''abcdefgh''] [newline] @ [newline]) (perm 6 4 0) fs1 = (True, fs2)"
    using wit_writes by blast
  have "AddKey wit_env wit_paths ''abcdefgh'' wit_empty = (None, fs2)"
    using ListKeys_gate(1) [OF wit_free(5) g] m w
    by (simp add: AddKey_def t ContainsAny_def writeKeys_def)
  with key_commands_update_gate [OF g k wit_free(4,2,5), of fs2 0] show ?thesis by (simp add: t)
qed

end
