(* ===== verification/Oversee_Proxies.thy ===== *)
theory Oversee_Proxies
  imports Oversee_Locks Gate_Proxy Gate_Stats
begin

text \<open>
  \<open>server/internal/oversee/proxylist.go\<close>: downloading the address ranges of a CDN into proxies.txt.  The
  HTTP client is a function from the URL to the status and the body (\<open>None\<close> for any transport error),
  \<open>unjson\<close> is \<open>json.Unmarshal\<close> into the two lists of Fastly's answer.  The lemmas show what the gate
  reads from the file that was written.
\<close>

section \<open>The lists of the providers\<close>

definition providerURLs :: "string \<Rightarrow> string list option" where
  "providerURLs provider =
     (if provider = ''cloudflare''
      then Some [''https://www.cloudflare.com/ips-v4'', ''https://www.cloudflare.com/ips-v6'']
      else if provider = ''fastly'' then Some [''https://api.fastly.com/public-ip-list'']
      else None)"

definition minRanges :: "string \<Rightarrow> nat" where
  "minRanges provider = (if provider = ''cloudflare'' \<or> provider = ''fastly'' then 10 else 0)"

datatype list_error =
  NotJSON | NoAutomaticList string | NotCIDR string | HttpFailed | HttpStatus string nat
  | TooFew string nat | ListWriteFailed

type_synonym json_lists = "string \<Rightarrow> (string list \<times> string list) option"

definition ParseProviderList ::
  "json_lists \<Rightarrow> string \<Rightarrow> string \<Rightarrow> list_error + string list" where
  "ParseProviderList unjson provider body =
     (let out =
        (if provider = ''cloudflare'' then
           Inr (filter (\<lambda>l. l \<noteq> []) (map TrimSpace (fst (ScanLines body))))
         else if provider = ''fastly'' then
           (case unjson body of None \<Rightarrow> Inl NotJSON | Some (v4, v6) \<Rightarrow> Inr (v4 @ v6))
         else Inl (NoAutomaticList provider))
      in case out of
           Inl err \<Rightarrow> Inl err
         | Inr cs \<Rightarrow>
             (case find (\<lambda>c. ParseCIDR c = None) cs of Some c \<Rightarrow> Inl (NotCIDR c) | None \<Rightarrow> Inr cs))"

type_synonym http_client = "string \<Rightarrow> (nat \<times> string) option"

fun fetch_urls ::
  "json_lists \<Rightarrow> http_client \<Rightarrow> string \<Rightarrow> string list \<Rightarrow> string list \<Rightarrow> list_error + string list" where
  "fetch_urls unjson client provider [] acc = Inr acc"
| "fetch_urls unjson client provider (u # us) acc =
     (case client u of
        None \<Rightarrow> Inl HttpFailed
      | Some (code, body) \<Rightarrow>
          if code \<noteq> 200 then Inl (HttpStatus u code)
          else (case ParseProviderList unjson provider (take 1048576 body) of
              Inl err \<Rightarrow> Inl err
            | Inr part \<Rightarrow> fetch_urls unjson client provider us (acc @ part)))"

definition FetchProviderList ::
  "json_lists \<Rightarrow> http_client \<Rightarrow> string \<Rightarrow> list_error + string list" where
  "FetchProviderList unjson client provider =
     (case providerURLs provider of
        None \<Rightarrow> Inl (NoAutomaticList provider)
      | Some urls \<Rightarrow>
          (case fetch_urls unjson client provider urls [] of
             Inl err \<Rightarrow> Inl err
           | Inr ranges \<Rightarrow>
               if length ranges < minRanges provider then Inl (TooFew provider (length ranges))
               else Inr ranges))"

definition clock_string :: "time \<Rightarrow> string" where
  "clock_string t =
     (let s = Unix t mod 86400
      in date_string t @ '' '' @ pad_num 2 (s div 3600) @ '':'' @ pad_num 2 (s mod 3600 div 60) @ '' UTC'')"

definition proxies_header :: "string \<Rightarrow> time \<Rightarrow> string" where
  "proxies_header provider now =
     ''# '' @ provider @ '' IP ranges, fetched '' @ clock_string now @ '' by `oversee proxies update`''"

definition UpdateProxies ::
  "env \<Rightarrow> json_lists \<Rightarrow> http_client \<Rightarrow> paths \<Rightarrow> string \<Rightarrow> fsys \<Rightarrow> (list_error + nat) \<times> fsys" where
  "UpdateProxies e unjson client p provider fs =
     (case FetchProviderList unjson client provider of
        Inl err \<Rightarrow> (Inl err, fs)
      | Inr ranges \<Rightarrow>
          (let body = proxies_header provider (e_now e) @ [newline] @ Join ranges [newline] @ [newline]
           in case writeAtomic e (p_Proxies p) body (perm 6 4 0) fs of
                (True, fs') \<Rightarrow> (Inr (length ranges), fs')
              | (False, fs') \<Rightarrow> (Inl ListWriteFailed, fs')))"

record proxy_list_info =
  pl_Count :: nat
  pl_Age :: duration

definition ProxyInfo :: "env \<Rightarrow> paths \<Rightarrow> fsys \<Rightarrow> proxy_list_info" where
  "ProxyInfo e p fs =
     (case statFile e (p_Proxies p) fs of
        Inl _ \<Rightarrow> \<lparr>pl_Count = 0, pl_Age = -1\<rparr>
      | Inr st \<Rightarrow>
          (let ls = (case readLines e (p_Proxies p) fs of Inl _ \<Rightarrow> [] | Inr ls \<Rightarrow> ls)
           in \<lparr>pl_Count = length (filter (\<lambda>l. TrimSpace l \<noteq> [] \<and> \<not> HasPrefix (TrimSpace l) ''#'') ls),
               pl_Age = Sub (e_now e) st\<rparr>))"

section \<open>The characters of a range\<close>

definition cidr_char :: "char \<Rightarrow> bool" where
  "cidr_char c \<longleftrightarrow> hex_val c \<noteq> None \<or> c = CHR '':'' \<or> c = CHR ''.'' \<or> c = CHR ''/''"

lemma digit_cidr_char: "is_digit c \<Longrightarrow> cidr_char c"
  by (auto simp: digit_val_def cidr_char_def hex_val_def Let_def split: if_splits)

lemma parse_v4_chars:
  assumes "parse_v4 s = Some a"
  shows "\<forall>c \<in> set s. cidr_char c"
proof -
  let ?ws = "Split s (CHR ''.'')"
  from assms obtain x y z w where "map parse_octet ?ws = [Some x, Some y, Some z, Some w]"
    by (auto simp: parse_v4_def split: list.splits option.splits)
  then have "\<forall>w \<in> set ?ws. parse_octet w \<noteq> None" by (auto simp: map_eq_Cons_conv)
  then have part: "\<forall>c \<in> set w. cidr_char c" if "w \<in> set ?ws" for w
    using that digits_value_digits digit_cidr_char
    by (fastforce simp: parse_octet_def split: if_splits option.splits)
  have "set (Join ws ''.'') \<subseteq> insert (CHR ''.'') (\<Union>(set ` set ws))" for ws
    by (induction ws rule: induct_list012) auto
  from this [of ?ws] have "set s \<subseteq> insert (CHR ''.'') (\<Union>(set ` set ?ws))" by (simp add: Join_Split)
  moreover have "cidr_char (CHR ''.'')" by (simp add: cidr_char_def)
  ultimately show ?thesis using part by blast
qed

lemma v6_loop_chars:
  "v6_loop a ell s = Some (a', ell', rest) \<Longrightarrow> \<forall>c \<in> set s. cidr_char c \<or> c \<in> set rest"
proof (induction s arbitrary: a ell a' ell' rest rule: length_induct)
  case (1 s)
  define hs where "hs = takeWhile is_hex s"
  define r where "r = dropWhile is_hex s"
  define b where "b = a @ [word_of_nat (hex_value 0 hs div 256), word_of_nat (hex_value 0 hs)]"
  have s: "set s = set hs \<union> set r" unfolding hs_def r_def by (metis set_append takeWhile_dropWhile_id)
  have hex: "cidr_char c" if "c \<in> set hs" for c
    using that by (auto dest: set_takeWhileD simp: cidr_char_def hs_def)
  have colon: "cidr_char (CHR '':'')" by (simp add: cidr_char_def)
  show ?case
  proof (cases "length a \<ge> 16")
    case True
    with 1(2) show ?thesis by (simp add: v6_loop.simps [of a ell s])
  next
    case long: False
    show ?thesis
    proof (cases r)
      case Nil
      with hex s show ?thesis by auto
    next
      case (Cons c t)
      have eq: "v6_loop a ell s =
        (if hs = [] \<or> length hs > 4 then None
         else if c = CHR ''.'' then
           (if ell = None \<and> length a \<noteq> 12 \<or> length a + 4 > 16 then None
            else (case parse_v4 s of None \<Rightarrow> None | Some v4 \<Rightarrow> Some (a @ v4, ell, [])))
         else if c \<noteq> CHR '':'' \<or> t = [] then None
         else if hd t = CHR '':'' then
           (if ell \<noteq> None then None
            else if tl t = [] then Some (b, Some (length b), [])
            else v6_loop b (Some (length b)) (tl t))
         else v6_loop b ell t)"
        using long Cons unfolding hs_def r_def b_def
        by (subst v6_loop.simps) (auto simp: Let_def drop_Suc length_Suc_conv neq_Nil_conv tl_Nil)
      have shorter: "length t < length s" "length (tl t) < length s"
      proof -
        have "s = hs @ c # t" using Cons unfolding r_def hs_def by (metis takeWhile_dropWhile_id)
        then show "length t < length s" "length (tl t) < length s" by simp_all
      qed
      have all: "\<forall>x \<in> set s. cidr_char x \<or> x \<in> set rest"
        if "c = CHR '':''" and "\<forall>x \<in> set t. cidr_char x \<or> x \<in> set rest"
        using that s hex colon Cons by auto
      show ?thesis
      proof (cases "c = CHR ''.''")
        case True
        with 1(2) obtain v4 where "parse_v4 s = Some v4" unfolding eq by (auto split: if_splits option.splits)
        then show ?thesis using parse_v4_chars by blast
      next
        case False
        then have c: "c = CHR '':''" using 1(2) unfolding eq by (auto split: if_splits)
        show ?thesis
        proof (rule all [OF c])
          show "\<forall>x \<in> set t. cidr_char x \<or> x \<in> set rest"
          proof (cases "hd t = CHR '':''")
            case True
            show ?thesis
            proof (cases "tl t = []")
              case False
              then have "v6_loop b (Some (length b)) (tl t) = Some (a', ell', rest)"
                using 1(2) True c unfolding eq by (auto split: if_splits)
              from 1(1) [rule_format, OF shorter(2) this] True colon show ?thesis by (cases t) auto
            qed (use True colon in \<open>cases t; auto\<close>)
          next
            case no: False
            then have "v6_loop b ell t = Some (a', ell', rest)"
              using 1(2) False c unfolding eq by (auto split: if_splits)
            from 1(1) [rule_format, OF shorter(1) this] show ?thesis by blast
          qed
        qed
      qed
    qed
  qed
qed

lemma parse_v6_chars:
  assumes "parse_v6 s = Some a"
  shows "\<forall>c \<in> set s. cidr_char c"
proof -
  have colon: "cidr_char (CHR '':'')" by (simp add: cidr_char_def)
  let ?t = "if HasPrefix s ''::'' then drop 2 s else s"
  have "\<forall>c \<in> set ?t. cidr_char c"
  proof (cases "HasPrefix s ''::'' \<and> ?t = []")
    case False
    then obtain b ell where "v6_loop [] (if HasPrefix s ''::'' then Some 0 else None) ?t = Some (b, ell, [])"
      using assms by (auto simp: parse_v6_def Let_def split: option.splits if_splits)
    from v6_loop_chars [OF this] show ?thesis by simp
  qed auto
  moreover have "set s \<subseteq> insert (CHR '':'') (set ?t)"
  proof (cases "HasPrefix s ''::''")
    case True
    have "set s = set (''::'' @ drop (length ''::'') s)" unfolding HasPrefix_drop [OF True] ..
    then show ?thesis using True by (simp add: numeral_2_eq_2)
  qed auto
  ultimately show ?thesis using colon by blast
qed

lemma ParseCIDR_chars:
  assumes "ParseCIDR s = Some n"
  shows "(\<forall>c \<in> set s. cidr_char c) \<and> CHR ''/'' \<in> set s"
proof -
  obtain addr mask where cut: "Cut s (CHR ''/'') = (addr, mask, True)"
    and addr: "ParseAddr addr \<noteq> None" and mask: "ParseUint10 mask \<noteq> None"
    using assms by (auto simp: ParseCIDR_def split: prod.splits if_splits option.splits)
  have s: "s = addr @ CHR ''/'' # mask"
    using cut before_after [of "CHR ''/''" s] by (auto simp: Cut_def split: if_splits)
  have "\<forall>c \<in> set addr. cidr_char c"
    using addr parse_v4_chars parse_v6_chars
    by (auto simp: ParseAddr_def split: list.splits if_splits)
  moreover have "\<forall>c \<in> set mask. cidr_char c"
    using mask digits_value_digits digit_cidr_char by (fastforce simp: ParseUint10_def split: if_splits)
  moreover have "cidr_char (CHR ''/'')" by (simp add: cidr_char_def)
  ultimately show ?thesis using s by auto
qed

lemma cidr_char_plain: "cidr_char c \<Longrightarrow> plain_char c \<and> c \<noteq> CHR ''#'' \<and> c \<noteq> newline"
  unfolding cidr_char_def using hex_val_plain [of c] by (elim disjE) (simp_all add: plain_char_def)

section \<open>What the gate reads\<close>

lemma strip_comment_hash: "strip_comment (CHR ''#'' # s) = []"
proof -
  have left: "TrimLeftSpace (CHR ''#'' # s) = CHR ''#'' # s"
    by (rule TrimLeft_id) (simp add: space_at_plain plain_char_def)
  obtain r where r: "CHR ''#'' # s = TrimRightSpace (CHR ''#'' # s) @ r" using TrimRight_prefix by blast
  show ?thesis
  proof (cases "TrimRightSpace (CHR ''#'' # s)")
    case Nil
    then have "TrimSpace (CHR ''#'' # s) = []" by (simp only: TrimSpace_def left)
    then show ?thesis by (simp only: strip_comment_def Let_def) simp
  next
    case (Cons c t)
    then have trim: "TrimSpace (CHR ''#'' # s) = c # t" by (simp only: TrimSpace_def left)
    from r have "c = CHR ''#''" unfolding Cons by simp
    then have "before (CHR ''#'') (c # t) = []" "CHR ''#'' \<in> set (c # t)" by (simp_all add: before_def)
    then show ?thesis by (simp only: strip_comment_def Let_def trim if_True TrimSpace_Nil)
  qed
qed

lemma strip_comment_cidr:
  assumes "ParseCIDR c = Some n"
  shows "strip_comment c = c" and "CHR ''/'' \<in> set c" and "newline \<notin> set c" and "c \<noteq> []" and "drop_cr c = c"
proof -
  note chars = ParseCIDR_chars [OF assms]
  then have plain: "\<forall>x \<in> set c. plain_char x \<and> x \<noteq> CHR ''#'' \<and> x \<noteq> newline" using cidr_char_plain by blast
  then have "trimmed c" by (intro trimmed_spaceless spaceless_plain) blast
  then show "strip_comment c = c" using plain by (intro strip_comment_id) auto
  show "CHR ''/'' \<in> set c" using chars by blast
  show "newline \<notin> set c" using plain by blast
  show ne: "c \<noteq> []" using chars by auto
  have "last c \<in> set c" using ne by (rule last_in_set)
  with plain have "plain_char (last c)" by blast
  then have "last c \<noteq> CHR 0x0D" by (auto simp: plain_char_def)
  then show "drop_cr c = c" by (simp add: drop_cr_def)
qed

lemma cidr_lines_ranges:
  assumes "\<forall>c \<in> set cs. ParseCIDR c \<noteq> None"
  shows "\<exists>nets. cidr_lines n cs out = Inr (out @ nets) \<and> map Some nets = map ParseCIDR cs"
  using assms
proof (induction cs arbitrary: n out)
  case (Cons c cs)
  then obtain w where w: "ParseCIDR c = Some w" by auto
  from Cons obtain nets where "cidr_lines (Suc n) cs (out @ [w]) = Inr ((out @ [w]) @ nets)"
    "map Some nets = map ParseCIDR cs" by fastforce
  with w show ?case
    by (intro exI [of _ "w # nets"]) (simp add: strip_comment_cidr [OF w] Let_def)
qed simp

lemma raw_lines_written:
  "ls \<noteq> [] \<Longrightarrow> \<forall>w \<in> set ls. newline \<notin> set w \<Longrightarrow> raw_lines (Join ls [newline] @ [newline]) = ls"
  unfolding raw_lines_def Split_trailing_sep by (subst Split_Join) simp_all

lemma ParseCIDRs_written:
  assumes "\<forall>c \<in> set cs. ParseCIDR c \<noteq> None \<and> length c < max_token"
    and "newline \<notin> set h" and "length h < max_token" and "h = CHR ''#'' # h'" and "cs \<noteq> []"
  shows "\<exists>nets. ParseCIDRs (h @ [newline] @ Join cs [newline] @ [newline]) = Inr nets \<and>
    map Some nets = map ParseCIDR cs"
proof -
  have nl: "\<forall>w \<in> set (h # cs). newline \<notin> set w" using assms(1,2) strip_comment_cidr(3) by fastforce
  have body: "h @ [newline] @ Join cs [newline] @ [newline] = Join (h # cs) [newline] @ [newline]"
    using assms(5) by (simp add: Join_Cons)
  have raw: "raw_lines (Join (h # cs) [newline] @ [newline]) = h # cs"
    using nl by (intro raw_lines_written) simp_all
  have fits: "fits (Join (h # cs) [newline] @ [newline])"
    unfolding fits_def raw using assms(1,3) by (auto simp: list_all_iff)
  have "map drop_cr cs = cs"
    using assms(1) strip_comment_cidr(5) by (intro map_idI) fastforce
  then have scan: "ScanLines (Join (h # cs) [newline] @ [newline]) = (drop_cr h # cs, False)"
    using ScanLines_fits [OF fits] raw by simp
  obtain nets where "cidr_lines (Suc 0) cs [] = Inr nets" "map Some nets = map ParseCIDR cs"
    using cidr_lines_ranges [of cs "Suc 0" "[]"] assms(1) by auto
  moreover have "strip_comment (drop_cr h) = []" by (simp add: assms(4) strip_comment_hash)
  ultimately show ?thesis unfolding body by (simp add: ParseCIDRs_def scan)
qed

lemma ParseProviderList_cidrs:
  "ParseProviderList unjson provider body = Inr cs \<Longrightarrow> \<forall>c \<in> set cs. ParseCIDR c \<noteq> None"
  by (auto simp: ParseProviderList_def Let_def find_None_iff split: sum.splits option.splits)

lemma fetch_urls_cidrs:
  "fetch_urls unjson client provider us acc = Inr cs \<Longrightarrow> \<forall>c \<in> set acc. ParseCIDR c \<noteq> None \<Longrightarrow>
     \<forall>c \<in> set cs. ParseCIDR c \<noteq> None"
proof (induction us arbitrary: acc)
  case (Cons u us)
  then show ?case
    using ParseProviderList_cidrs [of unjson provider]
    by (fastforce split: option.splits prod.splits if_splits sum.splits)
qed simp

lemma FetchProviderList_ok:
  assumes "FetchProviderList unjson client provider = Inr cs"
  shows "(\<forall>c \<in> set cs. ParseCIDR c \<noteq> None) \<and> 10 \<le> length cs \<and> provider \<in> {''cloudflare'', ''fastly''}"
  using assms fetch_urls_cidrs [of unjson client provider _ "[]" cs]
  by (auto simp: FetchProviderList_def providerURLs_def minRanges_def split: option.splits sum.splits if_splits)

lemma proxies_header_no_newline:
  assumes "provider \<in> {''cloudflare'', ''fastly''}"
  shows "newline \<notin> set (proxies_header provider now)"
  using assms
  by (auto simp: proxies_header_def clock_string_def date_string_def pad_num_def Let_def split: prod.splits)

text \<open>
  C28: A refresh of the CDN's ranges never breaks the trust list: when the download or the write fails,
  every file is as it was; when it succeeds, the file holds at least ten ranges and the gate's parser
  accepts it and reads exactly the downloaded ranges in their order, so long as no line is too long for
  the scanner.
\<close>

theorem update_proxies_safe:
  assumes "UpdateProxies e unjson client p provider fs = (res, fs')"
    and "p_Proxies p \<noteq> e_tmp e" and "file_text fs (e_tmp e) = None"
  shows "case res of
      Inl _ \<Rightarrow> file_text fs' = file_text fs
    | Inr n \<Rightarrow> \<exists>ranges body. FetchProviderList unjson client provider = Inr ranges \<and>
        n = length ranges \<and> 10 \<le> n \<and> file_text fs' = (file_text fs)(p_Proxies p \<mapsto> body) \<and>
        ((\<forall>r \<in> set (proxies_header provider (e_now e) # ranges). length r < max_token) \<longrightarrow>
           (\<exists>nets. ParseCIDRs body = Inr nets \<and> map Some nets = map ParseCIDR ranges))"
proof (cases "FetchProviderList unjson client provider")
  case (Inl err)
  with assms(1) show ?thesis by (auto simp: UpdateProxies_def)
next
  case (Inr ranges)
  define body where "body = proxies_header provider (e_now e) @ [newline] @ Join ranges [newline] @ [newline]"
  obtain ok fs2 where w: "writeAtomic e (p_Proxies p) body (perm 6 4 0) fs = (ok, fs2)"
    by (cases "writeAtomic e (p_Proxies p) body (perm 6 4 0) fs")
  have written: "file_text fs2 = (if ok then (file_text fs)(p_Proxies p \<mapsto> body) else file_text fs)"
    using writeAtomic_text [OF assms(2,3) w] .
  have res: "res = (if ok then Inr (length ranges) else Inl ListWriteFailed)" "fs' = fs2"
    using assms(1) Inr w by (auto simp: UpdateProxies_def body_def split: bool.splits)
  note f = FetchProviderList_ok [OF Inr]
  have "\<exists>nets. ParseCIDRs body = Inr nets \<and> map Some nets = map ParseCIDR ranges"
    if "\<forall>r \<in> set (proxies_header provider (e_now e) # ranges). length r < max_token"
    unfolding body_def
    by (rule ParseCIDRs_written) (use that f proxies_header_no_newline in \<open>auto simp: proxies_header_def\<close>)
  then show ?thesis using res written f Inr by auto
qed

text \<open>Witness: an answer with ten ranges, written over no list at all.\<close>

definition wit_range :: string where
  "wit_range = ''192.0.2.0/24''"

lemma wit_range: "ParseCIDR wit_range \<noteq> None" "length wit_range < max_token"
proof -
  have cut: "Cut wit_range (CHR ''/'') = (''192.0.2.0'', ''24'', True)"
    by (simp add: wit_range_def Cut_def before_def after_def)
  have split: "Split ''192.0.2.0'' (CHR ''.'') = [''192'', ''0'', ''2'', ''0'']" by simp
  have octet: "parse_octet ''192'' = Some 192" "parse_octet ''0'' = Some 0" "parse_octet ''2'' = Some 2"
    by (simp_all add: parse_octet_def digit_val_def)
  have addr: "ParseAddr ''192.0.2.0'' = Some (v4InV6Prefix @ [192, 0, 2, 0], 32)"
    unfolding ParseAddr_def parse_v4_def split by (simp add: octet)
  have mask: "ParseUint10 ''24'' = Some 24" by (simp add: ParseUint10_def digit_val_def)
  show "ParseCIDR wit_range \<noteq> None" by (simp add: ParseCIDR_def cut addr mask Let_def)
  show "length wit_range < max_token" by (simp add: wit_range_def max_token_def)
qed

lemma wit_fetch:
  "FetchProviderList (\<lambda>_. Some (replicate 10 wit_range, [])) (\<lambda>_. Some (200, [])) ''fastly'' =
     Inr (replicate 10 wit_range)"
proof -
  have "find (\<lambda>c. ParseCIDR c = None) (replicate 10 wit_range) = None"
    using wit_range by (simp add: find_None_iff)
  then show ?thesis by (simp add: FetchProviderList_def providerURLs_def ParseProviderList_def minRanges_def)
qed

lemma wit_UpdateProxies:
  "UpdateProxies wit_env (\<lambda>_. Some (replicate 10 wit_range, [])) (\<lambda>_. Some (200, [])) wit_paths ''fastly'' wit_fs =
     (Inr 10, snd (UpdateProxies wit_env (\<lambda>_. Some (replicate 10 wit_range, [])) (\<lambda>_. Some (200, [])) wit_paths
        ''fastly'' wit_fs))"
proof -
  have "\<exists>fs'. writeAtomic wit_env path body mode wit_fs = (True, fs')" for path body mode
  proof
    show "writeAtomic wit_env path body mode wit_fs = (True, snd (writeAtomic wit_env path body mode wit_fs))"
      using writeAtomic_ok [of wit_env path body mode wit_fs] by (simp add: prod_eq_iff wit_env_def)
  qed
  then obtain wr where "writeAtomic wit_env path body mode wit_fs = (True, wr path body mode)"
    for path body mode by metis
  then show ?thesis by (simp add: UpdateProxies_def wit_fetch Let_def)
qed

lemma wit_proxies_header: "length (proxies_header ''fastly'' (e_now wit_env)) < max_token"
proof -
  have unix: "Unix (e_now wit_env) = 0" by (simp add: Unix_def wit_env_def second_def)
  have "civil 0 = (1970, 1, 1)" by code_simp
  then have "date_string (e_now wit_env) = pad_num 4 1970 @ ''-'' @ pad_num 2 1 @ ''-'' @ pad_num 2 1"
    by (simp add: date_string_def unix)
  moreover have "pad_num 4 1970 = ''1970''" "pad_num 2 1 = ''01''" "pad_num 2 0 = ''00''"
    by (simp_all add: pad_num_def FormatInt_def dec_digits.simps digit_char_def)
  ultimately have "proxies_header ''fastly'' (e_now wit_env) =
      ''# fastly IP ranges, fetched 1970-01-01 00:00 UTC by `oversee proxies update`''"
    by (simp add: proxies_header_def clock_string_def unix)
  then show ?thesis by (simp add: max_token_def)
qed

theorem update_proxies_safe_witness:
  "\<exists>body nets. file_text (snd (UpdateProxies wit_env (\<lambda>_. Some (replicate 10 wit_range, []))
       (\<lambda>_. Some (200, [])) wit_paths ''fastly'' wit_fs)) (p_Proxies wit_paths) = Some body \<and>
     ParseCIDRs body = Inr nets \<and> length nets = 10"
proof -
  have paths: "p_Proxies wit_paths \<noteq> e_tmp wit_env" "file_text wit_fs (e_tmp wit_env) = None"
    by (simp_all add: wit_paths_def DefaultPaths_def JoinPath_def Clean_def wit_env_def wit_fs_def file_text_def
      Let_def)
  have "\<forall>r \<in> set (proxies_header ''fastly'' (e_now wit_env) # replicate 10 wit_range). length r < max_token"
    using wit_range by (simp add: wit_proxies_header)
  with update_proxies_safe [OF wit_UpdateProxies paths] obtain body nets where
    "file_text (snd (UpdateProxies wit_env (\<lambda>_. Some (replicate 10 wit_range, []))
       (\<lambda>_. Some (200, [])) wit_paths ''fastly'' wit_fs)) (p_Proxies wit_paths) = Some body"
    "ParseCIDRs body = Inr nets" "map Some nets = map ParseCIDR (replicate 10 wit_range)"
    by (auto simp: wit_fetch)
  then show ?thesis by (metis length_map length_replicate)
qed

end
