(* ===== verification/Oversee_Doctor.thy ===== *)
theory Oversee_Doctor
  imports Oversee_Proxies
begin

text \<open>
  \<open>server/internal/oversee/doctor.go\<close>: the audit \<open>oversee doctor\<close>, one definition per numbered part of
  \<open>Doctor\<close>, and the reading of the kernel's socket tables.  The texts of the operating system's errors,
  \<open>pem.Decode\<close> and \<open>x509.ParseCertificate\<close> are parameters.  The lemmas show that the audit sees every
  listening socket of the kernel's tables and reports an upstream that is reachable around the gate.
\<close>

section \<open>Findings\<close>

datatype level = LevelOK | LevelWarn | LevelFail

record finding =
  fi_Level :: level
  fi_Title :: string
  fi_Detail :: string
  fi_Fix :: string

definition finding_of :: "level \<Rightarrow> string \<Rightarrow> string \<Rightarrow> string \<Rightarrow> finding" where
  "finding_of l title detail fix = \<lparr>fi_Level = l, fi_Title = title, fi_Detail = detail, fi_Fix = fix\<rparr>"

fun worst_from :: "level \<Rightarrow> finding list \<Rightarrow> level" where
  "worst_from w [] = w"
| "worst_from w (x # f) =
     (if fi_Level x = LevelFail then LevelFail
      else worst_from (if fi_Level x = LevelWarn then LevelWarn else w) f)"

definition Worst :: "finding list \<Rightarrow> level" where
  "Worst f = worst_from LevelOK f"

text \<open>The em dash and the arrow of the texts, in UTF-8, and the verbs \<open>%o\<close> and \<open>%v\<close> of a list of numbers.\<close>

definition em_dash :: string where
  "em_dash = [CHR 0xE2, CHR 0x80, CHR 0x94]"

definition arrow :: string where
  "arrow = [CHR 0xE2, CHR 0x86, CHR 0x92]"

fun oct_digits :: "nat \<Rightarrow> string" where
  "oct_digits n = (if n < 8 then [digit_char n] else oct_digits (n div 8) @ [digit_char (n mod 8)])"

declare oct_digits.simps [simp del]

definition int_list_string :: "int list \<Rightarrow> string" where
  "int_list_string ns = ''['' @ Join (map FormatInt ns) '' '' @ '']''"

text \<open>\<open>d.Round(time.Hour).String()\<close> of a duration of at least an hour.\<close>

definition hours_string :: "duration \<Rightarrow> string" where
  "hours_string d =
     (let r = d mod hour; x = (if r + r < hour then d - r else d + hour - r)
      in if x \<ge> 2 ^ 63 then ''2562047h47m16.854775807s'' else FormatInt (x div hour) @ ''h0m0s'')"

section \<open>Listening sockets\<close>

record listener =
  l_IP :: ip
  l_Port :: nat

definition Loopback :: "listener \<Rightarrow> bool" where
  "Loopback l = IsLoopback (l_IP l)"

text \<open>\<open>strconv.ParseUint(s, 16, bits)\<close>.\<close>

definition ParseUintHex :: "nat \<Rightarrow> string \<Rightarrow> nat option" where
  "ParseUintHex bits s =
     (if s = [] \<or> \<not> list_all is_hex s then None
      else (let v = hex_value 0 s in if v < 2 ^ bits then Some v else None))"

definition le_bytes :: "nat \<Rightarrow> ip" where
  "le_bytes v = [word_of_nat v, word_of_nat (v div 256), word_of_nat (v div 65536), word_of_nat (v div 16777216)]"

definition parseProcIP :: "string \<Rightarrow> ip option" where
  "parseProcIP h =
     (if length h \<noteq> 8 \<and> length h \<noteq> 32 then None
      else map_option concat
        (those (map (\<lambda>w. map_option le_bytes (ParseUintHex 32 (take 8 (drop (8 * w) h)))) [0 ..< length h div 8])))"

definition proc_line :: "string \<Rightarrow> listener option" where
  "proc_line l =
     (let f = Fields l
      in if length f < 4 \<or> f ! 3 \<noteq> ''0A'' then None
         else (case Cut (f ! 1) (CHR '':'') of
             (addr, port, found) \<Rightarrow>
               if \<not> found then None
               else (case (parseProcIP addr, ParseUintHex 16 port) of
                   (Some a, Some pn) \<Rightarrow> Some \<lparr>l_IP = a, l_Port = pn\<rparr>
                 | _ \<Rightarrow> None)))"

text \<open>The first line is the header.\<close>

definition ParseProcNetTCP :: "string \<Rightarrow> listener list" where
  "ParseProcNetTCP t = List.map_filter proc_line (tl (fst (ScanLines t)))"

definition ReadListeners :: "env \<Rightarrow> fsys \<Rightarrow> listener list" where
  "ReadListeners e fs =
     concat (map (\<lambda>f. case ReadFile e f fs of Inl _ \<Rightarrow> [] | Inr b \<Rightarrow> ParseProcNetTCP b)
       [''/proc/net/tcp'', ''/proc/net/tcp6''])"

text \<open>\<open>n, _ := strconv.Atoi(s)\<close>: 0 for a syntax error, the nearest number for a range error.\<close>

definition Atoi_value :: "string \<Rightarrow> int" where
  "Atoi_value s =
     (let neg = HasPrefix s ''-'';
          ds = (if neg \<or> HasPrefix s ''+'' then tl s else s)
      in case ParseUint10 ds of None \<Rightarrow> 0
         | Some n \<Rightarrow> if neg then max (- (2 ^ 63)) (- int n) else min (2 ^ 63 - 1) (int n))"

definition upstreamPort :: "string \<Rightarrow> int" where
  "upstreamPort upstream =
     (case SplitHostPort upstream of None \<Rightarrow> 0 | Some (_, ps) \<Rightarrow> Atoi_value ps)"

section \<open>The audit\<close>

record service_state =
  sv_Available :: bool
  sv_Active :: string
  sv_Enabled :: string

text \<open>\<open>None\<close> is a nil function.\<close>

record doctor_env =
  de_Listeners :: "listener list option"
  de_Now :: time
  de_Service :: "service_state option"

definition RealDoctorEnv :: "env \<Rightarrow> service_state \<Rightarrow> fsys \<Rightarrow> doctor_env" where
  "RealDoctorEnv e st fs = \<lparr>de_Listeners = Some (ReadListeners e fs), de_Now = e_now e, de_Service = Some st\<rparr>"

record cert_lib =
  cl_os_error :: "string \<Rightarrow> read_error \<Rightarrow> string"
  cl_pem :: "string \<Rightarrow> string option"
  cl_notAfter :: "string \<Rightarrow> string + time"

text \<open>1. Xray must not be reachable except through the gate.\<close>

definition bypass_title :: string where
  "bypass_title = ''Xray is reachable around the gate''"

definition upstream_findings :: "listener list option \<Rightarrow> string \<Rightarrow> finding list" where
  "upstream_findings listeners upstream =
     (let port = upstreamPort upstream;
          at = (case listeners of None \<Rightarrow> [] | Some ls \<Rightarrow>
            if port > 0 then filter (\<lambda>l. int (l_Port l) = port) ls else []);
          onLoop = filter Loopback at;
          exposed = filter (\<lambda>l. \<not> Loopback l) at
      in if exposed \<noteq> [] then
           [finding_of LevelFail bypass_title
             (''port '' @ FormatInt port @ '' is listening on '' @ IP_String (l_IP (hd exposed)) @
              '', not only on 127.0.0.1. Anyone who decodes a file can connect straight to Xray with the plain link ''
              @ em_dash @ '' the gate is bypassed.'')
             ''in the Xray inbound set  \"listen\": \"127.0.0.1\"  (the Setup tab prints a correct one), then restart Xray'']
         else if onLoop = [] \<and> port > 0 then
           [finding_of LevelWarn ''Nothing is listening on the upstream port''
             (''no socket on port '' @ FormatInt port @ ''. Either Xray isn't running or '' @ upstream @
              '' is the wrong address.'')
             ''start Xray, or fix the upstream with  oversee set upstream HOST:PORT'']
         else
           [finding_of LevelOK ''Xray listens on loopback only''
             (''port '' @ FormatInt port @ '' is bound to 127.0.0.1 '' @ em_dash @
              '' it can only be reached through the gate'') []])"

text \<open>2. App keys.  \<open>ks\<close> is what \<open>ListKeys\<close> returns, \<open>mode\<close> the mode of the file if \<open>os.Stat\<close> succeeds.\<close>

definition key_findings :: "paths \<Rightarrow> string list \<Rightarrow> nat option \<Rightarrow> finding list" where
  "key_findings p ks mode =
     (if ks = [] then
        [finding_of LevelFail ''No app key'' ''the gate refuses every connection until one exists''
          ''add the GATE_KEY your app was built with: oversee key add <key>'']
      else if length (hd ks) < 16 then
        [finding_of LevelWarn ''App key is short''
          (FormatInt (int (length (hd ks))) @ '' characters; use at least 16 random ones'')
          ''generate one in the Keys tab (g)'']
      else
        [finding_of LevelOK ''App key configured''
          (FormatInt (int (length ks)) @ '' key(s), newest first'') []]) @
     (case mode of None \<Rightarrow> []
      | Some m \<Rightarrow>
          if m mod 512 mod 8 \<noteq> 0 then
            [finding_of LevelWarn ''keys.txt is readable by every user'' (''mode '' @ oct_digits (m mod 512))
              (''chmod 660 '' @ p_Keys p)]
          else [])"

text \<open>3. Locks.\<close>

definition lock_findings :: "lock list \<Rightarrow> finding list" where
  "lock_findings locks =
     (if locks = [] then
        [finding_of LevelWarn ''No locks allowed yet'' ''no file made in the app will connect''
          ''add the line the app shows after locking: oversee add \"<line>\"'']
      else
        [finding_of LevelOK ''Locks allowed'' (FormatInt (int (length locks)) @ '' lock(s) on the allow-list'') []])"

text \<open>4. How clients reach the gate.\<close>

definition certFinding :: "cert_lib \<Rightarrow> env \<Rightarrow> string \<Rightarrow> time \<Rightarrow> fsys \<Rightarrow> finding" where
  "certFinding cl e path now fs =
     (case ReadFile e path fs of
        Inl err \<Rightarrow> finding_of LevelFail ''Certificate unreadable'' (cl_os_error cl path err)
          ''check the path with  oversee set cert''
      | Inr b \<Rightarrow>
          (case cl_pem cl b of
             None \<Rightarrow> finding_of LevelFail ''Certificate is not PEM'' path ''provide a PEM certificate''
           | Some der \<Rightarrow>
               (case cl_notAfter cl der of
                  Inl err \<Rightarrow> finding_of LevelFail ''Certificate unreadable'' err []
                | Inr notAfter \<Rightarrow>
                    (let left = Sub notAfter now
                     in if left < 0 then
                          finding_of LevelFail ''Certificate expired'' (''expired '' @ date_string notAfter) ''renew it''
                        else if left < 14 * 24 * hour then
                          finding_of LevelWarn ''Certificate expires soon''
                            (''in '' @ FormatInt (left div (24 * hour)) @ '' days'')
                            ''renew it; the gate picks up the new file without a restart''
                        else finding_of LevelOK ''Certificate valid'' (''until '' @ date_string notAfter) []))))"

definition reach_findings :: "cert_lib \<Rightarrow> env \<Rightarrow> settings \<Rightarrow> time \<Rightarrow> fsys \<Rightarrow> finding list" where
  "reach_findings cl e s now fs =
     (if cf_Cert s \<noteq> [] then [certFinding cl e (cf_Cert s) now fs]
      else if cf_Domain s \<noteq> [] \<and> cf_Plain s = [] then
        finding_of LevelOK ''TLS via Let's Encrypt''
          (''certificate for '' @ cf_Domain s @ '' is obtained automatically'') [] #
        (if cf_CDN s \<noteq> [] then
           [finding_of LevelWarn ''Let's Encrypt behind a CDN''
             ''validation fails when the origin is hidden behind a proxy''
             ''use a certificate file (oversee set cert/key) or run plain behind the CDN'']
         else [])
      else if cf_Plain s \<noteq> [] then
        (if cf_CDN s = [] then
           [finding_of LevelWarn ''Plain HTTP and no CDN''
             ''the token travels unencrypted, so anyone on the path can copy it''
             ''terminate TLS (oversee set domain/cert) or put a CDN that does in front'']
         else
           [finding_of LevelOK ''Plain HTTP behind a CDN''
             (''the CDN terminates TLS; keep the CDN'' @ arrow @ ''origin hop on a trusted network or use cert/key'')
             []])
      else
        [finding_of LevelFail ''No domain, certificate or plain listener'' ''the gate has nothing to listen on''
          ''oversee set domain vpn.example.com''])"

text \<open>4b. Ports.\<close>

definition cloudflare_ports :: "bool \<Rightarrow> int list" where
  "cloudflare_ports etls =
     (if etls then [443, 2053, 2083, 2087, 2096, 8443] else [80, 8080, 8880, 2052, 2082, 2086, 2095])"

definition port_findings :: "settings \<Rightarrow> finding list" where
  "port_findings s =
     (let (ep, etls) = EntryPort s; kind = (if etls then ''HTTPS'' else ''HTTP'')
      in if ep \<le> 0 then []
         else
           (if ep = UpstreamPort s \<and> (HasPrefix (cf_Upstream s) ''127.'' \<or>
                HasPrefix (cf_Upstream s) ''localhost'' \<or> HasPrefix (cf_Upstream s) ''0.0.0.0'')
            then [finding_of LevelFail (''Gate and Xray both use port '' @ FormatInt ep)
              ''the gate listens on the entry port, Xray must be on a different loopback port''
              ''oversee set upstream 10000  (and set the same port in the Xray/3x-ui inbound)'']
            else []) @
           (if etls \<and> ep \<noteq> 443 \<and> cf_Cert s = []
            then [finding_of LevelFail (''TLS on port '' @ FormatInt ep @ '' needs a certificate file'')
              ''Let's Encrypt can only validate on 443/80''
              ''oversee set cert FILE && oversee set key FILE, or oversee set port 443'']
            else []) @
           (if cf_CDN s = ''cloudflare'' \<and> ep \<notin> set (cloudflare_ports etls)
            then [finding_of LevelWarn
              (''Cloudflare does not proxy '' @ kind @ '' on port '' @ FormatInt ep)
              (''Cloudflare only forwards '' @ kind @ '' to these ports: '' @ int_list_string (cloudflare_ports etls))
              ''choose one of them: oversee set port N (TLS) or oversee set plain :N'']
            else []))"

text \<open>5. CDN consistency.\<close>

definition cdn_findings :: "settings \<Rightarrow> proxy_list_info \<Rightarrow> finding list" where
  "cdn_findings s info =
     (if cf_CDN s = [] then []
      else
        (if cf_CDN s = ''generic'' \<or> (pl_Age info \<ge> 0 \<and> pl_Count info > 0) then
           (if pl_Age info > 72 * hour \<and> (cf_CDN s = ''cloudflare'' \<or> cf_CDN s = ''fastly'') then
              [finding_of LevelWarn ''CDN IP ranges are old'' (hours_string (pl_Age info) @ '' old'')
                ''oversee proxies update'']
            else [finding_of LevelOK ''CDN IP ranges'' (FormatInt (int (pl_Count info)) @ '' range(s)'') []])
         else
           [finding_of LevelWarn ''No CDN IP ranges yet''
             ''the gate downloads them at start; until then client IPs are the CDN's'' ''oversee proxies update'']) @
        (if \<not> cf_OnlyProxy s then
           [finding_of LevelWarn ''Origin can be reached around the CDN''
             ''only-proxy is off, so a direct connection to the origin is served'' ''oversee set only-proxy on'']
         else []))"

text \<open>6. Service.\<close>

definition service_findings :: "service_state option \<Rightarrow> finding list" where
  "service_findings sv =
     (case sv of None \<Rightarrow> []
      | Some st \<Rightarrow>
          if sv_Available st \<and> sv_Active st \<noteq> ''active'' then
            [finding_of LevelWarn ''Gate service is not running'' (''state: '' @ sv_Active st)
              ''press s in the Status tab, or: sudo systemctl start oversee-gate'']
          else [])"

definition file_mode :: "env \<Rightarrow> string \<Rightarrow> fsys \<Rightarrow> nat option" where
  "file_mode e path fs =
     (if e_denied e path then None else map_option f_mode (lookup (fs_files fs) path))"

definition Doctor :: "unicode \<Rightarrow> cert_lib \<Rightarrow> env \<Rightarrow> paths \<Rightarrow> doctor_env \<Rightarrow> fsys \<Rightarrow> finding list" where
  "Doctor U cl e p de fs =
     (let s = LoadSettings U e p fs
      in upstream_findings (de_Listeners de) (cf_Upstream s) @
         key_findings p (case ListKeys e p fs of Inl _ \<Rightarrow> [] | Inr ks \<Rightarrow> ks) (file_mode e (p_Keys p) fs) @
         lock_findings (case Locks U e p fs of Inl _ \<Rightarrow> [] | Inr ls \<Rightarrow> ls) @
         reach_findings cl e s (de_Now de) fs @
         port_findings s @
         cdn_findings s (ProxyInfo e p fs) @
         service_findings (de_Service de))"

section \<open>Reading the kernel's tables\<close>

text \<open>
  How the kernel prints a row of \<open>/proc/net/tcp\<close> and \<open>tcp6\<close> on a little-endian machine: each 32-bit word
  of an address as a number, ports and states in hexadecimal.
\<close>

definition up_hex :: "nat \<Rightarrow> char" where
  "up_hex n = ''0123456789ABCDEF'' ! n"

fun hex_pad :: "nat \<Rightarrow> nat \<Rightarrow> string" where
  "hex_pad 0 n = []"
| "hex_pad (Suc k) n = hex_pad k (n div 16) @ [up_hex (n mod 16)]"

fun proc_addr :: "ip \<Rightarrow> string" where
  "proc_addr (a # b # c # d # r) =
     hex_pad 8 (unat a + 256 * unat b + 65536 * unat c + 16777216 * unat d) @ proc_addr r"
| "proc_addr _ = []"

record sock =
  so_slot :: nat
  so_IP :: ip
  so_port :: "16 word"
  so_remote :: ip
  so_remote_port :: "16 word"
  so_state :: byte
  so_rest :: string

definition proc_row :: "sock \<Rightarrow> string" where
  "proc_row k =
     replicate (4 - length (dec_digits (so_slot k))) (CHR '' '') @ (dec_digits (so_slot k) @ '':'') @ '' '' @
     (proc_addr (so_IP k) @ '':'' @ hex_pad 4 (unat (so_port k))) @ '' '' @
     (proc_addr (so_remote k) @ '':'' @ hex_pad 4 (unat (so_remote_port k))) @ '' '' @
     hex_pad 2 (unat (so_state k)) @ '' '' @ so_rest k"

definition proc_table :: "string \<Rightarrow> sock list \<Rightarrow> string" where
  "proc_table header ks = Join (header # map proc_row ks) [newline] @ [newline]"

definition sock_ok :: "sock \<Rightarrow> bool" where
  "sock_ok k \<longleftrightarrow> length (so_IP k) \<in> {4, 16} \<and> newline \<notin> set (so_rest k) \<and> CHR 0x0D \<notin> set (so_rest k) \<and>
     length (proc_row k) < max_token"

definition listening :: "sock \<Rightarrow> bool" where
  "listening k \<longleftrightarrow> so_state k = 10"

definition listener_of :: "sock \<Rightarrow> listener" where
  "listener_of k = \<lparr>l_IP = so_IP k, l_Port = unat (so_port k)\<rparr>"

lemma hex_val_up [simp]: "d < 16 \<Longrightarrow> hex_val (up_hex d) = Some d"
  by (drule hex_cases) (auto simp: hex_val_def up_hex_def)

lemma length_hex_pad [simp]: "length (hex_pad k n) = k"
  by (induction k arbitrary: n) auto

lemma hex_pad_is_hex: "c \<in> set (hex_pad k n) \<Longrightarrow> hex_val c \<noteq> None"
  by (induction k arbitrary: n) auto

lemma hex_value_append: "hex_value a (s @ t) = hex_value (hex_value a s) t"
  by (induction s arbitrary: a) auto

lemma hex_value_pad: "hex_value 0 (hex_pad k n) = n mod 16 ^ k"
proof (induction k arbitrary: n)
  case (Suc k)
  have "n mod (16 * 16 ^ k) = 16 * (n div 16 mod 16 ^ k) + n mod 16" by (rule mod_mult2_eq)
  then show ?case by (simp add: hex_value_append Suc)
qed simp

lemma ParseUintHex_pad:
  assumes "n < 2 ^ bits" and "n < 16 ^ k" and "k > 0"
  shows "ParseUintHex bits (hex_pad k n) = Some n"
proof -
  have "hex_pad k n \<noteq> []" using assms(3) by (metis length_0_conv length_hex_pad less_irrefl)
  moreover have "list_all is_hex (hex_pad k n)" using hex_pad_is_hex by (auto simp: list_all_iff)
  moreover have "hex_value 0 (hex_pad k n) = n" using assms(2) by (simp add: hex_value_pad)
  ultimately show ?thesis using assms(1) by (simp add: ParseUintHex_def Let_def)
qed

lemma byte_digits:
  fixes a b c d :: nat
  assumes "a < 256" and "b < 256" and "c < 256" and "d < 256"
  defines "v \<equiv> a + 256 * b + 65536 * c + 16777216 * d"
  shows "v mod 256 = a" and "v div 256 mod 256 = b" and "v div 65536 mod 256 = c" and "v div 16777216 mod 256 = d"
    and "v < 2 ^ 32"
proof -
  have v: "v = a + 256 * (b + 256 * (c + 256 * d))" by (simp add: v_def)
  have step: "(x + 256 * y) mod 256 = x" "(x + 256 * y) div 256 = y" if "x < 256" for x y :: nat
    using that by simp_all
  have 1: "v div 256 = b + 256 * (c + 256 * d)" unfolding v using assms(1) by (rule step)
  have 2: "v div 65536 = c + 256 * d"
    using 1 step(2) [OF assms(2)] by (simp add: div_mult2_eq [of v 256 256, simplified])
  have 3: "v div 16777216 = d"
    using 2 step(2) [OF assms(3)] by (simp add: div_mult2_eq [of v 65536 256, simplified])
  show "v mod 256 = a" unfolding v using assms(1) by (rule step)
  show "v div 256 mod 256 = b" unfolding 1 using assms(2) by (rule step)
  show "v div 65536 mod 256 = c" unfolding 2 using assms(3) by (rule step)
  show "v div 16777216 mod 256 = d" unfolding 3 using assms(4) by simp
  show "v < 2 ^ 32" unfolding v_def using assms(1-4) by simp
qed

lemma unat_byte_less: "unat (x :: byte) < 256"
  using unsigned_less [of x] by simp

lemma le_bytes_word:
  "le_bytes (unat (a :: byte) + 256 * unat (b :: byte) + 65536 * unat (c :: byte) + 16777216 * unat (d :: byte)) = [a, b, c, d]"
proof -
  have eq: "(word_of_nat n :: byte) = x \<longleftrightarrow> n mod 256 = unat x" for n and x :: byte
    using unat_byte_less [of x] by (simp add: word_unat_eq_iff unsigned_of_nat take_bit_eq_mod)
  show ?thesis
    unfolding le_bytes_def list.inject eq
    by (intro conjI byte_digits unat_byte_less refl)
qed

lemma length_proc_addr: "length a mod 4 = 0 \<Longrightarrow> length (proc_addr a) = 2 * length a"
  by (induction a rule: proc_addr.induct) auto

lemma upt_Suc_map: "[0 ..< Suc n] = 0 # map Suc [0 ..< n]"
  by (simp add: upt_conv_Cons map_Suc_upt del: upt_Suc)

lemma drop_four: "drop (4 + n) (x # y # z # w # r) = drop n r"
  by (simp add: eval_nat_numeral)

lemma proc_words:
  "length a mod 4 = 0 \<Longrightarrow>
     those (map (\<lambda>w. map_option le_bytes (ParseUintHex 32 (take 8 (drop (8 * w) (proc_addr a))))) [0 ..< length a div 4])
       = Some (map (\<lambda>w. take 4 (drop (4 * w) a)) [0 ..< length a div 4])"
proof (induction a rule: proc_addr.induct)
  case (1 a b c d r)
  let ?v = "unat a + 256 * unat b + 65536 * unat c + 16777216 * unat d"
  have v: "?v < 2 ^ 32" by (intro byte_digits unat_byte_less)
  have first: "ParseUintHex 32 (hex_pad 8 ?v) = Some ?v" by (rule ParseUintHex_pad) (use v in auto)
  have n: "length (a # b # c # d # r) div 4 = Suc (length r div 4)" by simp
  have "those (map (\<lambda>w. map_option le_bytes (ParseUintHex 32 (take 8 (drop (8 * w) (proc_addr r)))))
      [0 ..< length r div 4]) = Some (map (\<lambda>w. take 4 (drop (4 * w) r)) [0 ..< length r div 4])"
    using 1 by simp
  then show ?case
    unfolding n upt_Suc_map using first by (simp add: o_def le_bytes_word drop_four del: hex_pad.simps)
qed auto

lemma concat_chunks:
  "length (a :: 'a list) mod 4 = 0 \<Longrightarrow> concat (map (\<lambda>w. take 4 (drop (4 * w) a)) [0 ..< length a div 4]) = a"
proof (induction "length a div 4" arbitrary: a)
  case (Suc n)
  then obtain x y z w r where a: "a = x # y # z # w # r"
    by (cases a; cases "tl a"; cases "tl (tl a)"; cases "tl (tl (tl a))") auto
  with Suc have "concat (map (\<lambda>w. take 4 (drop (4 * w) r)) [0 ..< length r div 4]) = r" by auto
  moreover have "length a div 4 = Suc (length r div 4)" by (simp add: a)
  ultimately show ?case by (simp add: upt_Suc_map a o_def drop_four del: upt_Suc)
next
  case 0
  then show ?case by (cases a) auto
qed

lemma parseProcIP_addr: "length a \<in> {4, 16} \<Longrightarrow> parseProcIP (proc_addr a) = Some a"
  using proc_words [of a] concat_chunks [of a] length_proc_addr [of a]
  by (auto simp: parseProcIP_def)

lemma proc_addr_is_hex: "c \<in> set (proc_addr a) \<Longrightarrow> hex_val c \<noteq> None"
  by (induction a rule: proc_addr.induct) (auto dest: hex_pad_is_hex simp del: hex_pad.simps)

lemma Fields_blanks: "Fields (replicate n (CHR '' '') @ s) = Fields s"
  by (induction n) (simp_all add: Fields_blank)

lemma hex_field:
  assumes "\<forall>c \<in> set w. hex_val c \<noteq> None \<or> c = CHR '':''"
  shows "spaceless w" and "newline \<notin> set w" and "CHR 0x0D \<notin> set w"
proof -
  have "plain_char c \<and> c \<noteq> newline \<and> c \<noteq> CHR 0x0D" if "c \<in> set w" for c
    using assms that hex_val_plain [of c] by (auto simp: plain_char_def)
  then show "spaceless w" "newline \<notin> set w" "CHR 0x0D \<notin> set w" by (auto intro: spaceless_plain)
qed

lemma proc_row_fields:
  "\<exists>slot rest. Fields (proc_row k) = slot # (proc_addr (so_IP k) @ '':'' @ hex_pad 4 (unat (so_port k))) #
     (proc_addr (so_remote k) @ '':'' @ hex_pad 4 (unat (so_remote_port k))) # hex_pad 2 (unat (so_state k)) # rest"
proof -
  have "hex_val c \<noteq> None" if "c \<in> set ''0123456789''" for c
    using that by (auto simp: hex_val_def)
  then have "\<forall>c \<in> set (dec_digits (so_slot k)). hex_val c \<noteq> None" using dec_digits_set by blast
  then have "\<forall>c \<in> set (dec_digits (so_slot k) @ '':''). hex_val c \<noteq> None \<or> c = CHR '':''"
    unfolding set_append by simp
  then have slot: "spaceless (dec_digits (so_slot k) @ '':'')" by (rule hex_field)
  have addr: "spaceless (proc_addr a @ '':'' @ hex_pad n m)" for a n m
    by (rule hex_field) (auto dest: proc_addr_is_hex hex_pad_is_hex)
  have st: "spaceless (hex_pad 2 (unat (so_state k)))"
    by (rule hex_field) (auto dest: hex_pad_is_hex)
  have ne: "hex_pad 2 n \<noteq> []" "proc_addr a @ '':'' @ hex_pad i m \<noteq> []" "dec_digits j @ '':'' \<noteq> []" for n a i m j
    by (simp_all add: numeral_2_eq_2)
  have blank: "w @ '' '' @ r = w @ CHR '' '' # r" for w r :: string by simp
  show ?thesis
    unfolding proc_row_def Fields_blanks blank
    by (subst Fields_word_blank [OF slot ne(3)], subst Fields_word_blank [OF addr ne(2)],
        subst Fields_word_blank [OF addr ne(2)], subst Fields_word_blank [OF st ne(1)]) blast
qed

lemma proc_line_row:
  assumes "sock_ok k"
  shows "proc_line (proc_row k) = (if listening k then Some (listener_of k) else None)"
proof -
  obtain slot rest where f: "Fields (proc_row k) = slot # (proc_addr (so_IP k) @ '':'' @ hex_pad 4 (unat (so_port k))) #
     (proc_addr (so_remote k) @ '':'' @ hex_pad 4 (unat (so_remote_port k))) # hex_pad 2 (unat (so_state k)) # rest"
    using proc_row_fields [of k] by blast
  have "unat (so_port k) < 2 ^ 16" using unsigned_less [of "so_port k"] by simp
  then have port: "ParseUintHex 16 (hex_pad 4 (unat (so_port k))) = Some (unat (so_port k))"
    by (intro ParseUintHex_pad) auto
  have addr: "parseProcIP (proc_addr (so_IP k)) = Some (so_IP k)"
    using assms by (intro parseProcIP_addr) (simp add: sock_ok_def)
  have colon: "CHR '':'' \<notin> set (proc_addr (so_IP k))"
    using proc_addr_is_hex [of "CHR '':''" "so_IP k"] by (auto simp: hex_val_def)
  have cut: "Cut (proc_addr (so_IP k) @ CHR '':'' # p) (CHR '':'') = (proc_addr (so_IP k), p, True)" for p
    using Cut_append [OF colon, of p] by simp
  have state: "hex_pad 2 (unat (so_state k)) = ''0A'' \<longleftrightarrow> listening k"
  proof
    assume "hex_pad 2 (unat (so_state k)) = ''0A''"
    then have "hex_value 0 (hex_pad 2 (unat (so_state k))) = hex_value 0 ''0A''" by simp
    then have "unat (so_state k) = 10"
      using unat_byte_less [of "so_state k"] by (simp add: hex_value_pad hex_val_def)
    then show "listening k" by (simp add: listening_def word_unat_eq_iff)
  next
    assume "listening k"
    then have "unat (so_state k) = 10" by (simp add: listening_def)
    moreover have "hex_pad 2 10 = ''0A''" by code_simp
    ultimately show "hex_pad 2 (unat (so_state k)) = ''0A''" by (simp only:)
  qed
  show ?thesis
    by (simp add: proc_line_def f cut addr port state listener_of_def Let_def del: hex_pad.simps)
qed

lemma proc_row_chars: "sock_ok k \<Longrightarrow> newline \<notin> set (proc_row k) \<and> CHR 0x0D \<notin> set (proc_row k)"
proof -
  assume ok: "sock_ok k"
  have "\<forall>c \<in> set (proc_addr a @ '':'' @ hex_pad n m). hex_val c \<noteq> None \<or> c = CHR '':''" for a n m
    by (auto dest: proc_addr_is_hex hex_pad_is_hex)
  note addr = hex_field(2,3) [OF this]
  have "\<forall>c \<in> set (hex_pad n m). hex_val c \<noteq> None \<or> c = CHR '':''" for n m by (auto dest: hex_pad_is_hex)
  note hex = hex_field(2,3) [OF this]
  have "c \<noteq> newline \<and> c \<noteq> CHR 0x0D" if "c \<in> set ''0123456789''" for c using that by auto
  then have dec: "newline \<notin> set (dec_digits n)" "CHR 0x0D \<notin> set (dec_digits n)" for n
    using dec_digits_set [of n] by blast+
  show ?thesis
    using ok addr hex dec by (simp add: proc_row_def sock_ok_def)
qed

text \<open>The parser reads from the kernel's table exactly the sockets in the state LISTEN.\<close>

lemma ParseProcNetTCP_table:
  assumes "\<forall>k \<in> set ks. sock_ok k" and "newline \<notin> set h" and "length h < max_token"
  shows "ParseProcNetTCP (proc_table h ks) = map listener_of (filter listening ks)"
proof -
  have raw: "raw_lines (proc_table h ks) = h # map proc_row ks"
    unfolding proc_table_def using assms(1,2) proc_row_chars by (intro raw_lines_written) auto
  have fits: "fits (proc_table h ks)"
    unfolding fits_def raw using assms by (auto simp: list_all_iff sock_ok_def)
  have "drop_cr (proc_row k) = proc_row k" if "k \<in> set ks" for k
  proof -
    have ne: "proc_row k \<noteq> []" by (simp add: proc_row_def)
    have "last (proc_row k) \<in> set (proc_row k)" using ne by (rule last_in_set)
    moreover have "sock_ok k" using assms(1) that by (rule bspec)
    then have "CHR 0x0D \<notin> set (proc_row k)" using proc_row_chars by blast
    ultimately have "last (proc_row k) \<noteq> CHR 0x0D" by metis
    then show ?thesis by (simp add: drop_cr_def)
  qed
  then have rows: "map drop_cr (map proc_row ks) = map proc_row ks" by simp
  have "List.map_filter proc_line (map proc_row xs) = map listener_of (filter listening xs)"
    if "\<forall>k \<in> set xs. sock_ok k" for xs
    using that by (induction xs) (simp_all add: proc_line_row)
  with assms(1) show ?thesis
    by (simp add: ParseProcNetTCP_def ScanLines_fits [OF fits] raw rows del: map_map)
qed

section \<open>The bypass is reported\<close>

lemmas title_defs = finding_of_def bypass_title_def

lemma other_titles:
  "f \<in> set (key_findings p ks m) \<Longrightarrow> fi_Title f \<noteq> bypass_title"
  "f \<in> set (lock_findings locks) \<Longrightarrow> fi_Title f \<noteq> bypass_title"
  "f \<in> set (reach_findings cl e s now fs) \<Longrightarrow> fi_Title f \<noteq> bypass_title"
  "f \<in> set (port_findings s) \<Longrightarrow> fi_Title f \<noteq> bypass_title"
  "f \<in> set (cdn_findings s info) \<Longrightarrow> fi_Title f \<noteq> bypass_title"
  "f \<in> set (service_findings sv) \<Longrightarrow> fi_Title f \<noteq> bypass_title"
  by (auto simp: key_findings_def lock_findings_def reach_findings_def certFinding_def port_findings_def
      cdn_findings_def service_findings_def title_defs Let_def
      split: if_splits option.splits sum.splits prod.splits)

lemma upstream_titles:
  "(\<exists>f \<in> set (upstream_findings (Some ls) u). fi_Title f = bypass_title) \<longleftrightarrow>
     upstreamPort u > 0 \<and> (\<exists>l \<in> set ls. int (l_Port l) = upstreamPort u \<and> \<not> Loopback l)"
  by (auto simp: upstream_findings_def title_defs Let_def filter_empty_conv)

lemma Doctor_bypass:
  "(\<exists>f \<in> set (Doctor U cl e p de fs). fi_Title f = bypass_title) \<longleftrightarrow>
     (\<exists>f \<in> set (upstream_findings (de_Listeners de) (cf_Upstream (LoadSettings U e p fs))). fi_Title f = bypass_title)"
  using other_titles unfolding Doctor_def Let_def set_append by blast

lemma bypass_is_fail:
  "f \<in> set (upstream_findings ls u) \<Longrightarrow> fi_Title f = bypass_title \<Longrightarrow> fi_Level f = LevelFail"
  by (auto simp: upstream_findings_def title_defs Let_def split: if_splits)

text \<open>
  C6: The audit fails with "Xray is reachable around the gate" exactly when the upstream has a port and the
  kernel has a listening socket on it whose address is not a loopback one, for every content of the
  kernel's two socket tables.
\<close>

theorem doctor_reports_bypass:
  assumes "ReadFile e ''/proc/net/tcp'' fs = Inr (proc_table h4 ks4)"
    and "ReadFile e ''/proc/net/tcp6'' fs = Inr (proc_table h6 ks6)"
    and "\<forall>k \<in> set (ks4 @ ks6). sock_ok k"
    and "\<forall>h \<in> {h4, h6}. newline \<notin> set h \<and> length h < max_token"
    and "port = upstreamPort (cf_Upstream (LoadSettings U e p fs))"
  shows "(\<exists>f \<in> set (Doctor U cl e p (RealDoctorEnv e st fs) fs).
      fi_Title f = bypass_title \<and> fi_Level f = LevelFail) \<longleftrightarrow>
    port > 0 \<and> (\<exists>k \<in> set (ks4 @ ks6). listening k \<and> int (unat (so_port k)) = port \<and> \<not> IsLoopback (so_IP k))"
proof -
  let ?ls = "ReadListeners e fs" and ?u = "cf_Upstream (LoadSettings U e p fs)"
  have "ParseProcNetTCP (proc_table h4 ks4) = map listener_of (filter listening ks4)"
    "ParseProcNetTCP (proc_table h6 ks6) = map listener_of (filter listening ks6)"
    using assms(3,4) by (auto intro!: ParseProcNetTCP_table)
  then have ls: "set ?ls = listener_of ` {k \<in> set (ks4 @ ks6). listening k}"
    by (auto simp: ReadListeners_def assms(1,2))
  have "(\<exists>f \<in> set (Doctor U cl e p (RealDoctorEnv e st fs) fs).
      fi_Title f = bypass_title \<and> fi_Level f = LevelFail) \<longleftrightarrow>
    (\<exists>f \<in> set (upstream_findings (Some ?ls) ?u). fi_Title f = bypass_title)"
    using Doctor_bypass [of U cl e p "RealDoctorEnv e st fs" fs] bypass_is_fail [of _ "Some ?ls" ?u]
    unfolding RealDoctorEnv_def doctor_env.simps by (auto simp: Doctor_def Let_def)
  also have "\<dots> \<longleftrightarrow> port > 0 \<and> (\<exists>l \<in> set ?ls. int (l_Port l) = port \<and> \<not> Loopback l)"
    unfolding upstream_titles assms(5) ..
  finally show ?thesis unfolding ls by (auto simp: listener_of_def Loopback_def)
qed

text \<open>Witness: a socket on 0.0.0.0:10000 in a system without settings.\<close>

definition wit_sock :: sock where
  "wit_sock = \<lparr>so_slot = 0, so_IP = [0, 0, 0, 0], so_port = 10000, so_remote = [0, 0, 0, 0], so_remote_port = 0,
     so_state = 10, so_rest = ''00000000:00000000''\<rparr>"

definition wit_proc_fs :: fsys where
  "wit_proc_fs = \<lparr>fs_files = map (\<lambda>(path, t). (path, \<lparr>f_data = t, f_mode = perm 4 4 4, f_uid = 0, f_gid = 0,
       f_mtime = 0\<rparr>)) [(''/proc/net/tcp'', proc_table ''  sl  local_address'' [wit_sock]),
       (''/proc/net/tcp6'', proc_table ''  sl  local_address'' [])], fs_dirs = []\<rparr>"

definition wit_cert_lib :: cert_lib where
  "wit_cert_lib = \<lparr>cl_os_error = (\<lambda>path err. ''open '' @ path), cl_pem = Some, cl_notAfter = (\<lambda>der. Inr (FromUnix 2000000000))\<rparr>"

definition wit_service :: service_state where
  "wit_service = \<lparr>sv_Available = True, sv_Active = ''active'', sv_Enabled = ''enabled''\<rparr>"

theorem doctor_reports_bypass_witness:
  "\<exists>f \<in> set (Doctor wit_unicode wit_cert_lib wit_env wit_paths (RealDoctorEnv wit_env wit_service wit_proc_fs) wit_proc_fs).
     fi_Title f = bypass_title \<and> fi_Level f = LevelFail"
proof -
  have read: "ReadFile wit_env ''/proc/net/tcp'' wit_proc_fs = Inr (proc_table ''  sl  local_address'' [wit_sock])"
    "ReadFile wit_env ''/proc/net/tcp6'' wit_proc_fs = Inr (proc_table ''  sl  local_address'' [])"
    by (simp_all add: ReadFile_def wit_env_def wit_proc_fs_def)
  have "LoadSettings wit_unicode wit_env wit_paths wit_proc_fs = DefaultSettings"
    by (simp add: LoadSettings_def wit_conf ReadFile_def wit_env_def wit_proc_fs_def)
  moreover have "upstreamPort ''127.0.0.1:10000'' = 10000"
    by code_simp
  ultimately have port: "10000 = upstreamPort (cf_Upstream (LoadSettings wit_unicode wit_env wit_paths wit_proc_fs))"
    by (simp add: DefaultSettings_def)
  have "length (proc_row wit_sock) < max_token"
    by (simp add: proc_row_def wit_sock_def length_proc_addr dec_digits.simps max_token_def del: hex_pad.simps proc_addr.simps)
  then have ok: "\<forall>k \<in> set ([wit_sock] @ []). sock_ok k" by (simp add: sock_ok_def wit_sock_def)
  have header: "\<forall>h \<in> {''  sl  local_address'', ''  sl  local_address''}. newline \<notin> set h \<and> length h < max_token"
    by (simp add: max_token_def)
  show ?thesis
    unfolding doctor_reports_bypass [OF read ok header port]
    by (simp add: wit_sock_def listening_def IsLoopback_def To4_def)
qed

end
