(* ===== verification/Go_Flags.thy ===== *)
theory Go_Flags
  imports Go_Text
begin

text \<open>
  Go's package \<open>flag\<close> as the daemon uses it: \<open>FlagSet.Parse\<close> over string, int and bool flags, with
  \<open>strconv.ParseBool\<close> and \<open>strconv.ParseInt(s, 0, 64)\<close>.  A flag set is a function from the name of a
  flag to how its value is stored.
\<close>

section \<open>Values of flags\<close>

definition ParseBool :: "string \<Rightarrow> bool option" where
  "ParseBool s =
     (if s \<in> {''1'', ''t'', ''T'', ''true'', ''TRUE'', ''True''} then Some True
      else if s \<in> {''0'', ''f'', ''F'', ''false'', ''FALSE'', ''False''} then Some False
      else None)"

text \<open>
  The base of a number without its sign and the text after the prefix; underscores separate digits
  (\<open>underscoreOK\<close>: each follows a digit or the prefix and precedes a digit).
\<close>

definition int_base :: "string \<Rightarrow> nat \<times> string" where
  "int_base s =
     (case s of
        c # x # r \<Rightarrow>
          if c \<noteq> CHR ''0'' then (10, s)
          else if r \<noteq> [] \<and> lower_char x = CHR ''b'' then (2, r)
          else if r \<noteq> [] \<and> lower_char x = CHR ''o'' then (8, r)
          else if r \<noteq> [] \<and> lower_char x = CHR ''x'' then (16, r)
          else (8, x # r)
      | [c] \<Rightarrow> if c = CHR ''0'' then (8, []) else (10, s)
      | [] \<Rightarrow> (10, []))"

fun base_value :: "nat \<Rightarrow> nat \<Rightarrow> string \<Rightarrow> nat option" where
  "base_value b a [] = Some a"
| "base_value b a (c # s) =
     (if c = CHR ''_'' then base_value b a s
      else (case hex_val c of
          None \<Rightarrow> None
        | Some d \<Rightarrow> if d < b then base_value b (b * a + d) s else None))"

fun underscores_ok :: "bool \<Rightarrow> string \<Rightarrow> bool" where
  "underscores_ok digit [] = True"
| "underscores_ok digit (c # s) =
     (if c = CHR ''_'' then digit \<and> s \<noteq> [] \<and> hd s \<noteq> CHR ''_'' \<and> underscores_ok False s
      else underscores_ok True s)"

definition ParseInt0 :: "string \<Rightarrow> int option" where
  "ParseInt0 s =
     (let neg = HasPrefix s ''-'';
          u = (if neg \<or> HasPrefix s ''+'' then tl s else s);
          (b, ds) = int_base u
      in if u = [] \<or> \<not> underscores_ok (b \<noteq> 10) ds then None
         else (case base_value b 0 ds of None \<Rightarrow> None
           | Some n \<Rightarrow> int64_option (if neg then - int n else int n)))"

section \<open>Parsing a command line\<close>

datatype 'f flag_setter =
  SetString "string \<Rightarrow> 'f \<Rightarrow> 'f" | SetInt "int \<Rightarrow> 'f \<Rightarrow> 'f" | SetBool "bool \<Rightarrow> 'f \<Rightarrow> 'f"

datatype flag_error =
  BadFlagSyntax string | HelpRequested | NotDefined string | NeedsArgument string | InvalidValue string string

definition apply_flag :: "'f flag_setter \<Rightarrow> string \<Rightarrow> 'f \<Rightarrow> 'f option" where
  "apply_flag st v f =
     (case st of
        SetString g \<Rightarrow> Some (g v f)
      | SetInt g \<Rightarrow> map_option (\<lambda>i. g i f) (ParseInt0 v)
      | SetBool g \<Rightarrow> map_option (\<lambda>b. g b f) (ParseBool v))"

definition is_bool_flag :: "'f flag_setter \<Rightarrow> bool" where
  "is_bool_flag st = (case st of SetBool _ \<Rightarrow> True | _ \<Rightarrow> False)"

text \<open>The result is the values and the arguments that are left.\<close>

fun parse_flags ::
  "(string \<Rightarrow> 'f flag_setter option) \<Rightarrow> string list \<Rightarrow> 'f \<Rightarrow> flag_error + 'f \<times> string list" where
  "parse_flags formal [] f = Inr (f, [])"
| "parse_flags formal (s # args) f =
     (if length s < 2 \<or> hd s \<noteq> CHR ''-'' then Inr (f, s # args)
      else if s = ''--'' then Inr (f, args)
      else
        (let w = (if HasPrefix s ''--'' then drop 2 s else tl s)
         in if w = [] \<or> hd w = CHR ''-'' \<or> hd w = CHR ''='' then Inl (BadFlagSyntax s)
            else
              (case Cut w (CHR ''='') of
                 (name, v, hasValue) \<Rightarrow>
                   (case formal name of
                      None \<Rightarrow> Inl (if name = ''help'' \<or> name = ''h'' then HelpRequested else NotDefined name)
                    | Some st \<Rightarrow>
                        if hasValue \<or> is_bool_flag st then
                          (let v' = (if hasValue then v else ''true'')
                           in case apply_flag st v' f of
                                None \<Rightarrow> Inl (InvalidValue name v')
                              | Some f' \<Rightarrow> parse_flags formal args f')
                        else
                          (case args of
                             [] \<Rightarrow> Inl (NeedsArgument name)
                           | a # rest \<Rightarrow>
                               (case apply_flag st a f of
                                  None \<Rightarrow> Inl (InvalidValue name a)
                                | Some f' \<Rightarrow> parse_flags formal rest f'))))))"

declare parse_flags.simps(2) [simp del]

end
