(* ===== verification/Oversee_Daemon.thy ===== *)
theory Oversee_Daemon
  imports Oversee_Doctor Gate_Handler Go_Flags
begin

text \<open>
  \<open>server/internal/oversee/daemon.go\<close>: how \<open>oversee gate\<close> starts.  \<open>RunGate\<close> is modelled up to the call
  that serves: its result is the configured gate (the options of the handler, the lists, where it listens)
  or the error it returns, and the file system, which it may change.  \<open>url.Parse\<close>, \<open>tls.X509KeyPair\<close>, the
  HTTP client and \<open>json.Unmarshal\<close> are parameters.  The lemmas show what holds of every gate that starts.
\<close>

section \<open>The flags\<close>

record gate_flags =
  fl_domain :: string
  fl_upstream :: string
  fl_port :: int
  fl_plain :: string
  fl_allow :: string
  fl_keys :: string
  fl_certs :: string
  fl_cdn :: string
  fl_proxies :: string
  fl_only_proxy :: bool
  fl_cert :: string
  fl_key :: string
  fl_ip_limit :: bool
  fl_lock_ips :: int
  fl_token_days :: int

definition gate_defaults :: "paths \<Rightarrow> settings \<Rightarrow> gate_flags" where
  "gate_defaults p st =
     \<lparr>fl_domain = cf_Domain st, fl_upstream = cf_Upstream st, fl_port = cf_Port st, fl_plain = cf_Plain st,
      fl_allow = p_Allow p, fl_keys = p_Keys p, fl_certs = p_Certs p, fl_cdn = cf_CDN st,
      fl_proxies = p_Proxies p, fl_only_proxy = cf_OnlyProxy st, fl_cert = cf_Cert st, fl_key = cf_Key st,
      fl_ip_limit = (\<not> cf_NoIPLimit st), fl_lock_ips = cf_LockIPs st, fl_token_days = cf_TokenDays st\<rparr>"

definition gate_flag :: "string \<Rightarrow> gate_flags flag_setter option" where
  "gate_flag name =
     (if name = ''domain'' then Some (SetString (\<lambda>v f. f\<lparr>fl_domain := v\<rparr>))
      else if name = ''upstream'' then Some (SetString (\<lambda>v f. f\<lparr>fl_upstream := v\<rparr>))
      else if name = ''port'' then Some (SetInt (\<lambda>v f. f\<lparr>fl_port := v\<rparr>))
      else if name = ''plain'' then Some (SetString (\<lambda>v f. f\<lparr>fl_plain := v\<rparr>))
      else if name = ''allow'' then Some (SetString (\<lambda>v f. f\<lparr>fl_allow := v\<rparr>))
      else if name = ''keys'' then Some (SetString (\<lambda>v f. f\<lparr>fl_keys := v\<rparr>))
      else if name = ''certs'' then Some (SetString (\<lambda>v f. f\<lparr>fl_certs := v\<rparr>))
      else if name = ''cdn'' then Some (SetString (\<lambda>v f. f\<lparr>fl_cdn := v\<rparr>))
      else if name = ''proxies'' then Some (SetString (\<lambda>v f. f\<lparr>fl_proxies := v\<rparr>))
      else if name = ''only-proxy'' then Some (SetBool (\<lambda>v f. f\<lparr>fl_only_proxy := v\<rparr>))
      else if name = ''cert'' then Some (SetString (\<lambda>v f. f\<lparr>fl_cert := v\<rparr>))
      else if name = ''key'' then Some (SetString (\<lambda>v f. f\<lparr>fl_key := v\<rparr>))
      else if name = ''ip-limit'' then Some (SetBool (\<lambda>v f. f\<lparr>fl_ip_limit := v\<rparr>))
      else if name = ''lock-ips'' then Some (SetInt (\<lambda>v f. f\<lparr>fl_lock_ips := v\<rparr>))
      else if name = ''token-days'' then Some (SetInt (\<lambda>v f. f\<lparr>fl_token_days := v\<rparr>))
      else None)"

definition env_keys :: "string \<Rightarrow> string list" where
  "env_keys v = filter (\<lambda>k. k \<noteq> []) (map TrimSpace (Split v (CHR '','')))"

definition clampDays :: "int \<Rightarrow> int" where
  "clampDays n = (if n < 1 then 1 else if n > 7 then 7 else n)"

section \<open>The certificate\<close>

text \<open>A certificate is the two texts that \<open>tls.X509KeyPair\<close> accepted.\<close>

type_synonym key_pair = "string \<times> string"

definition LoadX509KeyPair :: "(string \<Rightarrow> string \<Rightarrow> bool) \<Rightarrow> env \<Rightarrow> string \<Rightarrow> string \<Rightarrow> fsys \<Rightarrow> key_pair option" where
  "LoadX509KeyPair pair_ok e cert key fs =
     (case (ReadFile e cert fs, ReadFile e key fs) of
        (Inr a, Inr b) \<Rightarrow> if pair_ok a b then Some (a, b) else None
      | _ \<Rightarrow> None)"

record cert_reloader =
  cr_mod :: time
  cr_cur :: "key_pair option"

text \<open>
  One handshake: \<open>st\<close> is the modification time that \<open>os.Stat\<close> sees (\<open>None\<close> for an error), \<open>pair\<close> what
  \<open>LoadX509KeyPair\<close> gives at that moment.  The result \<open>None\<close> is an error.
\<close>

definition certReloader_get ::
  "time option \<Rightarrow> key_pair option \<Rightarrow> cert_reloader \<Rightarrow> key_pair option \<times> cert_reloader" where
  "certReloader_get st pair c =
     (case st of
        None \<Rightarrow> (cr_cur c, c)
      | Some m \<Rightarrow>
          if cr_cur c = None \<or> m \<noteq> cr_mod c then
            (case pair of
               None \<Rightarrow> (cr_cur c, c)
             | Some q \<Rightarrow> (Some q, \<lparr>cr_mod = m, cr_cur = Some q\<rparr>))
          else (cr_cur c, c))"

section \<open>Starting the gate\<close>

datatype gate_error =
    FlagFailed flag_error | BadProvider | KeysFailed reload_error | NoAppKey | NoDomain | CertWithoutKey
  | AllowFailed reload_error | ProxiesFailed reload_error | NoRanges list_error | OnlyProxyEmpty
  | OnlyProxyNeedsCDN | BadUpstream | PortNeedsCert int | CertificateFailed

datatype listen = ListenPlain string | ListenFile int string string cert_reloader | ListenAuto int string

record gate_run =
  gr_options :: options
  gr_keys :: key_file
  gr_allow :: allow_file
  gr_upstream :: upstream
  gr_listen :: listen

record gate_libs =
  gl_unicode :: unicode
  gl_url :: "string \<Rightarrow> upstream option"
  gl_json :: json_lists
  gl_client :: http_client
  gl_pair_ok :: "string \<Rightarrow> string \<Rightarrow> bool"

definition allow_header :: string where
  "allow_header = ''# <32-hex code> <creator fingerprint> [note]'' @ [newline]"

text \<open>
  The allow list is created when \<open>os.Stat\<close> says that it does not exist; errors of \<open>MkdirAll\<close> and
  \<open>WriteFile\<close> (\<open>wfault\<close> says where it fails) are ignored.
\<close>

definition create_allow :: "fault \<Rightarrow> env \<Rightarrow> paths \<Rightarrow> string \<Rightarrow> fsys \<Rightarrow> fsys" where
  "create_allow wfault e p path fs =
     (if statFile e path fs = Inl NoSuchFile then
        (let fs1 = (case MkdirAll e (p_Dir p) (perm 7 5 0) fs of None \<Rightarrow> fs | Some fs1 \<Rightarrow> fs1);
             new = (\<lambda>t. set_file path (temp_file e t\<lparr>f_mode := perm 6 4 0\<rparr>) fs1)
         in case wfault of
              CreateFault \<Rightarrow> fs1
            | WriteFault k \<Rightarrow> new (take k allow_header)
            | _ \<Rightarrow> new allow_header)
      else fs)"

definition is_download_provider :: "provider \<Rightarrow> bool" where
  "is_download_provider prov \<longleftrightarrow> prov = ProviderCloudflare \<or> prov = ProviderFastly"

text \<open>The trusted proxies of a CDN mode, downloaded at the first start.\<close>

definition start_proxies ::
  "gate_libs \<Rightarrow> env \<Rightarrow> paths \<Rightarrow> gate_flags \<Rightarrow> provider \<Rightarrow> fsys \<Rightarrow>
     (gate_error + trusted_proxies option) \<times> fsys" where
  "start_proxies lib e p f prov fs =
     (if prov = ProviderNone then
        (if fl_only_proxy f then (Inl OnlyProxyNeedsCDN, fs) else (Inr None, fs))
      else
        (case LoadTrustedProxies (observe e (fl_proxies f) fs) of
           Inl err \<Rightarrow> (Inl (ProxiesFailed err), fs)
         | Inr tp0 \<Rightarrow>
             (let (res, fs1) =
                (if TrustedProxies_Len tp0 = 0 \<and> is_download_provider prov then
                   (case UpdateProxies e (gl_json lib) (gl_client lib) p prov fs of
                      (Inl err, fs1) \<Rightarrow> (Inl (NoRanges err), fs1)
                    | (Inr _, fs1) \<Rightarrow>
                        (case LoadTrustedProxies (observe e (fl_proxies f) fs1) of
                           Inl err \<Rightarrow> (Inl (ProxiesFailed err), fs1)
                         | Inr tp1 \<Rightarrow> (Inr tp1, fs1)))
                 else (Inr tp0, fs))
              in case res of
                   Inl err \<Rightarrow> (Inl err, fs1)
                 | Inr tp \<Rightarrow>
                     if fl_only_proxy f \<and> TrustedProxies_Len tp = 0 then (Inl OnlyProxyEmpty, fs1)
                     else (Inr (Some tp), fs1))))"

definition gate_options :: "string \<Rightarrow> paths \<Rightarrow> gate_flags \<Rightarrow> provider \<Rightarrow> trusted_proxies option \<Rightarrow> options" where
  "gate_options salt p f prov tp =
     \<lparr>Limiter = (if fl_ip_limit f then Some (NewLimiter 20 minute (10 * minute)) else None),
      MaxIPsPerLock = fl_lock_ips f, Stats = Some (NewStats salt), Proxies = tp, Provider = prov,
      OnlyProxy = fl_only_proxy f, opt_Probe = Some \<lparr>probe_File = p_Probe p\<rparr>,
      SkewDays = clampDays (fl_token_days f)\<rparr>"

text \<open>Where the gate listens.\<close>

definition start_listen :: "gate_libs \<Rightarrow> env \<Rightarrow> gate_flags \<Rightarrow> fsys \<Rightarrow> gate_error + listen" where
  "start_listen lib e f fs =
     (if fl_plain f \<noteq> [] then Inr (ListenPlain (fl_plain f))
      else
        (let tlsPort = (if fl_port f > 0 then fl_port f else 443)
         in if tlsPort \<noteq> 443 \<and> fl_cert f = [] then Inl (PortNeedsCert tlsPort)
            else if fl_cert f \<noteq> [] then
              (let st = (case statFile e (fl_cert f) fs of Inl _ \<Rightarrow> None | Inr m \<Rightarrow> Some m);
                   pair = LoadX509KeyPair (gl_pair_ok lib) e (fl_cert f) (fl_key f) fs
               in case certReloader_get st pair \<lparr>cr_mod = zero_time, cr_cur = None\<rparr> of
                    (None, _) \<Rightarrow> Inl CertificateFailed
                  | (Some _, cr) \<Rightarrow> Inr (ListenFile tlsPort (fl_cert f) (fl_key f) cr))
            else Inr (ListenAuto tlsPort (fl_domain f))))"

text \<open>\<open>gk\<close> is the value of GATE_KEYS, \<open>salt\<close> the random salt of the statistics.\<close>

definition start_gate ::
  "gate_libs \<Rightarrow> string \<Rightarrow> string \<Rightarrow> fault \<Rightarrow> env \<Rightarrow> paths \<Rightarrow> gate_flags \<Rightarrow> fsys \<Rightarrow>
     (gate_error + gate_run) \<times> fsys" where
  "start_gate lib gk salt wfault e p f fs =
     (case ParseProvider (gl_unicode lib) (fl_cdn f) of
        None \<Rightarrow> (Inl BadProvider, fs)
      | Some prov \<Rightarrow>
          (case LoadKeyFile (observe e (fl_keys f) fs) (env_keys gk) of
             Inl err \<Rightarrow> (Inl (KeysFailed err), fs)
           | Inr kf \<Rightarrow>
               if KeyFile_Get kf = [] then (Inl NoAppKey, fs)
               else if fl_domain f = [] \<and> fl_plain f = [] \<and> fl_cert f = [] then (Inl NoDomain, fs)
               else if (fl_cert f = []) \<noteq> (fl_key f = []) then (Inl CertWithoutKey, fs)
               else
                 (let fs1 = create_allow wfault e p (fl_allow f) fs
                  in case LoadAllowList (gl_unicode lib) (observe e (fl_allow f) fs1) of
                       Inl err \<Rightarrow> (Inl (AllowFailed err), fs1)
                     | Inr al \<Rightarrow>
                         (case start_proxies lib e p f prov fs1 of
                            (Inl err, fs2) \<Rightarrow> (Inl err, fs2)
                          | (Inr tp, fs2) \<Rightarrow>
                              (case gl_url lib (''http://'' @ fl_upstream f) of
                                 None \<Rightarrow> (Inl BadUpstream, fs2)
                               | Some up \<Rightarrow>
                                   (case start_listen lib e f fs2 of
                                      Inl err \<Rightarrow> (Inl err, fs2)
                                    | Inr li \<Rightarrow>
                                        (Inr \<lparr>gr_options = gate_options salt p f prov tp, gr_keys = kf,
                                              gr_allow = al, gr_upstream = up, gr_listen = li\<rparr>, fs2)))))))"

definition RunGate ::
  "gate_libs \<Rightarrow> string \<Rightarrow> string \<Rightarrow> fault \<Rightarrow> env \<Rightarrow> paths \<Rightarrow> string list \<Rightarrow> fsys \<Rightarrow>
     (gate_error + gate_run) \<times> fsys" where
  "RunGate lib gk salt wfault e p args fs =
     (case parse_flags gate_flag args (gate_defaults p (LoadSettings (gl_unicode lib) e p fs)) of
        Inl err \<Rightarrow> (Inl (FlagFailed err), fs)
      | Inr (f, _) \<Rightarrow> start_gate lib gk salt wfault e p f fs)"

text \<open>One day's tick of \<open>refreshProxiesDaily\<close>; an error leaves the list.\<close>

definition refresh_day :: "gate_libs \<Rightarrow> paths \<Rightarrow> string \<Rightarrow> env \<Rightarrow> fsys \<Rightarrow> fsys" where
  "refresh_day lib p prov e fs = snd (UpdateProxies e (gl_json lib) (gl_client lib) p prov fs)"

section \<open>A gate that starts is usable\<close>

fun listen_ready :: "listen \<Rightarrow> bool" where
  "listen_ready (ListenPlain a) = (a \<noteq> [])"
| "listen_ready (ListenFile port c k cr) = (port > 0 \<and> c \<noteq> [] \<and> k \<noteq> [] \<and> cr_cur cr \<noteq> None)"
| "listen_ready (ListenAuto port d) = (port = 443 \<and> d \<noteq> [])"

lemma clampDays_range: "1 \<le> clampDays n \<and> clampDays n \<le> 7"
  by (simp add: clampDays_def)

lemma start_listen_ready:
  assumes "start_listen lib e f fs = Inr li" and "fl_domain f \<noteq> [] \<or> fl_plain f \<noteq> [] \<or> fl_cert f \<noteq> []"
    and "(fl_cert f = []) = (fl_key f = [])"
  shows "listen_ready li"
  using assms
  by (auto simp: start_listen_def certReloader_get_def Let_def split: if_splits option.splits prod.splits sum.splits)

lemma start_proxies_ready:
  assumes "start_proxies lib e p f prov fs = (Inr tp, fs')"
  shows "(tp = None \<longleftrightarrow> prov = ProviderNone) \<and>
    (fl_only_proxy f \<longrightarrow> (\<exists>t. tp = Some t \<and> tp_cur t \<noteq> []))"
  using assms
  by (auto simp: start_proxies_def Let_def TrustedProxies_Len_def split: if_splits sum.splits prod.splits)

definition gate_ready :: "gate_run \<Rightarrow> bool" where
  "gate_ready run \<longleftrightarrow>
     (let o1 = gr_options run
      in KeyFile_Get (gr_keys run) \<noteq> [] \<and>
         1 \<le> SkewDays o1 \<and> SkewDays o1 \<le> 7 \<and> Stats o1 \<noteq> None \<and>
         provider_valid (Provider o1) \<and> (Proxies o1 = None \<longleftrightarrow> Provider o1 = ProviderNone) \<and>
         (OnlyProxy o1 \<longrightarrow> (\<exists>t. Proxies o1 = Some t \<and> tp_cur t \<noteq> [])) \<and>
         listen_ready (gr_listen run))"

lemma start_gate_ready:
  assumes "start_gate lib gk salt wfault e p f fs = (Inr run, fs')"
  shows "gate_ready run"
proof -
  from assms obtain prov kf al tp fs1 up li where
    prov: "ParseProvider (gl_unicode lib) (fl_cdn f) = Some prov" and
    kf: "KeyFile_Get kf \<noteq> []" and
    some: "fl_domain f \<noteq> [] \<or> fl_plain f \<noteq> [] \<or> fl_cert f \<noteq> []" and
    both: "(fl_cert f = []) = (fl_key f = [])" and
    tp: "start_proxies lib e p f prov (create_allow wfault e p (fl_allow f) fs) = (Inr tp, fs1)" and
    li: "start_listen lib e f fs1 = Inr li" and
    run: "run = \<lparr>gr_options = gate_options salt p f prov tp, gr_keys = kf, gr_allow = al,
      gr_upstream = up, gr_listen = li\<rparr>"
    by (auto simp: start_gate_def Let_def split: option.splits sum.splits if_splits prod.splits)
  have "provider_valid prov" using prov by (auto simp: ParseProvider_def Let_def split: if_splits)
  with kf start_proxies_ready [OF tp] start_listen_ready [OF li some both] clampDays_range [of "fl_token_days f"]
  show ?thesis by (simp add: gate_ready_def run gate_options_def)
qed

text \<open>
  C5: Whatever the flags, the settings and the files, a gate that starts has at least one app key, accepts
  tokens of one to seven days around its own, has a valid CDN mode and a trust list exactly when it has
  one, refuses direct connections only when some network is trusted, and has something to listen on: an
  address, a certificate that loaded, or Let's Encrypt on port 443 for a domain.
\<close>

theorem started_gate_is_ready:
  assumes "RunGate lib gk salt wfault e p args fs = (Inr run, fs')"
  shows "gate_ready run"
  using assms by (auto simp: RunGate_def start_gate_ready split: sum.splits)

section \<open>Renewing the certificate\<close>

text \<open>The handshakes that the running gate has served, in their order.\<close>

fun serve_handshakes :: "(time option \<times> key_pair option) list \<Rightarrow> cert_reloader \<Rightarrow> cert_reloader" where
  "serve_handshakes [] c = c"
| "serve_handshakes ((st, pair) # obs) c = serve_handshakes obs (snd (certReloader_get st pair c))"

lemma certReloader_step:
  assumes "cr_cur c = Some q"
  shows "\<exists>q'. fst (certReloader_get st pair c) = Some q' \<and> cr_cur (snd (certReloader_get st pair c)) = Some q' \<and>
    (q' = q \<or> pair = Some q') \<and>
    (cr_mod (snd (certReloader_get st pair c)) = cr_mod c \<or> st = Some (cr_mod (snd (certReloader_get st pair c))))"
  using assms by (cases q) (auto simp: certReloader_get_def split: option.splits)

lemma serve_handshakes_cur:
  assumes "cr_cur c = Some q"
  shows "(\<exists>q'. cr_cur (serve_handshakes obs c) = Some q' \<and> (q' = q \<or> Some q' \<in> snd ` set obs)) \<and>
    (cr_mod (serve_handshakes obs c) = cr_mod c \<or> Some (cr_mod (serve_handshakes obs c)) \<in> fst ` set obs)"
  using assms
proof (induction obs arbitrary: c q)
  case (Cons o1 obs)
  obtain st pair where o1: "o1 = (st, pair)" by (cases o1)
  let ?c = "snd (certReloader_get st pair c)"
  from certReloader_step [OF Cons.prems, of st pair] obtain q1 where
    q1: "cr_cur ?c = Some q1" "q1 = q \<or> pair = Some q1" "cr_mod ?c = cr_mod c \<or> st = Some (cr_mod ?c)" by blast
  from Cons.IH [OF q1(1)] q1(2,3) show ?case by (auto simp: o1)
qed simp



section \<open>The audit and the start\<close>

lemma worst_from_fail:
  "w \<noteq> LevelFail \<Longrightarrow> worst_from w f = LevelFail \<longleftrightarrow> (\<exists>x \<in> set f. fi_Level x = LevelFail)"
  by (induction f arbitrary: w) auto

lemma Worst_fail: "Worst f = LevelFail \<longleftrightarrow> (\<exists>x \<in> set f. fi_Level x = LevelFail)"
  by (simp add: Worst_def worst_from_fail)

text \<open>What a report without a failure says of the settings and of the keys.\<close>

lemma clean_report:
  assumes "Worst (Doctor U cl e p de fs) \<noteq> LevelFail" and "s = LoadSettings U e p fs"
  shows "(\<exists>ks. ListKeys e p fs = Inr ks \<and> ks \<noteq> [])"
    and "cf_Cert s \<noteq> [] \<or> cf_Domain s \<noteq> [] \<or> cf_Plain s \<noteq> []"
    and "cf_Plain s = [] \<Longrightarrow> cf_Cert s = [] \<Longrightarrow> cf_Port s \<le> 0 \<or> cf_Port s = 443"
proof -
  have none: "fi_Level x \<noteq> LevelFail"
    if "x \<in> set (key_findings p (case ListKeys e p fs of Inl _ \<Rightarrow> [] | Inr ks \<Rightarrow> ks) (file_mode e (p_Keys p) fs)) \<or>
      x \<in> set (reach_findings cl e s (de_Now de) fs) \<or> x \<in> set (port_findings s)" for x
    using assms(1) that unfolding Worst_fail Doctor_def Let_def set_append assms(2) by blast
  show "\<exists>ks. ListKeys e p fs = Inr ks \<and> ks \<noteq> []"
    using none by (cases "ListKeys e p fs") (fastforce simp: key_findings_def finding_of_def)+
  show "cf_Cert s \<noteq> [] \<or> cf_Domain s \<noteq> [] \<or> cf_Plain s \<noteq> []"
    using none by (fastforce simp: reach_findings_def finding_of_def)
  show "cf_Port s \<le> 0 \<or> cf_Port s = 443" if "cf_Plain s = []" "cf_Cert s = []"
  proof (rule ccontr)
    assume port: "\<not> (cf_Port s \<le> 0 \<or> cf_Port s = 443)"
    then have "EntryPort s = (cf_Port s, True)" using that by (simp add: EntryPort_def)
    then have "\<exists>x \<in> set (port_findings s). fi_Level x = LevelFail"
      using port that unfolding port_findings_def by (simp add: finding_of_def Let_def bex_Un)
    with none show False by blast
  qed
qed

lemma observe_text:
  "\<not> e_denied e path \<Longrightarrow> file_text fs path = Some t \<Longrightarrow> \<exists>m. observe e path fs = OnDisk t (Some m) \<and> statFile e path fs = Inr m"
  by (auto simp: observe_def file_text_def statFile_def)

lemma LoadKeyFile_gate:
  assumes "\<not> e_denied e path" and "gate_keys (file_text fs path) = Some ks"
  shows "\<exists>kf. LoadKeyFile (observe e path fs) extra = Inr kf \<and> KeyFile_Get kf = ks @ extra"
  using assms
  by (auto simp: LoadKeyFile_def KeyFile_reload_def observe_def file_text_def gate_keys_def KeyFile_store_def
      KeyFile_Get_def Let_def split: option.splits)

lemma LoadAllowList_gate:
  assumes "\<not> e_denied e path" and "file_text fs path = Some t" and "gate_map U (Some t) = Some m"
  shows "\<exists>al. LoadAllowList U (observe e path fs) = Inr al \<and> AllowList_Get al = m"
  using observe_text [OF assms(1,2)] assms(3)
  by (auto simp: LoadAllowList_def AllowList_reload_def gate_map_def AllowList_Get_def Let_def split: sum.splits)

lemma LoadTrustedProxies_gate:
  assumes "\<not> e_denied e path" and "file_text fs path = Some t" and "ParseCIDRs t = Inr nets"
  shows "\<exists>tp. LoadTrustedProxies (observe e path fs) = Inr tp \<and> tp_cur tp = nets"
  using observe_text [OF assms(1,2)] assms(3)
  by (auto simp: LoadTrustedProxies_def TrustedProxies_reload_def Let_def)

text \<open>The start in one equation, once each of its steps has succeeded.\<close>

lemma start_gate_run:
  assumes "ParseProvider (gl_unicode lib) (fl_cdn f) = Some prov"
    and "LoadKeyFile (observe e (fl_keys f) fs) (env_keys gk) = Inr kf" and "KeyFile_Get kf \<noteq> []"
    and "fl_domain f \<noteq> [] \<or> fl_plain f \<noteq> [] \<or> fl_cert f \<noteq> []" and "(fl_cert f = []) = (fl_key f = [])"
    and "LoadAllowList (gl_unicode lib) (observe e (fl_allow f) fs) = Inr al"
    and "statFile e (fl_allow f) fs \<noteq> Inl NoSuchFile"
    and "start_proxies lib e p f prov fs = (Inr tp, fs)"
    and "gl_url lib (''http://'' @ fl_upstream f) = Some up" and "start_listen lib e f fs = Inr li"
  shows "start_gate lib gk salt wfault e p f fs = (Inr \<lparr>gr_options = gate_options salt p f prov tp,
    gr_keys = kf, gr_allow = al, gr_upstream = up, gr_listen = li\<rparr>, fs)"
proof -
  have "create_allow wfault e p (fl_allow f) fs = fs" using assms(7) by (simp add: create_allow_def)
  moreover have "\<not> (fl_domain f = [] \<and> fl_plain f = [] \<and> fl_cert f = [])" using assms(4) by blast
  ultimately show ?thesis
    unfolding start_gate_def assms(1,2,8,9,10) Let_def using assms(3,5,6,8,9,10) by (simp del: append_Cons)
qed

lemma start_proxies_listed:
  assumes "\<forall>path. \<not> e_denied e path" and "prov = ProviderNone \<Longrightarrow> \<not> fl_only_proxy f"
    and "prov \<noteq> ProviderNone \<Longrightarrow> file_text fs (fl_proxies f) = Some r \<and> ParseCIDRs r = Inr nets \<and> nets \<noteq> []"
  shows "\<exists>tp. start_proxies lib e p f prov fs = (Inr tp, fs)"
proof (cases "prov = ProviderNone")
  case True
  then show ?thesis using assms(2) by (simp add: start_proxies_def)
next
  case False
  note r = assms(3) [OF False]
  from r assms(1) obtain tp where "LoadTrustedProxies (observe e (fl_proxies f) fs) = Inr tp" "tp_cur tp = nets"
    using LoadTrustedProxies_gate by blast
  with r False show ?thesis by (simp add: start_proxies_def TrustedProxies_Len_def)
qed

lemma start_listen_runs:
  assumes "\<forall>path. \<not> e_denied e path"
    and "fl_plain f = [] \<Longrightarrow> fl_cert f \<noteq> [] \<Longrightarrow> LoadX509KeyPair (gl_pair_ok lib) e (fl_cert f) (fl_key f) fs \<noteq> None"
    and "fl_plain f = [] \<Longrightarrow> fl_cert f = [] \<Longrightarrow> fl_port f > 0 \<Longrightarrow> fl_port f = 443"
  shows "\<exists>li. start_listen lib e f fs = Inr li"
proof (cases "fl_plain f = [] \<and> fl_cert f \<noteq> []")
  case True
  then obtain a where pair: "LoadX509KeyPair (gl_pair_ok lib) e (fl_cert f) (fl_key f) fs = Some a"
    using assms(2) by blast
  then have "statFile e (fl_cert f) fs \<noteq> Inl err" for err
    using assms(1) by (auto simp: LoadX509KeyPair_def ReadFile_def statFile_def split: sum.splits option.splits)
  then obtain mt where "statFile e (fl_cert f) fs = Inr mt" by (cases "statFile e (fl_cert f) fs") auto
  with True pair show ?thesis by (simp add: start_listen_def certReloader_get_def Let_def)
next
  case False
  then show ?thesis using assms(3) by (auto simp: start_listen_def Let_def)
qed

text \<open>
  C20: If the audit reports no failure, the gate starts: provided that what the audit does not look at is
  right (the lists parse, certificate and key are set together and load, the CDN mode is a known one with
  ranges, only-proxy is not on without a CDN, the upstream is an address), \<open>oversee gate\<close> without flags
  starts, with the locks of the allow list, at least the keys of the key file, and no file changed.
\<close>

theorem clean_report_gate_starts:
  fixes s :: settings
  assumes "Worst (Doctor U cl e p de fs) \<noteq> LevelFail" and "s = LoadSettings U e p fs" and "gl_unicode lib = U"
    and "\<forall>path. \<not> e_denied e path"
    and "gate_keys (file_text fs (p_Keys p)) \<noteq> None"
    and "file_text fs (p_Allow p) = Some t" and "gate_map U (Some t) = Some m"
    and "(cf_Cert s = []) = (cf_Key s = [])" and "ParseProvider U (cf_CDN s) = Some prov"
    and "prov = ProviderNone \<Longrightarrow> \<not> cf_OnlyProxy s"
    and "prov \<noteq> ProviderNone \<Longrightarrow> file_text fs (p_Proxies p) = Some r \<and> ParseCIDRs r = Inr nets \<and> nets \<noteq> []"
    and "gl_url lib (''http://'' @ cf_Upstream s) \<noteq> None"
    and "cf_Plain s = [] \<Longrightarrow> cf_Cert s \<noteq> [] \<Longrightarrow>
      LoadX509KeyPair (gl_pair_ok lib) e (cf_Cert s) (cf_Key s) fs \<noteq> None"
  shows "\<exists>run ks. RunGate lib gk salt wfault e p [] fs = (Inr run, fs) \<and> AllowList_Get (gr_allow run) = m \<and>
    ListKeys e p fs = Inr ks \<and> KeyFile_Get (gr_keys run) = ks @ env_keys gk"
proof -
  let ?f = "gate_defaults p s"
  note clean = clean_report [OF assms(1,2)]
  from clean(1) obtain ks where ks: "ListKeys e p fs = Inr ks" "ks \<noteq> []" by blast
  have "gate_keys (file_text fs (p_Keys p)) = Some ks"
    using ks(1) assms(4,5) by (auto simp: ListKeys_def readLines_text gate_keys_lines split: if_splits)
  with assms(4) obtain kf where kf: "LoadKeyFile (observe e (p_Keys p) fs) (env_keys gk) = Inr kf"
    "KeyFile_Get kf = ks @ env_keys gk" using LoadKeyFile_gate by blast
  from assms(4,6,7) obtain al where al: "LoadAllowList U (observe e (p_Allow p) fs) = Inr al" "AllowList_Get al = m"
    using LoadAllowList_gate by blast
  have stat: "statFile e (p_Allow p) fs \<noteq> Inl NoSuchFile"
    using observe_text [of e "p_Allow p" fs t] assms(4,6) by auto
  have "\<exists>tp. start_proxies lib e p ?f prov fs = (Inr tp, fs)"
    by (rule start_proxies_listed [OF assms(4), where r = r and nets = nets]) (use assms(10,11) in \<open>simp_all add: gate_defaults_def\<close>)
  then obtain tp where tp: "start_proxies lib e p ?f prov fs = (Inr tp, fs)" ..
  have "\<exists>li. start_listen lib e ?f fs = Inr li"
    by (rule start_listen_runs [OF assms(4)]) (use assms(13) clean(3) in \<open>auto simp: gate_defaults_def\<close>)
  then obtain li where li: "start_listen lib e ?f fs = Inr li" ..
  from assms(12) obtain up where up: "gl_url lib (''http://'' @ cf_Upstream s) = Some up" by blast
  have flags: "fl_cdn ?f = cf_CDN s" "fl_keys ?f = p_Keys p" "fl_domain ?f = cf_Domain s" "fl_plain ?f = cf_Plain s"
    "fl_cert ?f = cf_Cert s" "fl_key ?f = cf_Key s" "fl_allow ?f = p_Allow p" "fl_upstream ?f = cf_Upstream s"
    by (simp_all add: gate_defaults_def)
  have ready: "cf_Domain s \<noteq> [] \<or> cf_Plain s \<noteq> [] \<or> cf_Cert s \<noteq> []" using clean(2) by blast
  have "KeyFile_Get kf \<noteq> []" using kf(2) ks(2) by simp
  then have "start_gate lib gk salt wfault e p ?f fs = (Inr \<lparr>gr_options = gate_options salt p ?f prov tp,
      gr_keys = kf, gr_allow = al, gr_upstream = up, gr_listen = li\<rparr>, fs)"
    by (intro start_gate_run) (use assms(3,8,9) kf(1) ready al(1) stat tp up li in \<open>simp_all add: flags\<close>)
  moreover have "RunGate lib gk salt wfault e p [] fs = start_gate lib gk salt wfault e p ?f fs"
    using assms(2,3) by (simp add: RunGate_def)
  ultimately show ?thesis using al(2) kf(2) ks(1) by simp
qed

text \<open>Witness: plain HTTP on port 8080 with one key and an empty allow list.\<close>

definition wit_gate_fs :: fsys where
  "wit_gate_fs = \<lparr>fs_files = map (\<lambda>(path, t). (path, \<lparr>f_data = t, f_mode = perm 6 6 0, f_uid = 0, f_gid = 0,
       f_mtime = 0\<rparr>)) [(''/etc/oversea/gate.conf'', ''PLAIN=:8080''), (''/etc/oversea/keys.txt'', ''0123456789abcdef''),
       (''/etc/oversea/allow.txt'', allow_header)], fs_dirs = []\<rparr>"

definition wit_gate_libs :: gate_libs where
  "wit_gate_libs = \<lparr>gl_unicode = wit_unicode,
     gl_url = (\<lambda>u. Some \<lparr>up_Scheme = ''http'', up_Host = drop 7 u, up_Path = []\<rparr>),
     gl_json = (\<lambda>b. None), gl_client = (\<lambda>u. None), gl_pair_ok = (\<lambda>c k. True)\<rparr>"

definition wit_no_sockets :: doctor_env where
  "wit_no_sockets = \<lparr>de_Listeners = Some [], de_Now = 0, de_Service = None\<rparr>"

abbreviation wit_plain :: settings where
  "wit_plain \<equiv> DefaultSettings\<lparr>cf_Plain := '':8080''\<rparr>"

lemma wit_paths_all:
  "p_Keys wit_paths = ''/etc/oversea/keys.txt''" "p_Allow wit_paths = ''/etc/oversea/allow.txt''"
  "p_Proxies wit_paths = ''/etc/oversea/proxies.txt''"
  by (simp_all add: wit_paths_def DefaultPaths_def JoinPath_def Let_def Clean_def)

lemma wit_gate_texts:
  "file_text wit_gate_fs (p_Keys wit_paths) = Some ''0123456789abcdef''"
  "file_text wit_gate_fs (p_Allow wit_paths) = Some allow_header"
  by (simp_all add: file_text_def wit_gate_fs_def wit_paths_all)

lemma wit_gate_settings: "LoadSettings wit_unicode wit_env wit_paths wit_gate_fs = wit_plain"
proof -
  have "parse_conf wit_unicode ''PLAIN=:8080'' = wit_plain" by code_simp
  moreover have "ReadFile wit_env (p_Conf wit_paths) wit_gate_fs = Inr ''PLAIN=:8080''"
    by (simp add: ReadFile_def wit_env_def wit_gate_fs_def wit_conf)
  ultimately show ?thesis by (simp add: LoadSettings_def)
qed

lemma wit_gate_keys: "gate_keys (file_text wit_gate_fs (p_Keys wit_paths)) = Some [''0123456789abcdef'']"
proof -
  have "strip_comment ''0123456789abcdef'' = ''0123456789abcdef''" by code_simp
  then show ?thesis
    by (simp add: wit_gate_texts gate_keys_def ParseKeys_def ScanLines_def raw_lines_def max_token_def drop_cr_def)
qed

lemma wit_gate_list: "ListKeys wit_env wit_paths wit_gate_fs = Inr [''0123456789abcdef'']"
proof -
  have "\<not> e_denied wit_env (p_Keys wit_paths)" by (simp add: wit_env_def)
  then show ?thesis
    using wit_gate_keys by (auto simp: ListKeys_def readLines_text gate_keys_lines split: if_splits)
qed

lemma wit_gate_allow: "gate_map wit_unicode (Some allow_header) = Some []"
proof -
  obtain h where h: "allow_header = (CHR ''#'' # h) @ [newline]" "newline \<notin> set h" "length h < max_token - 1"
    "CHR 0x0D \<notin> set h" "h \<noteq> []"
    by (simp add: allow_header_def max_token_def)
  then have raw: "raw_lines allow_header = [CHR ''#'' # h]"
    using raw_lines_written [of "[CHR ''#'' # h]"] by simp
  have "fits allow_header" unfolding fits_def raw using h(3) by simp
  moreover have "last h \<noteq> CHR 0x0D" using h(4) last_in_set [OF h(5)] by metis
  then have "drop_cr (CHR ''#'' # h) = CHR ''#'' # h" using h(5) by (simp add: drop_cr_def)
  ultimately have "ScanLines allow_header = ([CHR ''#'' # h], False)" by (simp add: ScanLines_fits raw)
  then show ?thesis
    by (simp add: gate_map_def ParseAllowList_def allow_line_of_def strip_comment_hash Let_def)
qed

lemma wit_gate_audit: "Worst (Doctor wit_unicode wit_cert_lib wit_env wit_paths wit_no_sockets wit_gate_fs) \<noteq> LevelFail"
proof -
  have "EntryPort wit_plain = (8080, False)" "UpstreamPort wit_plain = 10000" by code_simp+
  then have "\<forall>x \<in> set (port_findings wit_plain). fi_Level x \<noteq> LevelFail"
    by (simp add: port_findings_def DefaultSettings_def)
  moreover have "\<forall>x \<in> set (upstream_findings (Some []) u). fi_Level x \<noteq> LevelFail" for u
    by (simp add: upstream_findings_def Let_def finding_of_def)
  moreover have "\<forall>x \<in> set (key_findings wit_paths [''0123456789abcdef''] m). fi_Level x \<noteq> LevelFail" for m
    by (auto simp: key_findings_def finding_of_def split: option.splits if_splits)
  moreover have "\<forall>x \<in> set (lock_findings ls). fi_Level x \<noteq> LevelFail" for ls
    by (simp add: lock_findings_def finding_of_def)
  moreover have "\<forall>x \<in> set (reach_findings wit_cert_lib wit_env wit_plain 0 wit_gate_fs). fi_Level x \<noteq> LevelFail"
    by (simp add: reach_findings_def finding_of_def DefaultSettings_def)
  moreover have "cdn_findings wit_plain info = []" for info by (simp add: cdn_findings_def DefaultSettings_def)
  ultimately show ?thesis
    unfolding Worst_fail Doctor_def wit_gate_settings wit_gate_list Let_def
    by (auto simp: wit_no_sockets_def service_findings_def)
qed

theorem clean_report_gate_starts_witness:
  "\<exists>run. RunGate wit_gate_libs [] ''salt'' NoFault wit_env wit_paths [] wit_gate_fs = (Inr run, wit_gate_fs) \<and>
     KeyFile_Get (gr_keys run) = [''0123456789abcdef''] @ env_keys []"
proof -
  have lib: "gl_unicode wit_gate_libs = wit_unicode" "gl_url wit_gate_libs u \<noteq> None" for u
    by (simp_all add: wit_gate_libs_def)
  have "ParseProvider wit_unicode [] = Some ProviderNone" by code_simp
  then have prov: "ParseProvider wit_unicode (cf_CDN wit_plain) = Some ProviderNone" by (simp add: DefaultSettings_def)
  have "\<exists>run ks. RunGate wit_gate_libs [] ''salt'' NoFault wit_env wit_paths [] wit_gate_fs = (Inr run, wit_gate_fs) \<and>
    AllowList_Get (gr_allow run) = [] \<and> ListKeys wit_env wit_paths wit_gate_fs = Inr ks \<and>
    KeyFile_Get (gr_keys run) = ks @ env_keys []"
    by (rule clean_report_gate_starts [OF wit_gate_audit wit_gate_settings [symmetric] lib(1) _ _ wit_gate_texts(2)
          wit_gate_allow _ prov _ _ lib(2)])
      (simp_all add: wit_gate_keys wit_env_def DefaultSettings_def)
  then show ?thesis by (auto simp: wit_gate_list)
qed

lemma wit_gate_run:
  "\<exists>run. RunGate wit_gate_libs [] ''salt'' NoFault wit_env wit_paths [''-plain'', '':80''] wit_gate_fs =
     (Inr run, wit_gate_fs)"
proof -
  let ?f = "gate_defaults wit_paths wit_plain\<lparr>fl_plain := '':80''\<rparr>"
  have libs: "gl_unicode wit_gate_libs = wit_unicode"
    "gl_url wit_gate_libs u = Some \<lparr>up_Scheme = ''http'', up_Host = drop 7 u, up_Path = []\<rparr>" for u
    by (simp_all add: wit_gate_libs_def)
  have open_files: "\<not> e_denied wit_env path" for path by (simp add: wit_env_def)
  have f: "fl_cdn ?f = []" "fl_domain ?f = []" "fl_plain ?f = '':80''" "fl_cert ?f = []" "fl_key ?f = []"
    "fl_keys ?f = p_Keys wit_paths" "fl_allow ?f = p_Allow wit_paths" "\<not> fl_only_proxy ?f"
    by (simp_all add: gate_defaults_def DefaultSettings_def)
  obtain kf where kf: "LoadKeyFile (observe wit_env (p_Keys wit_paths) wit_gate_fs) (env_keys []) = Inr kf"
    "KeyFile_Get kf = [''0123456789abcdef''] @ env_keys []"
    using LoadKeyFile_gate [OF open_files wit_gate_keys] by blast
  obtain al where al: "LoadAllowList wit_unicode (observe wit_env (p_Allow wit_paths) wit_gate_fs) = Inr al"
    using LoadAllowList_gate [OF open_files wit_gate_texts(2) wit_gate_allow] by blast
  have stat: "statFile wit_env (p_Allow wit_paths) wit_gate_fs \<noteq> Inl NoSuchFile"
    using observe_text [OF open_files wit_gate_texts(2)] by auto
  have prov: "ParseProvider wit_unicode [] = Some ProviderNone" by code_simp
  have "gate_flag ''plain'' = Some (SetString (\<lambda>v f. f\<lparr>fl_plain := v\<rparr>))" by (simp add: gate_flag_def)
  then have "parse_flags gate_flag [''-plain'', '':80''] (gate_defaults wit_paths wit_plain) = Inr (?f, [])"
    by (simp add: parse_flags.simps Cut_def is_bool_flag_def apply_flag_def before_def after_def)
  moreover have "start_gate wit_gate_libs [] ''salt'' NoFault wit_env wit_paths ?f wit_gate_fs =
    (Inr \<lparr>gr_options = gate_options ''salt'' wit_paths ?f ProviderNone None, gr_keys = kf, gr_allow = al,
      gr_upstream = \<lparr>up_Scheme = ''http'', up_Host = drop 7 (''http://'' @ fl_upstream ?f), up_Path = []\<rparr>,
      gr_listen = ListenPlain '':80''\<rparr>, wit_gate_fs)"
    by (rule start_gate_run)
      (use kf al stat prov in \<open>simp_all add: f libs start_proxies_def start_listen_def\<close>)
  ultimately show ?thesis by (simp add: RunGate_def libs wit_gate_settings)
qed

theorem started_gate_is_ready_witness:
  "\<exists>run. RunGate wit_gate_libs [] ''salt'' NoFault wit_env wit_paths [''-plain'', '':80''] wit_gate_fs =
     (Inr run, wit_gate_fs) \<and> gate_ready run"
  using wit_gate_run started_gate_is_ready by blast

end
