(* ===== verification/Oversee_CDNTest.thy ===== *)
theory Oversee_CDNTest
  imports Oversee_Snippet Oversee_Daemon
begin

text \<open>
  \<open>server/internal/oversee/cdntest.go\<close>: the test that sends a probe through the public URL and compares
  what the gate saw with what was sent.  The HTTP client, \<open>http.NewRequest\<close>'s check of the URL and
  \<open>json.Unmarshal\<close> are parameters; the client is given the file system, because the probe file exists
  while it runs.  The lemmas join the test with the gate's handler at the other end.
\<close>

section \<open>The request\<close>

record cdn_request =
  cq_URL :: string
  cq_Header :: "(string, string list) gmap"

definition Header_Set :: "string \<Rightarrow> string \<Rightarrow> (string, string list) gmap \<Rightarrow> (string, string list) gmap" where
  "Header_Set k v h = put (CanonicalHeaderKey k) [v] h"

definition cdn_request_of :: "string \<Rightarrow> string \<Rightarrow> string \<Rightarrow> bool \<Rightarrow> cdn_request" where
  "cdn_request_of baseURL nonce token upgrade =
     (let h = Header_Set auth_header token [];
          h = (if upgrade then
              Header_Set ''Sec-WebSocket-Key'' ''dGhlIHNhbXBsZSBub25jZQ==''
                (Header_Set ''Sec-WebSocket-Version'' ''13''
                  (Header_Set ''Upgrade'' ''websocket'' (Header_Set ''Connection'' ''Upgrade'' h)))
            else h)
      in \<lparr>cq_URL = baseURL @ ProbePath @ nonce, cq_Header = h\<rparr>)"

text \<open>\<open>Inl\<close> is the text of a transport error, \<open>Inr\<close> the status and the body.\<close>

type_synonym cdn_client = "fsys \<Rightarrow> cdn_request \<Rightarrow> string + nat \<times> string"

section \<open>The verdicts\<close>

text \<open>The report in an answer, if the gate gave one.\<close>

definition answer_report :: "(string \<Rightarrow> probe_report option) \<Rightarrow> nat \<Rightarrow> string \<Rightarrow> probe_report option" where
  "answer_report unjson code raw =
     (if code \<noteq> 200 then None
      else (case unjson (take 65536 raw) of
              Some rep \<Rightarrow> if rep_OK rep then Some rep else None
            | None \<Rightarrow> None))"

definition no_answer :: "string \<Rightarrow> nat \<Rightarrow> string \<Rightarrow> finding" where
  "no_answer name code baseURL =
     finding_of LevelFail (name @ '': the gate did not answer the probe'')
       (''HTTP '' @ FormatInt (int code) @ '' from '' @ baseURL @ '' '' @ em_dash @
        '' the CDN may be caching/blocking the path, pointing at a different origin, or the gate isn't the one behind this URL'')
       ''check the CDN's origin settings and that this gate is running with the same config directory''"

definition token_finding :: "string \<Rightarrow> string \<Rightarrow> probe_report \<Rightarrow> finding" where
  "token_finding name token rep =
     (if \<not> HeaderPresent rep then
        finding_of LevelFail (name @ '': the token was STRIPPED'')
          ''the token never reached the gate, so locked files can't connect through this CDN''
          ''remove any CDN rule that drops unknown request data (Fastly VCL / Cloudflare Transform Rules); if you can't, tell me and I'll add a query-string carrier''
      else if HeaderSHA256 rep \<noteq> HeaderDigest token \<or> HeaderLen rep \<noteq> length token then
        finding_of LevelFail (name @ '': the token was ALTERED in transit'')
          (''sent '' @ FormatInt (int (length token)) @ '' bytes, gate received '' @ FormatInt (int (HeaderLen rep)))
          ''look for rewriting rules on the CDN''
      else
        finding_of LevelOK (name @ '': token arrived intact'')
          (FormatInt (int (HeaderLen rep)) @ '' bytes, hash matches'') [])"

definition trust_finding :: "settings \<Rightarrow> probe_report \<Rightarrow> finding" where
  "trust_finding s rep =
     (if cf_CDN s = [] then
        finding_of LevelOK ''Direct mode''
          (''no CDN configured; the gate sees the connecting address '' @ ClientIP rep) []
      else if \<not> ViaTrustedCDN rep then
        finding_of LevelFail ''The request did not come from a trusted CDN range'' (''the gate saw peer '' @ Peer rep)
          (''oversee proxies update (ranges may be old); if you aren't actually behind '' @ cf_CDN s @
             '', run: oversee set cdn none'')
      else
        finding_of LevelOK ''Real client IP is visible''
          (''the gate sees '' @ ClientIP rep @ '' (peer '' @ Peer rep @ '' is a trusted '' @ cf_CDN s @ '' edge)'') [])"

text \<open>One round of the loop.\<close>

definition mode_findings ::
  "cdn_client \<Rightarrow> (string \<Rightarrow> probe_report option) \<Rightarrow> settings \<Rightarrow> string \<Rightarrow> string \<Rightarrow> string \<Rightarrow> fsys \<Rightarrow>
     string \<times> bool \<Rightarrow> finding list" where
  "mode_findings client unjson s baseURL nonce token fs mode =
     (let (name, upgrade) = mode
      in case client fs (cdn_request_of baseURL nonce token upgrade) of
           Inl err \<Rightarrow>
             [finding_of LevelFail (name @ '': request failed'') err
                (''is the gate running and reachable at '' @ baseURL @ '' ? (oversee doctor)'')]
         | Inr (code, raw) \<Rightarrow>
             (case answer_report unjson code raw of
                None \<Rightarrow> [no_answer name code baseURL]
              | Some rep \<Rightarrow>
                  token_finding name token rep # (if upgrade then [] else [trust_finding s rep])))"

datatype cdn_error = NoDomainConfigured | ProbeMkdirFailed | ProbeWriteFailed | BadProbeURL

definition probe_body :: "string \<Rightarrow> int \<Rightarrow> string" where
  "probe_body nonce expiry = nonce @ '' '' @ FormatInt expiry @ [newline]"

definition probe_modes :: "(string \<times> bool) list" where
  "probe_modes = [(''normal request'', False), (''WebSocket upgrade'', True)]"

text \<open>
  \<open>url_ok\<close> is whether \<open>http.NewRequest\<close> accepts the URL; \<open>r16\<close> and \<open>r24\<close> are the random bytes of the
  nonce and of the token.  The deferred \<open>os.Remove\<close> runs on every return after the probe file was written.
\<close>

definition CDNTest ::
  "unicode \<Rightarrow> env \<Rightarrow> paths \<Rightarrow> (string \<Rightarrow> bool) \<Rightarrow> cdn_client \<Rightarrow> (string \<Rightarrow> probe_report option) \<Rightarrow> string \<Rightarrow> string \<Rightarrow>
     string \<Rightarrow> fsys \<Rightarrow> (cdn_error + finding list) \<times> fsys" where
  "CDNTest U e p url_ok client unjson r16 r24 baseURL0 fs =
     (let s = LoadSettings U e p fs
      in if baseURL0 = [] \<and> cf_Domain s = [] then (Inl NoDomainConfigured, fs)
         else
           (let baseURL = TrimRightByte (if baseURL0 = [] then ''https://'' @ cf_Domain s else baseURL0) (CHR ''/'');
                nonce = RandomHex r16
            in case MkdirAll e (p_Dir p) (perm 7 5 0) fs of
                 None \<Rightarrow> (Inl ProbeMkdirFailed, fs)
               | Some fs1 \<Rightarrow>
                   (case writeAtomic e (p_Probe p) (probe_body nonce (Unix (e_now e + 5 * minute))) (perm 6 4 0) fs1 of
                      (False, fs2) \<Rightarrow> (Inl ProbeWriteFailed, fs2)
                    | (True, fs2) \<Rightarrow>
                        (let token = ''cdntest.'' @ RandomHex r24
                         in (if \<not> url_ok (baseURL @ ProbePath @ nonce) then Inl BadProbeURL
                             else Inr (concat (map (mode_findings client unjson s baseURL nonce token fs2) probe_modes)),
                             RemoveFile (p_Probe p) fs2)))))"

section \<open>The probe file\<close>

lemma EncodeHex_spaceless: "spaceless (EncodeHex s)"
proof (rule spaceless_plain)
  have "plain_char c" if "c \<in> set hex_digits" for c using that by (auto simp: hex_digits_def plain_char_def)
  then show "\<forall>c \<in> set (EncodeHex s). plain_char c" using EncodeHex_set by blast
qed

lemma take_word_newline: "\<forall>c \<in> set w. plain_char c \<Longrightarrow> take_word (w @ [newline]) = (w, [newline])"
proof (induction w)
  case Nil
  have "space_at [newline] > 0" by (simp add: space_at_def space_encodings_def HasPrefix_def)
  then show ?case by simp
next
  case (Cons c w)
  then show ?case by (simp add: space_at_plain)
qed

lemma Fields_newline:
  assumes "\<forall>c \<in> set w. plain_char c" and "w \<noteq> []"
  shows "Fields (w @ [newline]) = [w]"
proof -
  have at: "space_at [newline] = 1" by (simp add: space_at_def space_encodings_def HasPrefix_def)
  have "Fields [newline] = []" by (subst Fields.simps) (simp add: at Fields.simps)
  moreover have "space_at (w @ [newline]) = 0" using assms by (cases w) (auto simp: space_at_plain)
  ultimately show ?thesis
    using assms by (subst Fields.simps) (simp add: take_word_newline)
qed

lemma probe_match_body:
  assumes "spaceless nonce" and "length nonce \<ge> 16" and "int64 expiry" and "path \<noteq> []"
  shows "Probe_match (Some \<lparr>probe_File = path\<rparr>) (Some (probe_body nonce expiry)) n t \<longleftrightarrow>
    n = nonce \<and> Unix t \<le> expiry"
proof -
  have "nonce \<noteq> []" using assms(2) by auto
  then have "Fields (probe_body nonce expiry) = nonce # Fields (FormatInt expiry @ [newline])"
    using assms(1) by (simp add: probe_body_def Fields_word_blank)
  also have "\<dots> = [nonce, FormatInt expiry]"
    using FormatInt_plain by (simp add: Fields_newline)
  finally have "Fields (probe_body nonce expiry) = [nonce, FormatInt expiry]" .
  then show ?thesis
    using assms(2,4) by (auto simp: Probe_match_def ParseInt_FormatInt [OF assms(3)])
qed

text \<open>
  The probe file that the test writes is the one the gate accepts: with it in place, the gate answers
  exactly the nonce in the file, and exactly until its expiry second.
\<close>

theorem probe_file_round_trip:
  assumes "spaceless nonce" and "length nonce \<ge> 16" and "int64 expiry" and "path \<noteq> []"
  shows "Probe_match (Some \<lparr>probe_File = path\<rparr>) (Some (probe_body nonce expiry)) n t \<longleftrightarrow>
    n = nonce \<and> Unix t \<le> expiry"
  by (rule probe_match_body [OF assms])

theorem probe_file_round_trip_witness:
  "Probe_match (Some \<lparr>probe_File = ''/etc/oversea/probe.nonce''\<rparr>) (Some (probe_body ''0123456789abcdef'' 300))
     ''0123456789abcdef'' (FromUnix 200)"
proof -
  have "spaceless ''0123456789abcdef''" by (rule spaceless_plain) (simp add: plain_char_def)
  then show ?thesis
    using probe_file_round_trip [of "''0123456789abcdef''" 300 "''/etc/oversea/probe.nonce''"]
    by (simp add: int64_def)
qed

section \<open>The test and the gate at the other end\<close>

text \<open>
  The public URL as a client sees it: \<open>cdn\<close> is what the CDN makes of a request before it reaches the gate,
  which reads the probe file of the same directory; \<open>json\<close> is \<open>json.Encode\<close> of the report.
\<close>

definition gate_behind ::
  "(cdn_request \<Rightarrow> request) \<Rightarrow> (probe_report \<Rightarrow> string) \<Rightarrow> options \<Rightarrow> entries \<Rightarrow> string list \<Rightarrow> env \<Rightarrow> paths \<Rightarrow>
     time \<Rightarrow> time \<Rightarrow> cdn_client" where
  "gate_behind cdn json opt ents ks e p t wall fs q =
     (let probe = (case ReadFile e (p_Probe p) fs of Inl _ \<Rightarrow> None | Inr b \<Rightarrow> Some b)
      in case fst (handle opt ents ks probe t wall (cdn q)) of
           ProbeAnswer rep \<Rightarrow> Inr (200, json rep)
         | NotFound \<Rightarrow> Inr (404, ''404 page not found'')
         | Forward r \<Rightarrow> Inr (502, []))"

definition arrives :: "(cdn_request \<Rightarrow> request) \<Rightarrow> cdn_request \<Rightarrow> string \<Rightarrow> bool" where
  "arrives cdn q token \<longleftrightarrow>
     (let v = Header_Get (cdn q) auth_header
      in v \<noteq> [] \<and> HeaderDigest v = HeaderDigest token \<and> length v = length token)"

lemma handle_answers_probe:
  assumes "origin_ok opt r" and "\<not> is_blocked opt (client_ip opt r) t" and "HasPrefix (Path r) ProbePath"
    and "Probe_match (opt_Probe opt) contents (TrimPrefix (Path r) ProbePath) t"
  shows "fst (handle opt ents ks contents t wall r) =
    ProbeAnswer (Probe_report r (client_ip opt r) (snd (ResolveClientIP r (Proxies opt) (Provider opt))))"
  using assms by (simp add: handle_def origin_ok_def client_ip_def Let_def split_beta)

lemma token_finding_level:
  "fi_Level (token_finding name token (Probe_report (cdn q) ip via)) =
     (if arrives cdn q token then LevelOK else LevelFail)"
  by (auto simp: token_finding_def Probe_report_def arrives_def finding_of_def Let_def)

lemma trust_finding_level:
  "fi_Level (trust_finding s (Probe_report r ip via)) = (if cf_CDN s = [] \<or> via then LevelOK else LevelFail)"
  by (simp add: trust_finding_def Probe_report_def finding_of_def Let_def)

text \<open>
  C19: The test tells the truth about the CDN: when the CDN delivers the probe's path to a gate that shares
  the directory and that would not refuse the client, the levels of the three findings say exactly
  whether the token arrived (same length and digest) on the normal request, whether the gate saw it come
  through a trusted network, and whether the token arrived on the upgrade; and the test leaves no file
  behind and changes no other.
\<close>

theorem cdn_test_verdict:
  fixes s :: settings
  assumes "CDNTest U e p url_ok (gate_behind cdn json opt ents ks e p t wall) unjson r16 r24 base fs = (Inr out, fs')"
    and "s = LoadSettings U e p fs"
    and "baseURL = TrimRightByte (if base = [] then ''https://'' @ cf_Domain s else base) (CHR ''/'')"
    and "q = (\<lambda>up. cdn_request_of baseURL (RandomHex r16) (''cdntest.'' @ RandomHex r24) up)"
    and "opt_Probe opt = Some \<lparr>probe_File = p_Probe p\<rparr>" and "p_Probe p \<noteq> []"
    and "p_Probe p \<noteq> e_tmp e" and "file_text fs (e_tmp e) = None" and "\<not> e_denied e (p_Probe p)"
    and "length r16 = 16" and "int64 (Unix (e_now e + 5 * minute))" and "Unix t \<le> Unix (e_now e + 5 * minute)"
    and "\<forall>up. Path (cdn (q up)) = ProbePath @ RandomHex r16 \<and> origin_ok opt (cdn (q up)) \<and>
      \<not> is_blocked opt (client_ip opt (cdn (q up))) t"
    and "rep = (\<lambda>up. Probe_report (cdn (q up)) (client_ip opt (cdn (q up)))
      (snd (ResolveClientIP (cdn (q up)) (Proxies opt) (Provider opt))))"
    and "\<forall>up. unjson (take 65536 (json (rep up))) = Some (rep up)"
  shows "map fi_Level out =
      [if arrives cdn (q False) (''cdntest.'' @ RandomHex r24) then LevelOK else LevelFail,
       if cf_CDN s = [] \<or> snd (ResolveClientIP (cdn (q False)) (Proxies opt) (Provider opt)) then LevelOK else LevelFail,
       if arrives cdn (q True) (''cdntest.'' @ RandomHex r24) then LevelOK else LevelFail] \<and>
    file_text fs' = (file_text fs)(p_Probe p := None)"
proof -
  let ?body = "probe_body (RandomHex r16) (Unix (e_now e + 5 * minute))"
  let ?token = "''cdntest.'' @ RandomHex r24"
  from assms(1) obtain fs1 fs2 where
    mk: "MkdirAll e (p_Dir p) (perm 7 5 0) fs = Some fs1" and
    w: "writeAtomic e (p_Probe p) ?body (perm 6 4 0) fs1 = (True, fs2)" and
    out: "out = concat (map (mode_findings (gate_behind cdn json opt ents ks e p t wall) unjson s baseURL
      (RandomHex r16) ?token fs2) probe_modes)" and
    fs': "fs' = RemoveFile (p_Probe p) fs2"
    by (auto simp: CDNTest_def Let_def assms(2,3) split: if_splits option.splits prod.splits bool.splits)
  have text1: "file_text fs1 = file_text fs" using file_text_MkdirAll [OF mk] .
  have text2: "file_text fs2 = (file_text fs)(p_Probe p \<mapsto> ?body)"
    using writeAtomic_text [OF assms(7) _ w] assms(8) by (simp add: text1)
  then have read: "ReadFile e (p_Probe p) fs2 = Inr ?body"
    by (simp add: ReadFile_text assms(9) text2)
  have nonce: "spaceless (RandomHex r16)" "16 \<le> length (RandomHex r16)"
    using assms(10) by (simp_all add: RandomHex_def EncodeHex_spaceless)
  have match: "Probe_match (opt_Probe opt) (Some ?body) (RandomHex r16) t"
    using probe_match_body [OF nonce assms(11,6)] assms(12) by (simp add: assms(5))
  have answer: "gate_behind cdn json opt ents ks e p t wall fs2 (q up) =
      Inr (200, json (rep up))" for up
    using assms(13) match
    by (simp add: gate_behind_def read handle_answers_probe TrimPrefix_def Let_def assms(14))
  have told: "unjson (take 65536 (json (rep up))) = Some (rep up)" for up using assms(15) by blast
  have ok: "rep_OK (rep up)" for up by (simp add: assms(14) Probe_report_def Let_def)
  have levels: "map fi_Level out =
      [if arrives cdn (q False) ?token then LevelOK else LevelFail,
       if cf_CDN s = [] \<or> snd (ResolveClientIP (cdn (q False)) (Proxies opt) (Provider opt)) then LevelOK else LevelFail,
       if arrives cdn (q True) ?token then LevelOK else LevelFail]"
    using answer [of False] answer [of True] told ok unfolding assms(4)
    by (simp add: out probe_modes_def mode_findings_def answer_report_def assms(14) assms(4) token_finding_level
        trust_finding_level)
  have "file_text fs' = (file_text fs)(p_Probe p := None)"
    by (auto simp: fs' text2 fun_eq_iff)
  with levels show ?thesis by blast
qed


text \<open>A CDN that delivers every request from one address with the token header intact and all others dropped.\<close>

definition wit_token :: string where
  "wit_token = ''cdntest.'' @ RandomHex (replicate 24 (CHR ''y''))"

definition wit_seen :: request where
  "wit_seen = \<lparr>Method = ''GET'', RemoteAddr = ''192.0.2.1:5'', Path = ProbePath @ RandomHex (replicate 16 (CHR ''x'')),
     Header = [(CanonicalHeaderKey auth_header, [wit_token])]\<rparr>"

definition wit_probe_options :: options where
  "wit_probe_options = \<lparr>Limiter = None, MaxIPsPerLock = 0, Stats = None, Proxies = None, Provider = ProviderNone,
     OnlyProxy = False, opt_Probe = Some \<lparr>probe_File = p_Probe wit_paths\<rparr>, SkewDays = 1\<rparr>"

lemma wit_arrives: "arrives (\<lambda>q. wit_seen) q wit_token"
  by (simp add: arrives_def wit_seen_def Header_Get_def Header_Values_def wit_token_def)

lemma wit_dir: "p_Dir wit_paths = ''/etc/oversea''"
  by (simp add: wit_paths_def DefaultPaths_def Let_def)

lemma wit_probe: "p_Probe wit_paths = ''/etc/oversea/probe.nonce''"
  by (simp add: wit_paths_def DefaultPaths_def JoinPath_def Let_def Clean_def)

lemma wit_passes:
  "Path wit_seen = ProbePath @ RandomHex (replicate 16 (CHR ''x''))" "origin_ok wit_probe_options wit_seen"
  "\<not> is_blocked wit_probe_options ip t" "ResolveClientIP wit_seen (Proxies wit_probe_options) (Provider wit_probe_options) = (peer_host wit_seen, False)"
  "opt_Probe wit_probe_options = Some \<lparr>probe_File = p_Probe wit_paths\<rparr>"
  by (simp_all add: wit_seen_def wit_probe_options_def origin_ok_def is_blocked_def ResolveClientIP_def Let_def)

lemma wit_times: "int64 (Unix (e_now wit_env + 5 * minute))" "Unix 100 \<le> Unix (e_now wit_env + 5 * minute)"
  by (simp_all add: wit_env_def Unix_def minute_def second_def int64_def)

lemma wit_probe_free:
  "p_Probe wit_paths \<noteq> []" "p_Probe wit_paths \<noteq> e_tmp wit_env" "file_text wit_fs (e_tmp wit_env) = None"
  "\<not> e_denied wit_env (p_Probe wit_paths)"
  by (simp_all add: wit_probe) (simp_all add: wit_env_def wit_fs_def file_text_def)

theorem cdn_test_verdict_witness:
  "\<exists>out fs'. CDNTest wit_unicode wit_env wit_paths (\<lambda>u. True)
      (gate_behind (\<lambda>q. wit_seen) (\<lambda>r. []) wit_probe_options [] [] wit_env wit_paths 100 100)
      (\<lambda>b. Some (Probe_report wit_seen (client_ip wit_probe_options wit_seen) False))
      (replicate 16 (CHR ''x'')) (replicate 24 (CHR ''y'')) ''https://example.com'' wit_fs = (Inr out, fs') \<and>
    map fi_Level out = [LevelOK, LevelOK, LevelOK]"
  (is "\<exists>out fs'. ?test = (Inr out, fs') \<and> _")
proof -
  obtain ok fs2 where "writeAtomic wit_env (p_Probe wit_paths) (probe_body (RandomHex (replicate 16 (CHR ''x'')))
      (Unix (e_now wit_env + 5 * minute))) (perm 6 4 0) wit_fs = (ok, fs2)" by fastforce
  moreover from this have "ok" by (metis writeAtomic_ok wit_env_simps(1) fst_conv)
  moreover have "MkdirAll wit_env (p_Dir wit_paths) (perm 7 5 0) wit_fs = Some wit_fs"
    by (simp add: MkdirAll_def wit_env_simps wit_dir wit_fs_def)
  ultimately obtain out fs' where run: "?test = (Inr out, fs')"
    by (simp add: CDNTest_def Let_def)
  have "length (replicate 16 (CHR ''x'')) = 16" by simp
  from cdn_test_verdict [OF run refl refl refl wit_passes(5) wit_probe_free this wit_times _ refl]
  have "map fi_Level out = [LevelOK, LevelOK, LevelOK]"
    using wit_arrives wit_passes by (simp add: wit_load wit_token_def DefaultSettings_def)
  with run show ?thesis by (intro exI conjI)
qed

end
