(* ===== verification/Oversee_Frame.thy ===== *)
theory Oversee_Frame
  imports Oversee_CDNTest
begin

text \<open>
  What the operations of \<open>server/internal/oversee\<close> leave alone: each writes one file at most
  (\<open>frame path\<close>), and one that fails writes none.  The interface and the command line rest on these
  lemmas.
\<close>

definition frame :: "string \<Rightarrow> fsys \<Rightarrow> fsys \<Rightarrow> bool" where
  "frame path fs fs' \<longleftrightarrow> (\<forall>q. q \<noteq> path \<longrightarrow> file_text fs' q = file_text fs q)"

lemma frame_refl: "frame path fs fs" by (simp add: frame_def)

lemma frameD: "frame path fs fs' \<Longrightarrow> file_text fs' q \<noteq> file_text fs q \<Longrightarrow> path = q"
  by (auto simp: frame_def)

lemma writeAtomic_frame:
  assumes "path \<noteq> e_tmp e" and "file_text fs (e_tmp e) = None"
    and "writeAtomic e path data mode fs1 = (ok, fs2)" and "file_text fs1 = file_text fs"
  shows "frame path fs fs2"
  using writeAtomic_text [OF assms(1) _ assms(3)] assms(2,4) by (auto simp: frame_def)

lemma AddLock_frame:
  assumes "AddLock U e p line fs = (res, fs')" and "p_Allow p \<noteq> e_tmp e" and "file_text fs (e_tmp e) = None"
  shows "frame (p_Allow p) fs fs'"
  using assms(1) writeAtomic_frame [OF assms(2,3)] file_text_MkdirAll
  by (auto simp: AddLock_def Let_def frame_def split: option.splits sum.splits prod.splits bool.splits)
     
lemma RevokeLock_frame:
  assumes "RevokeLock U e p pre fs = (res, fs')" and "p_Allow p \<noteq> e_tmp e" and "file_text fs (e_tmp e) = None"
  shows "frame (p_Allow p) fs fs'"
  using assms(1) writeAtomic_frame [OF assms(2,3)]
  by (auto simp: RevokeLock_def Let_def frame_def split: option.splits sum.splits prod.splits bool.splits if_splits list.splits)

lemma writeKeys_frame:
  assumes "writeKeys e p ks fs = (res, fs')" and "p_Keys p \<noteq> e_tmp e" and "file_text fs (e_tmp e) = None"
  shows "frame (p_Keys p) fs fs'"
  using assms(1) writeAtomic_frame [OF assms(2,3)] file_text_MkdirAll
  by (auto simp: writeKeys_def frame_def split: option.splits prod.splits bool.splits)

lemma AddKey_frame:
  assumes "AddKey e p k fs = (res, fs')" and "p_Keys p \<noteq> e_tmp e" and "file_text fs (e_tmp e) = None"
  shows "frame (p_Keys p) fs fs'"
  using assms(1) writeKeys_frame [OF _ assms(2,3)]
  by (auto simp: AddKey_def Let_def frame_refl split: if_splits sum.splits)

lemma RemoveKey_frame:
  assumes "RemoveKey e p i fs = (res, fs')" and "p_Keys p \<noteq> e_tmp e" and "file_text fs (e_tmp e) = None"
  shows "frame (p_Keys p) fs fs'"
  using assms(1) writeKeys_frame [OF _ assms(2,3)]
  by (auto simp: RemoveKey_def frame_refl split: if_splits sum.splits)

lemma SaveSettings_frame:
  assumes "SaveSettings e p st fs = (res, fs')" and "p_Conf p \<noteq> e_tmp e" and "file_text fs (e_tmp e) = None"
  shows "frame (p_Conf p) fs fs'"
  using assms(1) writeAtomic_frame [OF assms(2,3)] file_text_MkdirAll
  by (auto simp: SaveSettings_def frame_def split: option.splits prod.splits bool.splits)

lemma UpdateProxies_frame:
  assumes "UpdateProxies e uj client p prov fs = (res, fs')" and "p_Proxies p \<noteq> e_tmp e" and "file_text fs (e_tmp e) = None"
  shows "frame (p_Proxies p) fs fs'"
  using assms(1) writeAtomic_frame [OF assms(2,3)]
  by (auto simp: UpdateProxies_def Let_def frame_refl split: sum.splits prod.splits bool.splits)

text \<open>A failure changes no file.\<close>

lemma writeAtomic_failed:
  assumes "path \<noteq> e_tmp e" and "file_text fs (e_tmp e) = None"
    and "writeAtomic e path data mode fs1 = (False, fs2)" and "file_text fs1 = file_text fs"
  shows "file_text fs2 = file_text fs"
  using writeAtomic_text [OF assms(1) _ assms(3)] assms(2,4) by simp

lemma writeKeys_error:
  assumes "writeKeys e p ks fs = (Some err, fs')" and "p_Keys p \<noteq> e_tmp e" and "file_text fs (e_tmp e) = None"
  shows "file_text fs' = file_text fs"
  using assms(1) writeAtomic_failed [OF assms(2,3)] file_text_MkdirAll
  by (auto simp: writeKeys_def split: option.splits prod.splits bool.splits)

lemma AddKey_error:
  assumes "AddKey e p k fs = (Some err, fs')" and "p_Keys p \<noteq> e_tmp e" and "file_text fs (e_tmp e) = None"
  shows "file_text fs' = file_text fs"
  using assms(1) writeKeys_error [OF _ assms(2,3)]
  by (auto simp: AddKey_def Let_def split: if_splits sum.splits)

lemma RemoveKey_error:
  assumes "RemoveKey e p i fs = (Some err, fs')" and "p_Keys p \<noteq> e_tmp e" and "file_text fs (e_tmp e) = None"
  shows "file_text fs' = file_text fs"
  using assms(1) writeKeys_error [OF _ assms(2,3)]
  by (auto simp: RemoveKey_def split: if_splits sum.splits)

lemma SetSetting_error:
  assumes "SetSetting U e p name v fs = (Some err, fs')" and "p_Conf p \<noteq> e_tmp e" and "file_text fs (e_tmp e) = None"
  shows "file_text fs' = file_text fs"
  using assms(1) SaveSettings_error [OF _ assms(2,3)] by (auto simp: SetSetting_def split: sum.splits)

lemma UpdateProxies_error:
  assumes "UpdateProxies e uj client p prov fs = (Inl err, fs')" and "p_Proxies p \<noteq> e_tmp e" and "file_text fs (e_tmp e) = None"
  shows "file_text fs' = file_text fs"
  using assms(1) writeAtomic_failed [OF assms(2,3)]
  by (auto simp: UpdateProxies_def Let_def split: sum.splits prod.splits bool.splits)

text \<open>The CDN test leaves at most the loss of a probe file behind, and nothing at all when it does not start.\<close>

lemma CDNTest_frame:
  assumes "CDNTest U e p url_ok client unjson r16 r24 base fs = (res, fs')" and "p_Probe p \<noteq> e_tmp e"
    and "file_text fs (e_tmp e) = None"
  shows "frame (p_Probe p) fs fs'"
  using assms(1) writeAtomic_frame [OF assms(2,3)] file_text_MkdirAll
  by (auto simp: CDNTest_def Let_def frame_def split: if_splits option.splits prod.splits bool.splits)

lemma CDNTest_no_probe:
  assumes "CDNTest U e p url_ok client unjson r16 r24 base fs = (res, fs')" and "p_Probe p \<noteq> e_tmp e"
    and "file_text fs (e_tmp e) = None" and "file_text fs (p_Probe p) = None"
  shows "file_text fs' = file_text fs"
proof
  fix q
  have "file_text fs' (p_Probe p) = None"
    using assms(1,4) writeAtomic_failed [OF assms(2,3)] file_text_MkdirAll
    by (auto simp: CDNTest_def Let_def split: if_splits option.splits prod.splits bool.splits)
  with CDNTest_frame [OF assms(1-3)] assms(4) show "file_text fs' q = file_text fs q"
    by (cases "q = p_Probe p") (simp_all add: frame_def)
qed

end
