(* ===== verification/Oversee_Service.thy ===== *)
theory Oversee_Service
  imports Oversee_Doctor
begin

text \<open>
  The systemd part of \<open>server/internal/oversee/oversee.go\<close> (\<open>Status\<close>, \<open>Control\<close>, \<open>Logs\<close>) and
  \<open>ReadSnapshot\<close> of \<open>server/internal/gate/stats.go\<close>.  The programs \<open>systemctl\<close> and \<open>journalctl\<close> are
  parameters that work on a state of the system of any type; \<open>json.Unmarshal\<close> is a parameter too.
\<close>

text \<open>
  \<open>sy_LookPath\<close> says whether a program is on the path; \<open>sy_Output\<close> is the standard output of a command
  that only reads the state; \<open>sy_CombinedOutput\<close> runs a command and gives its output, the text of its
  error if it failed, and the state after it.
\<close>

record 's systemd =
  sy_LookPath :: "string \<Rightarrow> bool"
  sy_Output :: "string list \<Rightarrow> 's \<Rightarrow> string"
  sy_CombinedOutput :: "string list \<Rightarrow> 's \<Rightarrow> (string \<times> string option) \<times> 's"

definition ServiceName :: string where
  "ServiceName = ''oversee-gate''"

definition systemctlOut :: "'s systemd \<Rightarrow> string list \<Rightarrow> 's \<Rightarrow> string" where
  "systemctlOut sy args st =
     (let s = TrimSpace (sy_Output sy (''systemctl'' # args) st)
      in if s = [] then ''unknown'' else s)"

definition ServiceStatus :: "'s systemd \<Rightarrow> 's \<Rightarrow> service_state" where
  "ServiceStatus sy st =
     (if \<not> sy_LookPath sy ''systemctl'' then
        \<lparr>sv_Available = False, sv_Active = ''unknown'', sv_Enabled = ''unknown''\<rparr>
      else
        \<lparr>sv_Available = True, sv_Active = systemctlOut sy [''is-active'', ServiceName] st,
         sv_Enabled = systemctlOut sy [''is-enabled'', ServiceName] st\<rparr>)"

datatype control_error = UnknownAction string | CommandFailed string string

definition Control :: "'s systemd \<Rightarrow> string \<Rightarrow> 's \<Rightarrow> control_error option \<times> 's" where
  "Control sy action st =
     (if action = ''start'' \<or> action = ''stop'' \<or> action = ''restart'' \<or> action = ''enable'' \<or> action = ''disable'' then
        (let ((out, err), st') = sy_CombinedOutput sy [''systemctl'', action, ServiceName] st
         in (case err of None \<Rightarrow> None | Some t \<Rightarrow> Some (CommandFailed t (TrimSpace out)), st'))
      else (Some (UnknownAction action), st))"

definition Logs :: "'s systemd \<Rightarrow> int \<Rightarrow> 's \<Rightarrow> string" where
  "Logs sy n st =
     (if \<not> sy_LookPath sy ''journalctl'' then ''journalctl not available on this system''
      else TrimSpace (fst (fst (sy_CombinedOutput sy
        [''journalctl'', ''-u'', ServiceName, ''-n'', FormatInt n, ''--no-pager'', ''-o'', ''short''] st))))"

definition ReadSnapshot :: "(string \<Rightarrow> snapshot option) \<Rightarrow> env \<Rightarrow> string \<Rightarrow> fsys \<Rightarrow> snapshot option" where
  "ReadSnapshot unjson e path fs =
     (case ReadFile e path fs of Inl _ \<Rightarrow> None | Inr b \<Rightarrow> unjson b)"

section \<open>A duration in minutes\<close>

text \<open>
  \<open>d.Round(time.Minute)\<close> of a duration that is not negative, as \<open>Duration.String\<close> writes it; a value that
  does not fit after rounding up is the largest duration.
\<close>

definition minutes_string :: "duration \<Rightarrow> string" where
  "minutes_string d =
     (let r = d mod minute; x = (if r + r < minute then d - r else d + minute - r)
      in if 2 ^ 63 \<le> x then ''2562047h47m16.854775807s''
         else if x = 0 then ''0s''
         else if x < hour then FormatInt (x div minute) @ ''m0s''
         else FormatInt (x div hour) @ ''h'' @ FormatInt (x mod hour div minute) @ ''m0s'')"

end
