(* ===== verification/Oversee_Main.thy ===== *)
theory Oversee_Main
  imports Oversee_Frame Oversee_Service
begin

text \<open>
  \<open>server/cmd/oversee/main.go\<close>: the command line.  A run is a function of the arguments, the host and the
  file system; its result is what the process prints and how it ends.  The gate is followed up to the call
  that serves, the terminal interface is the theory \<open>Tui\<close>.  Error texts are kept as error values.
\<close>

section \<open>How a run ends\<close>

datatype main_error =
    ReadErr read_error | ToolErr tool_error | GateErr gate_error | ListErr list_error | CdnErr cdn_error
  | OtherErr string

datatype death = Usage string | Fatal main_error | UnknownCommand string

text \<open>
  \<open>Done\<close> and \<open>Findings\<close> have the standard output; \<open>Findings\<close> is a report with a failure in it.
\<close>

datatype outcome = Interactive | Serving gate_run | Done string | Findings string | Die death

fun exit_code :: "outcome \<Rightarrow> nat" where
  "exit_code Interactive = 0"
| "exit_code (Serving run) = 0"
| "exit_code (Done out) = 0"
| "exit_code (Findings out) = 1"
| "exit_code (Die (Usage u)) = 2"
| "exit_code (Die (UnknownCommand c)) = 2"
| "exit_code (Die (Fatal err)) = 1"

record 's main_host =
  mh_version :: string
  mh_env :: env
  mh_cert :: cert_lib
  mh_systemd :: "'s systemd"
  mh_system :: 's
  mh_libs :: gate_libs
  mh_gate_keys :: string
  mh_salt :: string
  mh_wfault :: fault
  mh_url_ok :: "string \<Rightarrow> bool"
  mh_cdn :: cdn_client
  mh_report :: "string \<Rightarrow> probe_report option"
  mh_nonce :: string
  mh_token :: string
  mh_gid :: "int option"
  mh_chown_fails :: "string \<Rightarrow> bool"
  mh_chmod_fails :: "string \<Rightarrow> bool"

section \<open>The commands\<close>

definition warn_sign :: string where
  "warn_sign = [CHR 0xE2, CHR 0x9A, CHR 0xA0]"

definition fail_sign :: string where
  "fail_sign = [CHR 0xE2, CHR 0x9C, CHR 0x97]"

definition check_sign :: string where
  "check_sign = [CHR 0xE2, CHR 0x9C, CHR 0x93]"

definition dots :: string where
  "dots = [CHR 0xE2, CHR 0x80, CHR 0xA6]"

definition println :: "string \<Rightarrow> string" where
  "println s = s @ [newline]"

definition dash :: "string \<Rightarrow> string" where
  "dash s = (if s = [] then ''-'' else s)"

text \<open>\<open>need\<close>: too few arguments end the process with the usage.\<close>

definition need :: "string list \<Rightarrow> nat \<Rightarrow> string \<Rightarrow> fsys \<Rightarrow> (string list \<Rightarrow> outcome \<times> fsys) \<Rightarrow> outcome \<times> fsys" where
  "need a n usage fs k = (if length a < n then (Die (Usage usage), fs) else k a)"

definition cmd_gate :: "'s main_host \<Rightarrow> paths \<Rightarrow> string list \<Rightarrow> fsys \<Rightarrow> outcome \<times> fsys" where
  "cmd_gate h p args fs =
     (case RunGate (mh_libs h) (mh_gate_keys h) (mh_salt h) (mh_wfault h) (mh_env h) p (drop 1 args) fs of
        (Inl err, fs') \<Rightarrow> (Die (Fatal (GateErr err)), fs')
      | (Inr run, fs') \<Rightarrow> (Serving run, fs'))"

definition cmd_list :: "'s main_host \<Rightarrow> paths \<Rightarrow> fsys \<Rightarrow> outcome" where
  "cmd_list h p fs =
     (case Locks (gl_unicode (mh_libs h)) (mh_env h) p fs of
        Inl err \<Rightarrow> Die (Fatal (ReadErr err))
      | Inr ls \<Rightarrow>
          Done ((if ls = [] then println ''no locks'' else []) @
            concat (map (\<lambda>l. println (lk_CodeID l @ ''  '' @ lk_CreatorFp l @ ''  '' @ lk_Note l)) ls)))"

definition cmd_add :: "'s main_host \<Rightarrow> paths \<Rightarrow> string list \<Rightarrow> fsys \<Rightarrow> outcome \<times> fsys" where
  "cmd_add h p args fs =
     (case AddLock (gl_unicode (mh_libs h)) (mh_env h) p (Join (drop 1 args) '' '') fs of
        (Inl err, fs') \<Rightarrow> (Die (Fatal (ToolErr err)), fs')
      | (Inr l, fs') \<Rightarrow>
          (Done (println (''added '' @ lk_CodeID l @ '' ('' @ lk_CreatorFp l @ ('') '' @ em_dash @ '' live within a few seconds''))), fs'))"

definition cmd_revoke :: "'s main_host \<Rightarrow> paths \<Rightarrow> string list \<Rightarrow> fsys \<Rightarrow> outcome \<times> fsys" where
  "cmd_revoke h p args fs =
     (case RevokeLock (gl_unicode (mh_libs h)) (mh_env h) p (args ! 1) fs of
        (Inl err, fs') \<Rightarrow> (Die (Fatal (ToolErr err)), fs')
      | (Inr l, fs') \<Rightarrow>
          (Done (println (''revoked '' @ lk_CodeID l @ '' ('' @ lk_Note l @
             ('') '' @ em_dash @ '' every copy stops working within a few seconds''))), fs'))"

definition cmd_keys :: "'s main_host \<Rightarrow> paths \<Rightarrow> fsys \<Rightarrow> outcome" where
  "cmd_keys h p fs =
     (case ListKeys (mh_env h) p fs of
        Inl err \<Rightarrow> Die (Fatal (ReadErr err))
      | Inr ks \<Rightarrow>
          Done ((if ks = [] then println ''no app keys (the gate refuses everyone until you add one)'' else []) @
            concat (map (\<lambda>i. println (MaskKey (ks ! i) @ ''  '' @ (if i = 0 then ''current'' else ''previous'')))
              [0 ..< length ks])))"

definition cmd_key :: "'s main_host \<Rightarrow> paths \<Rightarrow> string list \<Rightarrow> fsys \<Rightarrow> outcome \<times> fsys" where
  "cmd_key h p args fs =
     (if args ! 1 \<noteq> ''add'' then (Die (Fatal (OtherErr (''unknown: key '' @ args ! 1))), fs)
      else
        (case AddKey (mh_env h) p (args ! 2) fs of
           (Some err, fs') \<Rightarrow> (Die (Fatal (ToolErr err)), fs')
         | (None, fs') \<Rightarrow> (Done (println ''key added as current''), fs')))"

definition cmd_status :: "'s main_host \<Rightarrow> paths \<Rightarrow> fsys \<Rightarrow> outcome" where
  "cmd_status h p fs =
     (let st = ServiceStatus (mh_systemd h) (mh_system h);
          locks = (case Locks (gl_unicode (mh_libs h)) (mh_env h) p fs of Inl _ \<Rightarrow> [] | Inr ls \<Rightarrow> ls);
          ks = (case ListKeys (mh_env h) p fs of Inl _ \<Rightarrow> [] | Inr ks \<Rightarrow> ks);
          s = LoadSettings (gl_unicode (mh_libs h)) (mh_env h) p fs
      in Done (println (''service: '' @ sv_Active st @ '' (boot: '' @ sv_Enabled st @ '')'') @
           println (''domain:  '' @ dash (cf_Domain s)) @
           println (''upstream: '' @ cf_Upstream s) @
           println (''locks:   '' @ FormatInt (int (length locks))) @
           println (''app keys: '' @ FormatInt (int (length ks)))))"

fun mark :: "level \<Rightarrow> string" where
  "mark LevelOK = check_sign"
| "mark LevelWarn = warn_sign"
| "mark LevelFail = fail_sign"

definition doctor_lines :: "finding \<Rightarrow> string" where
  "doctor_lines f =
     println (mark (fi_Level f) @ '' '' @ fi_Title f) @
     (if fi_Level f \<noteq> LevelOK then
        println (''    '' @ fi_Detail f) @ (if fi_Fix f \<noteq> [] then println (''    fix: '' @ fi_Fix f) else [])
      else [])"

definition verdict :: "finding list \<Rightarrow> string \<Rightarrow> outcome" where
  "verdict fs out = (if Worst fs = LevelFail then Findings out else Done out)"

definition cmd_doctor :: "'s main_host \<Rightarrow> paths \<Rightarrow> fsys \<Rightarrow> outcome" where
  "cmd_doctor h p fs =
     (let findings = Doctor (gl_unicode (mh_libs h)) (mh_cert h) (mh_env h) p
            (RealDoctorEnv (mh_env h) (ServiceStatus (mh_systemd h) (mh_system h)) fs) fs
      in verdict findings (concat (map doctor_lines findings)))"

definition cdn_lines :: "finding \<Rightarrow> string" where
  "cdn_lines f =
     doctor_lines f @
     (if fi_Level f = LevelOK \<and> fi_Detail f \<noteq> [] then println (''    '' @ fi_Detail f) else [])"

text \<open>The argument after the last \<open>--url\<close> that has one.\<close>

definition url_arg :: "string list \<Rightarrow> string" where
  "url_arg args =
     fold (\<lambda>i url. if args ! i = ''--url'' then args ! (i + 1) else url) [1 ..< length args - 1] []"

definition cmd_cdn_test :: "'s main_host \<Rightarrow> paths \<Rightarrow> string list \<Rightarrow> fsys \<Rightarrow> outcome \<times> fsys" where
  "cmd_cdn_test h p args fs =
     (case CDNTest (gl_unicode (mh_libs h)) (mh_env h) p (mh_url_ok h) (mh_cdn h) (mh_report h) (mh_nonce h)
         (mh_token h) (url_arg args) fs of
        (Inl err, fs') \<Rightarrow> (Die (Fatal (CdnErr err)), fs')
      | (Inr findings, fs') \<Rightarrow> (verdict findings (concat (map cdn_lines findings)), fs'))"

definition cmd_set :: "'s main_host \<Rightarrow> paths \<Rightarrow> string list \<Rightarrow> fsys \<Rightarrow> outcome \<times> fsys" where
  "cmd_set h p args fs =
     (case SetSetting (gl_unicode (mh_libs h)) (mh_env h) p (args ! 1) (args ! 2) fs of
        (Some err, fs') \<Rightarrow> (Die (Fatal (ToolErr err)), fs')
      | (None, fs') \<Rightarrow>
          (Done (println (args ! 1 @
             ('' saved '' @ em_dash @ '' restart the gate to apply (sudo systemctl restart oversee-gate)''))), fs'))"

definition bool_string :: "bool \<Rightarrow> string" where
  "bool_string b = (if b then ''true'' else ''false'')"

definition proxies_update :: "'s main_host \<Rightarrow> paths \<Rightarrow> string list \<Rightarrow> fsys \<Rightarrow> outcome \<times> fsys" where
  "proxies_update h p args fs =
     (let prov = (if length args > 2 then args ! 2 else cf_CDN (LoadSettings (gl_unicode (mh_libs h)) (mh_env h) p fs))
      in if prov \<noteq> ''cloudflare'' \<and> prov \<noteq> ''fastly'' then
           (Die (Fatal (OtherErr
              ''pick a CDN: oversee proxies update cloudflare|fastly (or set it in Setup)'')), fs)
         else
           (case UpdateProxies (mh_env h) (gl_json (mh_libs h)) (gl_client (mh_libs h)) p prov fs of
              (Inl err, fs') \<Rightarrow> (Die (Fatal (ListErr err)), fs')
            | (Inr n, fs') \<Rightarrow>
                (Done (println (prov @ '': '' @ FormatInt (int n) @ '' ranges written to '' @ p_Proxies p @
                   '' (the running gate picks them up within seconds)'')), fs')))"

definition proxies_show :: "'s main_host \<Rightarrow> paths \<Rightarrow> fsys \<Rightarrow> outcome" where
  "proxies_show h p fs =
     (let i = ProxyInfo (mh_env h) p fs; s = LoadSettings (gl_unicode (mh_libs h)) (mh_env h) p fs
      in Done (println (''cdn: '' @ dash (cf_CDN s) @ ''  | '' @
           (if pl_Age i < 0 then ''no proxies.txt yet''
            else FormatInt (int (pl_Count i)) @ '' ranges | updated '' @ minutes_string (pl_Age i) @
              '' ago | only-proxy: '' @ bool_string (cf_OnlyProxy s)))))"

definition cmd_proxies :: "'s main_host \<Rightarrow> paths \<Rightarrow> string list \<Rightarrow> fsys \<Rightarrow> outcome \<times> fsys" where
  "cmd_proxies h p args fs =
     (let sub = (if length args > 1 then args ! 1 else ''show'')
      in if sub = ''update'' then proxies_update h p args fs
         else if sub = ''show'' then (proxies_show h p fs, fs)
         else (Die (Fatal (OtherErr (''unknown: proxies '' @ sub))), fs))"

definition cmd_fixperms :: "'s main_host \<Rightarrow> paths \<Rightarrow> fsys \<Rightarrow> outcome \<times> fsys" where
  "cmd_fixperms h p fs =
     (case FixPerms (mh_env h) (mh_gid h) (mh_chown_fails h) (mh_chmod_fails h) (p_Dir p) fs of
        (Inl err, fs') \<Rightarrow> (Die (Fatal (ReadErr err)), fs')
      | (Inr n, fs') \<Rightarrow> (Done (println (''fixed '' @ FormatInt (int n) @ '' files in '' @ p_Dir p)), fs'))"

definition helpText :: string where
  "helpText = concat (map println
     [[],
      (''oversee '' @ em_dash @ '' manage the Oversea gate''),
      [],
      ''  oversee                 interactive manager (TUI)'',
      ''  oversee gate            run the gate (the systemd service does this)'',
      ''  oversee list            list allowed locks'',
      ''  oversee add \"<line>\"    allow a lock (the line the app shows after locking)'',
      ''  oversee revoke <id>     revoke a lock (id or code, at least 4 characters)'',
      ''  oversee keys            list app keys (masked)'',
      ''  oversee key add <key>   make <key> the current app key'',
      ''  oversee cdn-test        check the token and real client IP survive your CDN'',
      ''  oversee doctor          audit the setup (is Xray reachable around the gate?)'',
      (''  oversee set <name> <v>  change a setting (domain, upstream, cdn, only-proxy, cert, key, '' @ dots @ '')''),
      ''  oversee proxies update  refresh the CDN's IP ranges (cloudflare|fastly)'',
      ''  oversee proxies         show the CDN mode and range count'',
      ''  oversee status          service state and counts'',
      ''  oversee version''])"

section \<open>The dispatch\<close>

definition main :: "'s main_host \<Rightarrow> paths \<Rightarrow> string list \<Rightarrow> fsys \<Rightarrow> outcome \<times> fsys" where
  "main h p args fs =
     (if args = [] then (Interactive, fs)
      else
        (let c = args ! 0
         in if c = ''gate'' then cmd_gate h p args fs
            else if c = ''list'' \<or> c = ''ls'' then (cmd_list h p fs, fs)
            else if c = ''add'' then
              need args 2 ''oversee add \"<code> <fingerprint> [note]\"'' fs (\<lambda>args. cmd_add h p args fs)
            else if c = ''revoke'' \<or> c = ''rm'' then
              need args 2 ''oversee revoke <lock id or code>'' fs (\<lambda>args. cmd_revoke h p args fs)
            else if c = ''keys'' then (cmd_keys h p fs, fs)
            else if c = ''key'' then need args 3 ''oversee key add <key>'' fs (\<lambda>args. cmd_key h p args fs)
            else if c = ''status'' then (cmd_status h p fs, fs)
            else if c = ''doctor'' then (cmd_doctor h p fs, fs)
            else if c = ''cdn-test'' then cmd_cdn_test h p args fs
            else if c = ''set'' then
              need args 3 ''oversee set <domain|upstream|plain|leak-ips|cdn|only-proxy|cert|key> <value>'' fs
                (\<lambda>args. cmd_set h p args fs)
            else if c = ''proxies'' then cmd_proxies h p args fs
            else if c = ''fixperms'' then cmd_fixperms h p fs
            else if c = ''version'' \<or> c = ''-v'' \<or> c = ''--version'' then
              (Done (println (''oversee '' @ mh_version h)), fs)
            else if c = ''help'' \<or> c = ''-h'' \<or> c = ''--help'' then
              (Done (dropWhile (\<lambda>c. c = newline) helpText), fs)
            else (Die (UnknownCommand c), fs)))"

section \<open>What a command changes\<close>

lemma fixed_texts:
  "map_option f_data (lookup (map (\<lambda>pf. if P pf then fix_file cf mf g pf else pf) xs) q) = map_option f_data (lookup xs q)"
proof (induction xs)
  case (Cons pf xs)
  obtain k v where pf: "fix_file cf mf g pf = (k, v)" by fastforce
  have "k = fst pf" "f_data v = f_data (snd pf)"
    using pf by (cases pf; auto simp: fix_file_def split: if_splits)+
  with Cons pf show ?case by (cases pf) auto
qed simp

lemma FixPerms_text: "FixPerms e gid cf mf dir fs = (res, fs') \<Longrightarrow> file_text fs' = file_text fs"
  by (auto simp: FixPerms_def Let_def file_text_def fun_eq_iff fixed_texts split: if_splits option.splits)

text \<open>The file that a command may write; the gate is a case of its own.\<close>

definition writes :: "paths \<Rightarrow> string list \<Rightarrow> string option" where
  "writes p args =
     (let c = args ! 0
      in if args = [] then None
         else if c = ''add'' \<or> c = ''revoke'' \<or> c = ''rm'' then Some (p_Allow p)
         else if c = ''key'' then Some (p_Keys p)
         else if c = ''set'' then Some (p_Conf p)
         else if c = ''proxies'' then Some (p_Proxies p)
         else if c = ''cdn-test'' then Some (p_Probe p)
         else None)"

definition no_tmp :: "env \<Rightarrow> paths \<Rightarrow> fsys \<Rightarrow> bool" where
  "no_tmp e p fs \<longleftrightarrow> file_text fs (e_tmp e) = None \<and> p_Allow p \<noteq> e_tmp e \<and> p_Keys p \<noteq> e_tmp e \<and>
     p_Conf p \<noteq> e_tmp e \<and> p_Proxies p \<noteq> e_tmp e \<and> p_Probe p \<noteq> e_tmp e"

text \<open>A command that writes at most \<open>path\<close>, and nothing if it fails.\<close>

definition all_or_nothing :: "string \<Rightarrow> fsys \<Rightarrow> outcome \<times> fsys \<Rightarrow> bool" where
  "all_or_nothing path fs r \<longleftrightarrow>
     frame path fs (snd r) \<and> (exit_code (fst r) \<noteq> 0 \<longrightarrow> file_text (snd r) = file_text fs)"

lemma all_or_nothing_same: "file_text fs' = file_text fs \<Longrightarrow> all_or_nothing path fs (out, fs')"
  by (simp add: all_or_nothing_def frame_def)

lemma need_all_or_nothing:
  "(n \<le> length a \<Longrightarrow> all_or_nothing path fs (k a)) \<Longrightarrow> all_or_nothing path fs (need a n u fs k)"
  by (simp add: need_def all_or_nothing_same)

lemma commands_all_or_nothing:
  assumes "no_tmp (mh_env h) p fs"
  shows "all_or_nothing (p_Allow p) fs (cmd_add h p args fs)"
    and "all_or_nothing (p_Allow p) fs (cmd_revoke h p args fs)"
    and "all_or_nothing (p_Keys p) fs (cmd_key h p args fs)"
    and "all_or_nothing (p_Conf p) fs (cmd_set h p args fs)"
    and "all_or_nothing (p_Proxies p) fs (cmd_proxies h p args fs)"
proof -
  have tmp: "p_Allow p \<noteq> e_tmp (mh_env h)" "p_Keys p \<noteq> e_tmp (mh_env h)" "p_Conf p \<noteq> e_tmp (mh_env h)"
    "p_Proxies p \<noteq> e_tmp (mh_env h)" "file_text fs (e_tmp (mh_env h)) = None"
    using assms by (simp_all add: no_tmp_def)
  show "all_or_nothing (p_Allow p) fs (cmd_add h p args fs)"
    using AddLock_frame [OF _ tmp(1,5)] AddLock_error [OF _ tmp(1,5)]
    by (auto simp: cmd_add_def all_or_nothing_def split: prod.splits sum.splits)
  show "all_or_nothing (p_Allow p) fs (cmd_revoke h p args fs)"
    using RevokeLock_frame [OF _ tmp(1,5)] RevokeLock_error [OF _ tmp(1,5)]
    by (auto simp: cmd_revoke_def all_or_nothing_def split: prod.splits sum.splits)
  show "all_or_nothing (p_Keys p) fs (cmd_key h p args fs)"
    using AddKey_frame [OF _ tmp(2,5)] AddKey_error [OF _ tmp(2,5)]
    by (auto simp: cmd_key_def all_or_nothing_def frame_refl split: prod.splits option.splits)
  have "frame (p_Conf p) fs fs'" if "SetSetting U (mh_env h) p x y fs = (r, fs')" for U x y r fs'
    using that SaveSettings_frame [OF _ tmp(3,5)] by (auto simp: SetSetting_def frame_refl split: sum.splits)
  then show "all_or_nothing (p_Conf p) fs (cmd_set h p args fs)"
    using SetSetting_error [OF _ tmp(3,5)]
    by (auto simp: cmd_set_def all_or_nothing_def split: prod.splits option.splits)
  show "all_or_nothing (p_Proxies p) fs (cmd_proxies h p args fs)"
    using UpdateProxies_frame [OF _ tmp(4,5)] UpdateProxies_error [OF _ tmp(4,5)]
    by (auto simp: cmd_proxies_def proxies_update_def Let_def all_or_nothing_def frame_refl
        split: prod.splits sum.splits)
qed

lemma read_only_commands:
  "cmd_fixperms h p fs = (out, fs') \<Longrightarrow> file_text fs' = file_text fs"
  using FixPerms_text by (auto simp: cmd_fixperms_def split: prod.splits sum.splits)

text \<open>
  A command of \<open>oversee\<close> (other than the gate itself) changes at most the file it is for, and a command
  that ends with an exit code other than zero (wrong arguments, bad input, an unreadable list, a full disk,
  a failed download, a failed check) has left every file as it was.
\<close>

theorem failed_command_changes_nothing:
  assumes "main h p args fs = (out, fs')" and "args \<noteq> []" and "args ! 0 \<noteq> ''gate''"
    and "no_tmp (mh_env h) p fs" and "file_text fs (p_Probe p) = None"
  shows "(\<forall>q. file_text fs' q \<noteq> file_text fs q \<longrightarrow> writes p args = Some q) \<and>
    (exit_code out \<noteq> 0 \<longrightarrow> file_text fs' = file_text fs)"
proof (cases "writes p args")
  case None
  with assms(1-3) have "file_text fs' = file_text fs"
    using read_only_commands unfolding main_def writes_def Let_def by (auto split: if_splits)
  then show ?thesis by simp
next
  case (Some path)
  have "p_Probe p \<noteq> e_tmp (mh_env h)" "file_text fs (e_tmp (mh_env h)) = None"
    using assms(4) by (simp_all add: no_tmp_def)
  then have probe: "all_or_nothing (p_Probe p) fs (cmd_cdn_test h p args fs)"
    using CDNTest_no_probe [OF _ _ _ assms(5)]
    by (auto simp: cmd_cdn_test_def all_or_nothing_def frame_def split: prod.splits sum.splits)
  have "all_or_nothing path fs (main h p args fs)"
    using Some assms(2) commands_all_or_nothing [OF assms(4)] probe
    unfolding main_def writes_def Let_def by (auto intro!: need_all_or_nothing split: if_splits)
  then show ?thesis by (auto simp: assms(1) Some all_or_nothing_def dest: frameD)
qed

text \<open>A root shell on a directory without a list.\<close>

definition wit_main :: "unit main_host" where
  "wit_main = \<lparr>mh_version = ''dev'', mh_env = wit_env, mh_cert = wit_cert_lib,
     mh_systemd = \<lparr>sy_LookPath = (\<lambda>x. False), sy_Output = (\<lambda>c s. []), sy_CombinedOutput = (\<lambda>c s. (([], None), s))\<rparr>,
     mh_system = (), mh_libs = wit_gate_libs, mh_gate_keys = [], mh_salt = ''salt'', mh_wfault = NoFault,
     mh_url_ok = (\<lambda>u. True), mh_cdn = (\<lambda>fs q. Inl ''timeout''), mh_report = (\<lambda>b. None), mh_nonce = [], mh_token = [],
     mh_gid = None, mh_chown_fails = (\<lambda>x. False), mh_chmod_fails = (\<lambda>x. False)\<rparr>"

theorem failed_command_changes_nothing_witness:
  "main wit_main wit_paths [''revoke'', ''01''] wit_fs = (Die (Fatal (ToolErr PrefixTooShort)), wit_fs) \<and>
   file_text (snd (main wit_main wit_paths [''set'', ''port'', ''0''] wit_fs)) = file_text wit_fs"
proof -
  have t: "TrimSpace ''01'' = ''01''" "TrimSpace ''0'' = ''0''"
    by (rule TrimSpace_spaceless, simp add: space_at_plain plain_char_def)+
  have revoke: "main wit_main wit_paths [''revoke'', ''01''] wit_fs = (Die (Fatal (ToolErr PrefixTooShort)), wit_fs)"
    using t(1) by (simp add: main_def need_def cmd_revoke_def RevokeLock_def ToLower_def ascii_def lower_char_def)
  obtain out fs' where run: "main wit_main wit_paths [''set'', ''port'', ''0''] wit_fs = (out, fs')" by fastforce
  have "Sscanf_d ''0'' = Some 0"
    by (simp add: Sscanf_d_def skip_blanks_id space_at_plain plain_char_def Let_def digit_val_def
        ParseUint10_def int64_option_def int64_def)
  then have "set_value ''port'' ''0'' s = Inl (BadValue ''port'')" for s
    by (simp add: set_value_def scan_range_def)
  then have "SetSetting U e p ''port'' ''0'' fs = (Some (BadValue ''port''), fs)" for U e p fs
    using t(2) by (simp add: SetSetting_def)
  then have "exit_code out \<noteq> 0" using run by (auto simp: main_def need_def cmd_set_def)
  moreover have "no_tmp (mh_env wit_main) wit_paths wit_fs"
    by (simp add: no_tmp_def wit_main_def wit_paths_all wit_conf wit_probe) (simp add: wit_env_def wit_fs_def file_text_def)
  moreover have "file_text wit_fs (p_Probe wit_paths) = None" by (simp add: wit_probe wit_fs_def file_text_def)
  ultimately have "file_text fs' = file_text wit_fs"
    using failed_command_changes_nothing [OF run] by simp
  with run revoke show ?thesis by simp
qed

end
