(* ===== verification/Tui_Topics.thy ===== *)
theory Tui_Topics
  imports Oversee_Doctor
begin

text \<open>
  \<open>server/internal/tui/guide.go\<close>: the topics of the guide, text for text; a page is given by its lines.
\<close>

definition ellipsis :: string where
  "ellipsis = [CHR 0xE2, CHR 0x80, CHR 0xA6]"

definition both_arrow :: string where
  "both_arrow = [CHR 0xE2, CHR 0x86, CHR 0x94]"

definition check_mark :: string where
  "check_mark = [CHR 0xE2, CHR 0x9C, CHR 0x93]"

record guide_topic =
  gt_short :: string
  gt_title :: string
  gt_body :: string

definition page :: "string list \<Rightarrow> string" where
  "page ls = Join ls [newline]"

definition topic_how_it_works :: guide_topic where
  "topic_how_it_works =
    \<lparr>gt_short = ''How it works'',
     gt_title = ''How it works'',
     gt_body = page
       [''# The picture'',
        ''The phone connects to the GATE (ports 80/443 on your server). The gate checks the '' @
         ''Oversea app's token and only then passes the connection to Xray, which listens on '' @
         ''127.0.0.1:10000 and is not reachable from outside.'',
        ''- With a CDN:   phone '' @ arrow @ '' Cloudflare/Fastly '' @ arrow @ '' gate '' @ arrow @
         '' Xray'',
        ''- Without CDN:  phone '' @ arrow @ '' gate '' @ arrow @ '' Xray'',
        '''',
        ''# Six steps, whatever your setup'',
        ''- 1. Install: curl -fsSL '' @
         ''https://github.com/themojtabamm/OverSee/releases/download/server-latest/install.sh | '' @
         ''sudo bash'',
        ''- 2. Keys tab: add the GATE_KEY your app was built with (n)'',
        ''- 3. Choose how clients reach the gate: topics 2, 3, 4 or 5 of this guide'',
        ''- 4. Put the Xray inbound behind the gate: topic 6 (Setup tab prints one)'',
        ''- 5. In the app: Share '' @ arrow @ '' Locked file '' @ arrow @
         '' Server gate. Paste the line it shows into the Locks tab (a)'',
        ''- 6. Run  oversee doctor  : every red line is something that makes the lock pointless'',
        '''',
        ''! The gate and Xray must NOT both listen publicly. If Xray is reachable directly, '' @
         ''nobody needs the gate. Xray must listen on 127.0.0.1.'']\<rparr>"

definition topic_ports :: guide_topic where
  "topic_ports =
    \<lparr>gt_short = ''Ports (entry vs Xray)'',
     gt_title = ''Ports: where clients connect vs where Xray listens'',
     gt_body = page
       [''# Two different ports '' @ em_dash @ '' do not mix them up'',
        ''- ENTRY port = the port the GATE listens on. Clients (or the CDN) connect here.'',
        ''- XRAY port = the port of the inbound you create in Xray / 3x-ui. Only the gate talks '' @
         ''to it, on 127.0.0.1.'',
        ''They must be different numbers.'',
        '''',
        ''# Set them in this tool'',
        ''- Setup tab, key p: entry port (e.g. 8080).'',
        ''- Setup tab, key m: switch the entry between TLS and plain HTTP.'',
        ''- Setup tab, key u: the Xray port (e.g. 10000). Create the 3x-ui inbound with exactly '' @
         ''that port.'',
        ''- The same from the shell:'',
        ''$ sudo oversee set plain :8080          entry = plain HTTP on 8080'',
        ''$ sudo oversee set port 8443            entry = TLS on 8443 (needs a certificate file)'',
        ''$ sudo oversee set upstream 10000       Xray inbound port'',
        '''',
        ''# Typical combinations'',
        ''- Cloudflare, Flexible, entry 8080 plain, Xray 10000. Clients still use 443 + TLS '' @
         ''(Cloudflare adds the TLS).'',
        ''- Cloudflare, Full (strict), entry 443 TLS with an Origin certificate, Xray 10000.'',
        ''- No CDN, Let's Encrypt: entry 443 TLS, Xray 10000.'',
        ''- No CDN, no TLS: entry 1001 plain, Xray 10000; clients connect to 1001 with '' @
         ''security=none.'',
        '''',
        ''! Cloudflare only forwards certain ports. HTTP: 80, 8080, 8880, 2052, 2082, 2086, 2095. '' @
         ''HTTPS: 443, 2053, 2083, 2087, 2096, 8443. oversee doctor warns about any other port.'',
        ''! Free the port first: 3x-ui's own panel or another service must not already use the '' @
         ''entry port.'']\<rparr>"

definition topic_direct_tls :: guide_topic where
  "topic_direct_tls =
    \<lparr>gt_short = ''Direct + TLS'',
     gt_title = ''Direct + TLS (no CDN)'',
     gt_body = page
       [''# Use this when clients connect straight to your server's IP with your own domain.'',
        ''- 1. DNS: an A record  vpn.example.com '' @ arrow @
         '' your server IP. If the domain is on Cloudflare, make the cloud GREY (DNS only).'',
        ''- 2. Open ports 80 and 443 in the firewall (port 80 is only for the certificate check).'',
        ''- 3. Tell the gate the domain; it gets a free Let's Encrypt certificate by itself:'',
        ''$ sudo oversee set domain vpn.example.com'',
        ''$ sudo systemctl restart oversee-gate'',
        ''- 4. Xray: WebSocket inbound on 127.0.0.1:10000, security none (topic 6).'',
        ''- 5. Client link:'',
        ''$ '' @
         ''vless://UUID@vpn.example.com:443?encryption=none&security=tls&sni=vpn.example.com&type=w'' @
         ''s&host=vpn.example.com&path=%2Fws'',
        ''- 6. sudo oversee doctor'',
        '''',
        check_mark @ '' TLS is real here: the phone '' @ both_arrow @ '' server traffic is encrypted.'',
        ''! Let's Encrypt cannot reach a server hidden behind an orange-cloud CDN. For that, use '' @
         ''topic 3.'']\<rparr>"

definition topic_cdn :: guide_topic where
  "topic_cdn =
    \<lparr>gt_short = ''CDN (Cloudflare)'',
     gt_title = ''Behind a CDN (Cloudflare)'',
     gt_body = page
       [''# Large channels hide the server behind a CDN. The gate supports it, but the CDN must '' @
         ''carry WebSockets and pass the app's token through.'',
        ''- 1. Cloudflare DNS: A record vpn.example.com '' @ arrow @ '' your IP, cloud ORANGE (proxied).'',
        ''- 2. Cloudflare '' @ arrow @ '' SSL/TLS '' @ arrow @ '' mode \"Full (strict)\".'',
        ''- 3. Cloudflare '' @ arrow @ '' SSL/TLS '' @ arrow @ '' Origin Server '' @ arrow @
         '' Create Certificate (RSA, 15 years). Save the two files on the server:'',
        ''$ /etc/oversea/origin.pem   (certificate)'',
        ''$ /etc/oversea/origin.key   (private key)'',
        ''$ sudo chmod 640 /etc/oversea/origin.key'',
        ''- 4. Tell the gate (one block):'',
        ''$ sudo oversee set domain vpn.example.com'',
        ''$ sudo oversee set cdn cloudflare'',
        ''$ sudo oversee proxies update'',
        ''$ sudo oversee set cert /etc/oversea/origin.pem'',
        ''$ sudo oversee set key /etc/oversea/origin.key'',
        ''$ sudo oversee set only-proxy on'',
        ''$ sudo systemctl restart oversee-gate'',
        ''- 5. Check that the CDN really passes the token (it fails loudly if it does not):'',
        ''$ sudo oversee cdn-test'',
        ''- 6. Client link: address = your domain, port 443, TLS on, sni and host = your domain:'',
        ''$ '' @
         ''vless://UUID@vpn.example.com:443?encryption=none&security=tls&sni=vpn.example.com&type=w'' @
         ''s&host=vpn.example.com&path=%2Fws'',
        '''',
        ''# Good to know'',
        ''- only-proxy makes the gate refuse anything that did not come through the CDN, so the '' @
         ''origin IP is useless to scanners.'',
        ''- Cloudflare proxies HTTPS on 443, 2053, 2083, 2087, 2096, 8443.'',
        ''- WebSockets are on by default in Cloudflare (Network tab). Fastly: enable WebSocket '' @
         ''support and make sure your VCL does not strip or cache the app's token.'',
        ''! A CDN can suspend accounts that carry VPN traffic. Read its terms.'']\<rparr>"

definition topic_cdn_no_certificate :: guide_topic where
  "topic_cdn_no_certificate =
    \<lparr>gt_short = ''CDN, no certificate'',
     gt_title = ''CDN without a certificate (Flexible)'',
     gt_body = page
       [''# Cloudflare \"Flexible\": the CDN talks HTTPS to the phone and plain HTTP to your '' @
         ''server. No certificate on your server.'',
        ''- 1. Cloudflare DNS: orange cloud. SSL/TLS mode: \"Flexible\".'',
        ''- 2. Gate in plain mode on a port Cloudflare proxies over HTTP: 80, 8080, 8880, 2052, '' @
         ''2082, 2086, 2095.'',
        ''$ sudo oversee set cdn cloudflare'',
        ''$ sudo oversee proxies update'',
        ''$ sudo oversee set plain :80'',
        ''$ sudo oversee set only-proxy on'',
        ''$ sudo systemctl restart oversee-gate'',
        ''- 3. Client link: the phone still uses TLS to Cloudflare, port 443:'',
        ''$ '' @
         ''vless://UUID@vpn.example.com:443?encryption=none&security=tls&sni=vpn.example.com&type=w'' @
         ''s&host=vpn.example.com&path=%2Fws'',
        ''- 4. sudo oversee cdn-test'',
        '''',
        ''! Between Cloudflare and your server the traffic is NOT encrypted. Prefer topic 3 '' @
         ''(Origin certificate) when you can.'']\<rparr>"

definition topic_no_tls :: guide_topic where
  "topic_no_tls =
    \<lparr>gt_short = ''No TLS (plain)'',
     gt_title = ''No TLS at all (plain)'',
     gt_body = page
       [''# Plain WebSocket, like  vless://'' @ ellipsis @ ''@host:1001?security=none&type=ws  '' @
         em_dash @ '' many panels hand these out.'',
        ''The gate can sit in front of it too: it just listens in plain HTTP on the port your '' @
         ''clients already use.'',
        ''- 1. Move Xray to 127.0.0.1:10000 (ws, security none).'',
        ''- 2. Let the gate take the public port, e.g. 1001:'',
        ''$ sudo oversee set plain :1001'',
        ''$ sudo systemctl restart oversee-gate'',
        ''- 3. Clients keep the same kind of link; only the token is new:'',
        ''$ '' @
         ''vless://UUID@vpn.example.com:1001?encryption=none&security=none&type=ws&host=vpn.example'' @
         ''.com&path=%2Fws'',
        ''- 4. Lock it in the app (Share '' @ arrow @ '' Locked file '' @ arrow @
         '' Server gate) and add the line in the Locks tab.'',
        '''',
        ''! Nothing is encrypted between the phone and the server: anyone on the path (ISP, Wi-Fi '' @
         ''owner) can read the traffic. The app marks such configs \"Not encrypted\". The gate still '' @
         ''stops decoded links from working elsewhere, but it cannot hide the traffic.'',
        ''- Use this only if TLS is impossible. Port 80/443 are not required in this mode (no '' @
         ''Let's Encrypt).'']\<rparr>"

definition topic_own_certificate :: guide_topic where
  "topic_own_certificate =
    \<lparr>gt_short = ''Own certificate'',
     gt_title = ''Your own certificate'',
     gt_body = page
       [''# Any certificate works: certbot, Cloudflare Origin CA, a purchased one, or your own CA.'',
        ''- 1. Put two PEM files on the server, readable by the gate (the service user \"oversee\"):'',
        ''$ /etc/oversea/fullchain.pem'',
        ''$ /etc/oversea/privkey.pem'',
        ''$ sudo chown root:oversee /etc/oversea/*.pem && sudo chmod 640 /etc/oversea/privkey.pem'',
        ''- 2. Tell the gate:'',
        ''$ sudo oversee set cert /etc/oversea/fullchain.pem'',
        ''$ sudo oversee set key /etc/oversea/privkey.pem'',
        ''$ sudo systemctl restart oversee-gate'',
        ''- 3. The client link's sni must match a name on the certificate.'',
        '''',
        ''# certbot (standalone) example'',
        ''$ sudo systemctl stop oversee-gate'',
        ''$ sudo certbot certonly --standalone -d vpn.example.com'',
        ''$ sudo cp /etc/letsencrypt/live/vpn.example.com/fullchain.pem /etc/oversea/'',
        ''$ sudo cp /etc/letsencrypt/live/vpn.example.com/privkey.pem /etc/oversea/'',
        ''$ sudo systemctl start oversee-gate'',
        ''(After each renewal copy the files again and restart the gate. Using  oversee set '' @
         ''domain  instead renews by itself.)'',
        '''',
        ''# Self-signed'',
        ''Works only if every client skips verification (allowInsecure=1), which also removes '' @
         ''protection against interception. Fine for a test, not for real users.'',
        ''! oversee doctor warns when the certificate is about to expire.'']\<rparr>"

definition topic_xray_links :: guide_topic where
  "topic_xray_links =
    \<lparr>gt_short = ''Xray + links'',
     gt_title = ''Xray inbound + links'',
     gt_body = page
       [''# Xray (or 3x-ui) inbound that sits behind the gate. Fields in 3x-ui \"Add inbound\":'',
        ''- Protocol: vless      Listen IP: 127.0.0.1      Port: 10000'',
        ''- Transmission: WebSocket      Path: /ws (any path; it goes in the link)'',
        ''- Security: None   (the gate does TLS, not Xray)'',
        ''- Client: one UUID, flow empty'',
        ''! Never leave Listen IP empty or 0.0.0.0: the gate would be bypassed. Move 3x-ui's own '' @
         ''panel off ports 80/443 so the gate can use them.'',
        '''',
        ''# The Setup tab prints a ready inbound and a matching link with a fresh UUID.'',
        '''',
        ''# Link templates (UUID and path are yours)'',
        ''- Direct TLS or CDN:'',
        ''$ '' @
         ''vless://UUID@vpn.example.com:443?encryption=none&security=tls&sni=vpn.example.com&type=w'' @
         ''s&host=vpn.example.com&path=%2Fws'',
        ''- Plain (no TLS) on port 1001:'',
        ''$ '' @
         ''vless://UUID@vpn.example.com:1001?encryption=none&security=none&type=ws&host=vpn.example'' @
         ''.com&path=%2Fws'',
        '''',
        ''# Transports the gate can protect'',
        ''- WebSocket and HTTPUpgrade: yes (they can carry the token).'',
        ''- Reality over plain TCP, gRPC, XHTTP: no. The app refuses to lock those as \"gated\".'']\<rparr>"

definition topic_check_fix :: guide_topic where
  "topic_check_fix =
    \<lparr>gt_short = ''Check & fix'',
     gt_title = ''Check & fix'',
     gt_body = page
       [''# Always start here'',
        ''$ sudo oversee doctor        what is wrong with this setup'',
        ''$ sudo oversee cdn-test      does the CDN pass the token'',
        ''$ sudo oversee status        service state and counts'',
        ''$ sudo journalctl -u oversee-gate -n 50    recent gate log (Logs tab shows it too)'',
        '''',
        ''# Symptoms'',
        ''- Every connection refused: no app key (Keys tab), or the lock's line is not in the '' @
         ''Locks tab yet.'',
        ''- Works for a day, then stops: the phone's clock or token window. Try  sudo oversee set '' @
         ''token-days 3  and check the phone's date/time.'',
        ''- Refused for ten minutes after testing with plain links: the per-IP block. A valid '' @
         ''lock still passes; to switch the block off for good:  sudo oversee set ip-limit off  '' @
         ''then restart the gate.'',
        ''- A config got copied around (a bot hands out a ready-made config): cap the IPs per '' @
         ''lock with  sudo oversee set lock-ips 5  (0 = no cap). A shared token then works for the '' @
         ''first 5 IPs of the day only; revoke the lock and issue a new file.'',
        ''- Works without CDN, fails with CDN: run cdn-test. It tells you if the token is '' @
         ''stripped or the real client IP is not visible.'',
        ''- \"Refused\" counters rise in the Locks tab: someone is probing with a decoded or '' @
         ''re-locked config. That is the gate doing its job.'',
        ''- A lock is used from many IPs (\"shared?\"): revoke it (Locks '' @ arrow @
         '' d) and issue a new file.'',
        ''- Phone connects but nothing loads: Xray is not on 127.0.0.1:10000, or its outbound is '' @
         ''blocked. Check Xray's own log.'',
        '''',
        ''# Revoking'',
        ''Locks tab '' @ arrow @
         '' d. Every copy of that lock stops working within seconds, including the real app.'']\<rparr>"

definition guideTopics :: "guide_topic list" where
  "guideTopics =
     [topic_how_it_works,
      topic_ports,
      topic_direct_tls,
      topic_cdn,
      topic_cdn_no_certificate,
      topic_no_tls,
      topic_own_certificate,
      topic_xray_links,
      topic_check_fix]"

lemma length_guideTopics [simp]: "length guideTopics = 9"
  by (simp add: guideTopics_def)

end
