(* ===== verification/Tui.thy ===== *)
theory Tui
  imports Oversee_Frame Oversee_Service Tui_Topics
begin

text \<open>
  \<open>server/internal/tui/tui.go\<close>: the state machine of the terminal interface.  A step takes the model, the
  file system and the state of the system and the name of a key, as \<open>tea.KeyMsg.String\<close> gives it.  The
  text field of the bubbles library is a parameter of any type; what the host offers at a step (the clock
  and the faults of the file system, systemd, random bytes, the certificate library, \<open>json.Unmarshal\<close>) is
  the record \<open>host\<close>, which may differ from step to step.  Messages that are errors of the operations are
  kept as the error values.
\<close>

section \<open>The model\<close>

datatype tab = tabStatus | tabLocks | tabKeys | tabSetup | tabLogs | tabGuide

definition tabs :: "tab list" where
  "tabs = [tabStatus, tabLocks, tabKeys, tabSetup, tabLogs, tabGuide]"

fun tab_index :: "tab \<Rightarrow> nat" where
  "tab_index tabStatus = 0"
| "tab_index tabLocks = 1"
| "tab_index tabKeys = 2"
| "tab_index tabSetup = 3"
| "tab_index tabLogs = 4"
| "tab_index tabGuide = 5"

definition tabNames :: "string list" where
  "tabNames = [''Status'', ''Locks'', ''Keys'', ''Setup'', ''Logs'', ''Guide'']"

datatype mode =
    modeBrowse | modeAddLock | modeConfirmRevoke | modeAddKey | modeConfirmKeyDelete
  | modeEditDomain | modeEditUpstream | modeEditLeak | modeEditPort

text \<open>\<open>NoMsg\<close> is the empty message.\<close>

datatype message = NoMsg | Said string | ToolError tool_error | ControlError control_error

text \<open>\<open>textinput.Model\<close> and its methods.\<close>

record 'i text_field =
  ti_New :: 'i
  ti_Value :: "'i \<Rightarrow> string"
  ti_SetValue :: "string \<Rightarrow> 'i \<Rightarrow> 'i"
  ti_Placeholder :: "string \<Rightarrow> 'i \<Rightarrow> 'i"
  ti_Focus :: "'i \<Rightarrow> 'i"
  ti_Blur :: "'i \<Rightarrow> 'i"
  ti_Update :: "string \<Rightarrow> 'i \<Rightarrow> 'i"
  ti_View :: "'i \<Rightarrow> string"

record 's host =
  ho_unicode :: unicode
  ho_cert :: cert_lib
  ho_env :: env
  ho_systemd :: "'s systemd"
  ho_unjson :: "string \<Rightarrow> snapshot option"
  ho_uuid :: string
  ho_path :: string
  ho_key :: string

record 's world =
  wo_files :: fsys
  wo_system :: 's

record 'i tui =
  tu_p :: paths
  tu_tab :: tab
  tu_mode :: mode
  tu_w :: int
  tu_h :: int
  tu_svc :: service_state
  tu_locks :: "lock list"
  tu_keys :: "string list"
  tu_settings :: settings
  tu_stats :: "(string, lock_snapshot) gmap"
  tu_statsAge :: duration
  tu_rejects :: "(string, int) gmap"
  tu_logs :: string
  tu_problems :: "finding list"
  tu_sel :: int
  tu_scroll :: int
  tu_input :: 'i
  tu_msg :: message
  tu_msgIsErr :: bool
  tu_exUUID :: string
  tu_exPath :: string

definition listLen :: "'i tui \<Rightarrow> int" where
  "listLen m =
     (case tu_tab m of
        tabLocks \<Rightarrow> int (length (tu_locks m))
      | tabKeys \<Rightarrow> int (length (tu_keys m))
      | tabGuide \<Rightarrow> int (length guideTopics)
      | _ \<Rightarrow> 0)"

definition say :: "message \<Rightarrow> bool \<Rightarrow> 'i tui \<Rightarrow> 'i tui" where
  "say s err m = m\<lparr>tu_msg := s, tu_msgIsErr := err\<rparr>"

definition clamp_sel :: "'i tui \<Rightarrow> 'i tui" where
  "clamp_sel m = (if tu_sel m \<ge> listLen m then m\<lparr>tu_sel := max 0 (listLen m - 1)\<rparr> else m)"

definition refresh :: "'s host \<Rightarrow> 's world \<Rightarrow> 'i tui \<Rightarrow> 'i tui" where
  "refresh h w m =
     (let e = ho_env h; fs = wo_files w; p = tu_p m;
          svc = ServiceStatus (ho_systemd h) (wo_system w);
          m = m\<lparr>tu_svc := svc,
             tu_locks := SortLocks (case Locks (ho_unicode h) e p fs of Inl _ \<Rightarrow> [] | Inr ls \<Rightarrow> ls),
             tu_keys := (case ListKeys e p fs of Inl _ \<Rightarrow> [] | Inr ks \<Rightarrow> ks),
             tu_settings := LoadSettings (ho_unicode h) e p fs,
             tu_problems := filter (\<lambda>f. fi_Level f \<noteq> LevelOK)
               (Doctor (ho_unicode h) (ho_cert h) e p (RealDoctorEnv e svc fs) fs)\<rparr>;
          m = (case ReadSnapshot (ho_unjson h) e (p_Stats p) fs of
                 None \<Rightarrow> m\<lparr>tu_stats := [], tu_rejects := [], tu_statsAge := -1\<rparr>
               | Some sn \<Rightarrow> m\<lparr>tu_stats := fold (\<lambda>l. put (CodeID' l) l) (SLocks sn) [],
                   tu_rejects := Rejects sn, tu_statsAge := Sub (e_now e) (Updated sn)\<rparr>)
      in clamp_sel m)"

definition New_model :: "'i text_field \<Rightarrow> 's host \<Rightarrow> paths \<Rightarrow> 's world \<Rightarrow> 'i tui" where
  "New_model T h p w =
     refresh h w
       \<lparr>tu_p = p, tu_tab = tabStatus, tu_mode = modeBrowse, tu_w = 0, tu_h = 0,
        tu_svc = \<lparr>sv_Available = False, sv_Active = [], sv_Enabled = []\<rparr>, tu_locks = [], tu_keys = [],
        tu_settings = \<lparr>cf_Domain = [], cf_Upstream = [], cf_Plain = [], cf_LeakIPs = 0, cf_NoIPLimit = False,
          cf_LockIPs = 0, cf_CDN = [], cf_OnlyProxy = False, cf_TokenDays = 0, cf_Cert = [], cf_Key = [],
          cf_Port = 0\<rparr>,
        tu_stats = [], tu_statsAge = 0, tu_rejects = [], tu_logs = [], tu_problems = [], tu_sel = 0,
        tu_scroll = 0, tu_input = ti_New T, tu_msg = NoMsg, tu_msgIsErr = False,
        tu_exUUID = NewUUID (ho_uuid h), tu_exPath = ''/'' @ RandomHex (ho_path h)\<rparr>"

text \<open>How many lines of the guide fit on the screen (\<open>guide.go\<close>).\<close>

definition guideHeight :: "'i tui \<Rightarrow> int" where
  "guideHeight m = (if tu_h m \<le> 0 then 40 else max 8 (tu_h m - 16))"

section \<open>Keys while browsing\<close>

definition open_tab :: "'s host \<Rightarrow> 's world \<Rightarrow> tab \<Rightarrow> 'i tui \<Rightarrow> 'i tui" where
  "open_tab h w t m =
     (let m = m\<lparr>tu_tab := t, tu_sel := 0, tu_scroll := 0, tu_msg := NoMsg\<rparr>
      in if t = tabLogs then m\<lparr>tu_logs := Logs (ho_systemd h) 30 (wo_system w)\<rparr> else m)"

text \<open>Opening the text field; the order of the calls is the one of the tabs Locks and Keys.\<close>

definition open_input :: "'i text_field \<Rightarrow> mode \<Rightarrow> string \<Rightarrow> string \<Rightarrow> 'i tui \<Rightarrow> 'i tui" where
  "open_input T md placeholder value m =
     m\<lparr>tu_mode := md, tu_input := ti_Focus T (ti_SetValue T value (ti_Placeholder T placeholder (tu_input m)))\<rparr>"

text \<open>The Setup tab sets the value before the placeholder.\<close>

definition open_edit :: "'i text_field \<Rightarrow> mode \<Rightarrow> string \<Rightarrow> string \<Rightarrow> 'i tui \<Rightarrow> 'i tui" where
  "open_edit T md value placeholder m =
     m\<lparr>tu_mode := md, tu_input := ti_Focus T (ti_Placeholder T placeholder (ti_SetValue T value (tu_input m)))\<rparr>"

definition save :: "'s host \<Rightarrow> settings \<Rightarrow> 'i tui \<Rightarrow> 's world \<Rightarrow> tool_error option \<times> 's world" where
  "save h st m w =
     (let (err, fs) = SaveSettings (ho_env h) (tu_p m) st (wo_files w) in (err, w\<lparr>wo_files := fs\<rparr>))"

text \<open>\<open>statusKeys\<close>\<close>

definition status_action :: "string \<Rightarrow> string option" where
  "status_action s =
     (if s = ''s'' then Some ''start''
      else if s = ''x'' then Some ''stop''
      else if s = ''R'' then Some ''restart''
      else if s = ''e'' then Some ''enable''
      else if s = ''D'' then Some ''disable''
      else None)"

definition statusKeys :: "'s host \<Rightarrow> string \<Rightarrow> 'i tui \<times> 's world \<Rightarrow> 'i tui \<times> 's world" where
  "statusKeys h s mw =
     (let (m, w) = mw
      in case status_action s of
           None \<Rightarrow> (m, w)
         | Some action \<Rightarrow>
             if \<not> sv_Available (tu_svc m) then
               (say (Said (''systemd not available here '' @ em_dash @ '' run `oversee gate` yourself'')) True m, w)
             else
               (let (err, st) = Control (ho_systemd h) action (wo_system w);
                    w = w\<lparr>wo_system := st\<rparr>;
                    m = (case err of Some x \<Rightarrow> say (ControlError x) True m
                         | None \<Rightarrow> say (Said (action @ '' ok'')) False m)
                in (refresh h w m, w)))"

definition locks_keys :: "'i text_field \<Rightarrow> string \<Rightarrow> 'i tui \<Rightarrow> 'i tui" where
  "locks_keys T s m =
     (if s = ''a'' \<or> s = ''n'' then
        say NoMsg False (open_input T modeAddLock ''paste the line from the app:  <code> <fingerprint> [note]'' [] m)
      else if s = ''d'' \<or> s = ''x'' \<or> s = ''delete'' then
        (if tu_locks m \<noteq> [] then m\<lparr>tu_mode := modeConfirmRevoke\<rparr> else m)
      else m)"

definition keys_keys :: "'i text_field \<Rightarrow> 's host \<Rightarrow> string \<Rightarrow> 'i tui \<Rightarrow> 'i tui" where
  "keys_keys T h s m =
     (if s = ''n'' \<or> s = ''a'' then
        say NoMsg False
          (open_input T modeAddKey ''new app key (the GATE_KEY of your newest Oversea build)'' [] m)
      else if s = ''g'' then
        say (Said (''generated '' @ em_dash @ '' Enter to save it, then build the app with this GATE_KEY'')) False
          (m\<lparr>tu_input := ti_Focus T (ti_SetValue T (RandomHex (ho_key h)) (tu_input m)), tu_mode := modeAddKey\<rparr>)
      else if s = ''d'' \<or> s = ''x'' \<or> s = ''delete'' then
        (if tu_keys m \<noteq> [] then m\<lparr>tu_mode := modeConfirmKeyDelete\<rparr> else m)
      else m)"

section \<open>The Setup tab\<close>

text \<open>\<open>m\<close>: between TLS and plain HTTP.  \<open>None\<close> when TLS has neither a domain nor a certificate.\<close>

definition toggle_tls :: "settings \<Rightarrow> settings option" where
  "toggle_tls st =
     (let (ep, tls) = EntryPort st
      in if tls then Some (st\<lparr>cf_Plain := CHR '':'' # FormatInt (if ep = 443 then 80 else ep)\<rparr>)
         else if cf_Domain st = [] \<and> cf_Cert st = [] then None
         else Some (st\<lparr>cf_Plain := [], cf_Port := ep\<rparr>))"

definition setup_toggle :: "'s host \<Rightarrow> 'i tui \<times> 's world \<Rightarrow> 'i tui \<times> 's world" where
  "setup_toggle h mw =
     (let (m, w) = mw
      in case toggle_tls (tu_settings m) of
           None \<Rightarrow>
             (say (Said (''TLS needs a domain (Let's Encrypt) or a certificate file first '' @ em_dash @
                '' see Guide '' @ arrow @ '' Own certificate'')) True m, w)
         | Some st \<Rightarrow>
             (let (err, w) = save h st m w;
                  (np, nt) = EntryPort st;
                  m = (case err of
                         Some x \<Rightarrow> say (ToolError x) True m
                       | None \<Rightarrow> say (Said (''entry is now '' @ (if nt then ''TLS'' else ''plain HTTP'') @
                           '' on port '' @ FormatInt np @ '' '' @ em_dash @ '' restart the gate (Status '' @ arrow @
                           '' R) to apply'')) False m)
              in (refresh h w m, w)))"

definition orNone :: "string \<Rightarrow> string" where
  "orNone s = (if s = [] then ''none'' else s)"

definition onOff :: "bool \<Rightarrow> string" where
  "onOff b = (if b then ''on'' else ''off'')"

definition setup_cdn :: "'s host \<Rightarrow> 'i tui \<times> 's world \<Rightarrow> 'i tui \<times> 's world" where
  "setup_cdn h mw =
     (let (m, w) = mw;
          st = (tu_settings m)\<lparr>cf_CDN := NextCDN (cf_CDN (tu_settings m))\<rparr>;
          st = (if cf_CDN st = [] then st\<lparr>cf_OnlyProxy := False\<rparr> else st);
          (err, w) = save h st m w;
          m = (case err of
                 Some x \<Rightarrow> say (ToolError x) True m
               | None \<Rightarrow>
                   if cf_CDN st = ''cloudflare'' \<or> cf_CDN st = ''fastly'' then
                     say (Said (''CDN: '' @ cf_CDN st @ '' '' @ em_dash @
                       '' restart the gate; it downloads the IP ranges itself (or: oversee proxies update)'')) False m
                   else
                     say (Said (''CDN: '' @ orNone (cf_CDN st) @ '' '' @ em_dash @ '' restart the gate to apply'')) False m)
      in (refresh h w m, w))"

definition setup_only :: "'s host \<Rightarrow> 'i tui \<times> 's world \<Rightarrow> 'i tui \<times> 's world" where
  "setup_only h mw =
     (let (m, w) = mw; st = tu_settings m
      in if cf_CDN st = [] then (say (Said ''pick a CDN first (c)'') True m, w)
         else
           (let st = st\<lparr>cf_OnlyProxy := \<not> cf_OnlyProxy st\<rparr>;
                (err, w) = save h st m w;
                m = (case err of
                       Some x \<Rightarrow> say (ToolError x) True m
                     | None \<Rightarrow> say (Said (''only-proxy '' @ onOff (cf_OnlyProxy st) @ '' '' @ em_dash @
                         '' restart the gate to apply'')) False m)
            in (refresh h w m, w)))"

definition setup_keys :: "'i text_field \<Rightarrow> 's host \<Rightarrow> string \<Rightarrow> 'i tui \<times> 's world \<Rightarrow> 'i tui \<times> 's world" where
  "setup_keys T h s mw =
     (let (m, w) = mw; st = tu_settings m
      in if s = ''e'' then (open_edit T modeEditDomain (cf_Domain st) ''vpn.example.com'' m, w)
         else if s = ''u'' then
           (open_edit T modeEditUpstream (FormatInt (UpstreamPort st)) ''the Xray inbound port, e.g. 10000'' m, w)
         else if s = ''p'' then
           (open_edit T modeEditPort (FormatInt (fst (EntryPort st)))
              ''the port clients (or the CDN) connect to, e.g. 8080'' m, w)
         else if s = ''m'' then setup_toggle h (m, w)
         else if s = ''c'' then setup_cdn h (m, w)
         else if s = ''o'' then setup_only h (m, w)
         else if s = ''t'' then (open_edit T modeEditLeak (FormatInt (cf_LeakIPs st)) ''0 = off'' m, w)
         else if s = ''g'' then
           (m\<lparr>tu_exUUID := NewUUID (ho_uuid h), tu_exPath := ''/'' @ RandomHex (ho_path h)\<rparr>, w)
         else (m, w))"

section \<open>The steps\<close>

text \<open>
  The arms of the outer switch of \<open>updateBrowse\<close> other than quitting, \<open>None\<close> when no arm takes the key
  and the tab gets it.
\<close>

definition digit_tab :: "string \<Rightarrow> tab option" where
  "digit_tab s =
     (if s = ''1'' \<or> s = ''2'' \<or> s = ''3'' \<or> s = ''4'' \<or> s = ''5'' \<or> s = ''6''
      then Some (tabs ! nat (int (of_char (s ! 0)) - 49)) else None)"

definition page_step :: "'i tui \<Rightarrow> int" where
  "page_step m = max 3 (guideHeight m - 2)"

definition common_keys :: "'s host \<Rightarrow> string \<Rightarrow> 's world \<Rightarrow> 'i tui \<Rightarrow> 'i tui option" where
  "common_keys h s w m =
     (if s = ''tab'' \<or> s = ''right'' \<or> s = ''l'' then
        Some (open_tab h w (tabs ! ((tab_index (tu_tab m) + 1) mod length tabNames)) m)
      else if s = ''shift+tab'' \<or> s = ''left'' \<or> s = ''h'' then
        Some (open_tab h w (tabs ! ((tab_index (tu_tab m) + length tabNames - 1) mod length tabNames)) m)
      else if digit_tab s \<noteq> None then Some (open_tab h w (the (digit_tab s)) m)
      else if s = ''up'' \<or> s = ''k'' then
        Some (if tu_sel m > 0 then m\<lparr>tu_sel := tu_sel m - 1, tu_scroll := 0\<rparr> else m)
      else if s = ''down'' \<or> s = ''j'' then
        Some (if tu_sel m < listLen m - 1 then m\<lparr>tu_sel := tu_sel m + 1, tu_scroll := 0\<rparr> else m)
      else if s = '' '' \<or> s = ''pgdown'' \<or> s = ''f'' then
        Some (if tu_tab m = tabGuide then m\<lparr>tu_scroll := tu_scroll m + page_step m\<rparr> else m)
      else if s = ''pgup'' \<or> s = ''b'' then
        Some (if tu_tab m = tabGuide then m\<lparr>tu_scroll := max 0 (tu_scroll m - page_step m)\<rparr> else m)
      else if s = ''r'' then
        Some (let m = refresh h w m;
                  m = (if tu_tab m = tabLogs then m\<lparr>tu_logs := Logs (ho_systemd h) 30 (wo_system w)\<rparr> else m)
              in say (Said ''refreshed'') False m)
      else None)"

text \<open>The flag of the result is the command \<open>tea.Quit\<close>.\<close>

definition updateBrowse ::
  "'i text_field \<Rightarrow> 's host \<Rightarrow> string \<Rightarrow> 'i tui \<times> 's world \<Rightarrow> ('i tui \<times> 's world) \<times> bool" where
  "updateBrowse T h s mw =
     (let (m, w) = mw
      in if s = ''ctrl+c'' \<or> s = ''q'' then ((m, w), True)
         else
           (case common_keys h s w m of
              Some m' \<Rightarrow> ((m', w), False)
            | None \<Rightarrow>
                (case tu_tab m of
                   tabStatus \<Rightarrow> (statusKeys h s (m, w), False)
                 | tabLocks \<Rightarrow> ((locks_keys T s m, w), False)
                 | tabKeys \<Rightarrow> ((keys_keys T h s m, w), False)
                 | tabSetup \<Rightarrow> (setup_keys T h s (m, w), False)
                 | _ \<Rightarrow> ((m, w), False))))"

text \<open>The answer to a question, the first part of \<open>updateInput\<close>.\<close>

definition confirm_revoke :: "'s host \<Rightarrow> 'i tui \<times> 's world \<Rightarrow> 'i tui \<times> 's world" where
  "confirm_revoke h mw =
     (let (m, w) = mw
      in if tu_sel m < int (length (tu_locks m)) then
           (let (res, fs) = RevokeLock (ho_unicode h) (ho_env h) (tu_p m)
                (lk_CodeID (tu_locks m ! nat (tu_sel m))) (wo_files w)
            in (case res of
                  Inl err \<Rightarrow> say (ToolError err) True m
                | Inr l \<Rightarrow> say (Said (''revoked '' @ lk_CodeID l @ '' '' @ em_dash @
                    '' every copy of this lock stops working within seconds'')) False m,
                w\<lparr>wo_files := fs\<rparr>))
         else (m, w))"

definition confirm_key_delete :: "'s host \<Rightarrow> 'i tui \<times> 's world \<Rightarrow> 'i tui \<times> 's world" where
  "confirm_key_delete h mw =
     (let (m, w) = mw;
          (err, fs) = RemoveKey (ho_env h) (tu_p m) (tu_sel m) (wo_files w)
      in (case err of
            Some x \<Rightarrow> say (ToolError x) True m
          | None \<Rightarrow> say (Said ''key removed'') False m,
          w\<lparr>wo_files := fs\<rparr>))"

definition update_confirm :: "'s host \<Rightarrow> string \<Rightarrow> 'i tui \<times> 's world \<Rightarrow> 'i tui \<times> 's world" where
  "update_confirm h s mw =
     (if s = ''y'' \<or> s = ''Y'' then
        (let mw = (if tu_mode (fst mw) = modeConfirmRevoke then confirm_revoke h mw else mw);
             (m, w) = (if tu_mode (fst mw) = modeConfirmKeyDelete then confirm_key_delete h mw else mw)
         in (refresh h w (m\<lparr>tu_mode := modeBrowse\<rparr>), w))
      else (say (Said ''cancelled'') False ((fst mw)\<lparr>tu_mode := modeBrowse\<rparr>), snd mw))"

text \<open>The settings after an edit, or what the user is told (\<open>Inl\<close>).\<close>

definition edit_settings :: "mode \<Rightarrow> string \<Rightarrow> settings \<Rightarrow> string + settings" where
  "edit_settings md v s =
     (case md of
        modeEditDomain \<Rightarrow> Inr (s\<lparr>cf_Domain := v\<rparr>)
      | modeEditUpstream \<Rightarrow>
          (let v = (case ParseInt v of
                 Some n \<Rightarrow> if n \<ge> 1 \<and> n \<le> 65535 then ''127.0.0.1:'' @ v else v
               | None \<Rightarrow> v)
           in if \<not> Contains v '':'' then Inl ''enter the Xray inbound port (e.g. 10000) or host:port''
              else Inr (s\<lparr>cf_Upstream := v\<rparr>))
      | modeEditPort \<Rightarrow>
          (case ParseInt v of
             None \<Rightarrow> Inl ''enter a port between 1 and 65535''
           | Some n \<Rightarrow>
               if n < 1 \<or> n > 65535 then Inl ''enter a port between 1 and 65535''
               else if snd (EntryPort s) then Inr (s\<lparr>cf_Port := n\<rparr>)
               else Inr (s\<lparr>cf_Plain := CHR '':'' # FormatInt n\<rparr>))
      | _ \<Rightarrow>
          (case ParseInt v of
             None \<Rightarrow> Inl ''enter a whole number, 0 turns the alert off''
           | Some n \<Rightarrow> if n < 0 then Inl ''enter a whole number, 0 turns the alert off''
               else Inr (s\<lparr>cf_LeakIPs := n\<rparr>)))"

text \<open>What Enter does with the text; \<open>False\<close> stays in the field, so that the user can fix it.\<close>

definition enter_text :: "'s host \<Rightarrow> string \<Rightarrow> 'i tui \<times> 's world \<Rightarrow> bool \<times> 'i tui \<times> 's world" where
  "enter_text h v mw =
     (let (m, w) = mw
      in case tu_mode m of
           modeAddLock \<Rightarrow>
             (case AddLock (ho_unicode h) (ho_env h) (tu_p m) v (wo_files w) of
                (Inl err, fs) \<Rightarrow> (False, say (ToolError err) True m, w\<lparr>wo_files := fs\<rparr>)
              | (Inr l, fs) \<Rightarrow>
                  (True, say (Said (''lock '' @ lk_CodeID l @ '' added '' @ em_dash @ '' live within seconds'')) False m,
                   w\<lparr>wo_files := fs\<rparr>))
         | modeAddKey \<Rightarrow>
             (case AddKey (ho_env h) (tu_p m) v (wo_files w) of
                (Some err, fs) \<Rightarrow> (False, say (ToolError err) True m, w\<lparr>wo_files := fs\<rparr>)
              | (None, fs) \<Rightarrow>
                  (True,
                   say (Said ''key added as the current key (older ones still accepted until you remove them)'') False m,
                   w\<lparr>wo_files := fs\<rparr>))
         | _ \<Rightarrow>
             (case edit_settings (tu_mode m) v (tu_settings m) of
                Inl t \<Rightarrow> (False, say (Said t) True m, w)
              | Inr s \<Rightarrow>
                  (let (err, w) = save h s m w
                   in case err of
                        Some x \<Rightarrow> (False, say (ToolError x) True m, w)
                      | None \<Rightarrow>
                          (True, say (Said (''saved '' @ em_dash @ '' restart the gate (Status '' @ arrow @ '' R) to apply''))
                             False m, w))))"

definition updateInput :: "'i text_field \<Rightarrow> 's host \<Rightarrow> string \<Rightarrow> 'i tui \<times> 's world \<Rightarrow> 'i tui \<times> 's world" where
  "updateInput T h s mw =
     (if tu_mode (fst mw) = modeConfirmRevoke \<or> tu_mode (fst mw) = modeConfirmKeyDelete then update_confirm h s mw
      else if s = ''esc'' \<or> s = ''ctrl+c'' then
        (say (Said ''cancelled'') False
           ((fst mw)\<lparr>tu_mode := modeBrowse, tu_input := ti_Blur T (tu_input (fst mw))\<rparr>), snd mw)
      else if s = ''enter'' then
        (case enter_text h (TrimSpace (ti_Value T (tu_input (fst mw)))) mw of
           (False, mw') \<Rightarrow> mw'
         | (True, m, w) \<Rightarrow>
             (refresh h w (m\<lparr>tu_mode := modeBrowse, tu_input := ti_Blur T (tu_input m)\<rparr>), w))
      else ((fst mw)\<lparr>tu_input := ti_Update T s (tu_input (fst mw))\<rparr>, snd mw))"

datatype event = WindowSize int int | Key string | OtherMsg

definition Update ::
  "'i text_field \<Rightarrow> 's host \<Rightarrow> event \<Rightarrow> 'i tui \<times> 's world \<Rightarrow> ('i tui \<times> 's world) \<times> bool" where
  "Update T h ev mw =
     (case ev of
        WindowSize w ht \<Rightarrow> (((fst mw)\<lparr>tu_w := w, tu_h := ht\<rparr>, snd mw), False)
      | Key s \<Rightarrow>
          if tu_mode (fst mw) \<noteq> modeBrowse then (updateInput T h s mw, False) else updateBrowse T h s mw
      | OtherMsg \<Rightarrow> (mw, False))"

end
