(* ===== verification/Tui_Safety.thy ===== *)
theory Tui_Safety
  imports Tui
begin

text \<open>
  What holds of the terminal interface: the invariant of its states, what a key may change, that a question
  is answered for the lock it names, and that a port typed on the screen is the one the gate listens on.
\<close>

section \<open>The states the interface can be in\<close>

text \<open>
  A run starts with \<open>New\<close> and goes on with events, each on a host of its own; between two events other
  programs may change the files and the system in any way.
\<close>

inductive reach :: "'i text_field \<Rightarrow> paths \<Rightarrow> 'i tui \<Rightarrow> 's world \<Rightarrow> bool" for T p where
  reach_start: "reach T p (New_model T h p w) w"
| reach_event: "reach T p m w \<Longrightarrow> fst (Update T h ev (m, w)) = (m', w') \<Longrightarrow> reach T p m' w'"
| reach_outside: "reach T p m w \<Longrightarrow> reach T p m w'"

fun mode_fits :: "mode \<Rightarrow> 'i tui \<Rightarrow> bool" where
  "mode_fits modeBrowse m = True"
| "mode_fits modeAddLock m = (tu_tab m = tabLocks)"
| "mode_fits modeConfirmRevoke m = (tu_tab m = tabLocks \<and> tu_sel m < int (length (tu_locks m)))"
| "mode_fits modeAddKey m = (tu_tab m = tabKeys)"
| "mode_fits modeConfirmKeyDelete m = (tu_tab m = tabKeys \<and> tu_sel m < int (length (tu_keys m)))"
| "mode_fits _ m = (tu_tab m = tabSetup)"

definition sel_ok :: "'i tui \<Rightarrow> bool" where
  "sel_ok m \<longleftrightarrow> 0 \<le> tu_sel m \<and> (tu_sel m < listLen m \<or> tu_sel m = 0)"

definition tui_ok :: "paths \<Rightarrow> 'i tui \<Rightarrow> bool" where
  "tui_ok p m \<longleftrightarrow>
     tu_p m = p \<and> sel_ok m \<and> 0 \<le> tu_scroll m \<and> mode_fits (tu_mode m) m \<and>
     (\<forall>l \<in> set (tu_locks m). lk_CodeID l = CodeID (lk_Code l))"

lemma sel_ok_clamp: "sel_ok (clamp_sel m)" if "0 \<le> tu_sel m"
  using that by (auto simp: sel_ok_def clamp_sel_def listLen_def split: tab.splits)

lemma clamp_sel_keeps [simp]:
  "tu_p (clamp_sel m) = tu_p m" "tu_tab (clamp_sel m) = tu_tab m" "tu_mode (clamp_sel m) = tu_mode m"
  "tu_scroll (clamp_sel m) = tu_scroll m" "tu_locks (clamp_sel m) = tu_locks m" "tu_keys (clamp_sel m) = tu_keys m"
  "tu_settings (clamp_sel m) = tu_settings m" "tu_input (clamp_sel m) = tu_input m" "tu_msg (clamp_sel m) = tu_msg m"
  by (simp_all add: clamp_sel_def)

lemma refresh_keeps [simp]:
  "tu_p (refresh h w m) = tu_p m" "tu_tab (refresh h w m) = tu_tab m" "tu_mode (refresh h w m) = tu_mode m"
  "tu_scroll (refresh h w m) = tu_scroll m" "tu_input (refresh h w m) = tu_input m" "tu_msg (refresh h w m) = tu_msg m"
  by (simp_all add: refresh_def Let_def split: option.splits)

lemma refresh_loads [simp]:
  "tu_settings (refresh h w m) = LoadSettings (ho_unicode h) (ho_env h) (tu_p m) (wo_files w)"
  "tu_keys (refresh h w m) = (case ListKeys (ho_env h) (tu_p m) (wo_files w) of Inl _ \<Rightarrow> [] | Inr ks \<Rightarrow> ks)"
  "tu_locks (refresh h w m) =
     SortLocks (case Locks (ho_unicode h) (ho_env h) (tu_p m) (wo_files w) of Inl _ \<Rightarrow> [] | Inr ls \<Rightarrow> ls)"
  by (simp_all add: refresh_def Let_def split: option.splits)

lemma refresh_sel: "0 \<le> tu_sel m \<Longrightarrow> sel_ok (refresh h w m)"
  unfolding refresh_def Let_def by (rule sel_ok_clamp) (simp split: option.splits)

lemma listed_ids: "l \<in> set (tu_locks (refresh h w m)) \<Longrightarrow> lk_CodeID l = CodeID (lk_Code l)"
  by (auto simp: SortLocks_def Locks_def lock_of_def split: sum.splits)

lemma refresh_ok:
  assumes "tu_p m = p" and "0 \<le> tu_sel m" and "0 \<le> tu_scroll m" and "tu_mode m = modeBrowse"
  shows "tui_ok p (refresh h w m)"
  using assms refresh_sel [OF assms(2)] listed_ids by (auto simp: tui_ok_def)

lemma sel_ok_keeps:
  "tu_sel m' = tu_sel m \<Longrightarrow> tu_tab m' = tu_tab m \<Longrightarrow> tu_locks m' = tu_locks m \<Longrightarrow> tu_keys m' = tu_keys m \<Longrightarrow>
    sel_ok m' = sel_ok m"
  by (simp add: sel_ok_def listLen_def split: tab.split)

lemma say_keeps [simp]:
  "tu_p (say x b m) = tu_p m" "tu_tab (say x b m) = tu_tab m" "tu_mode (say x b m) = tu_mode m"
  "tu_sel (say x b m) = tu_sel m" "tu_scroll (say x b m) = tu_scroll m" "tu_locks (say x b m) = tu_locks m"
  "tu_keys (say x b m) = tu_keys m" "tu_settings (say x b m) = tu_settings m" "tu_input (say x b m) = tu_input m"
  "tu_msg (say x b m) = x" "tu_svc (say x b m) = tu_svc m"
  by (simp_all add: say_def)

lemma mode_fits_keeps:
  "tu_sel m' = tu_sel m \<Longrightarrow> tu_tab m' = tu_tab m \<Longrightarrow> tu_locks m' = tu_locks m \<Longrightarrow> tu_keys m' = tu_keys m \<Longrightarrow>
    mode_fits x m' = mode_fits x m"
  by (cases x) simp_all

lemma tui_ok_keeps:
  assumes "tui_ok p m" and "tu_p m' = tu_p m" and "tu_sel m' = tu_sel m" and "tu_tab m' = tu_tab m"
    and "tu_scroll m' = tu_scroll m" and "tu_locks m' = tu_locks m" and "tu_keys m' = tu_keys m"
    and "mode_fits (tu_mode m') m"
  shows "tui_ok p m'"
  using assms sel_ok_keeps [of m' m] mode_fits_keeps [of m' m "tu_mode m'"] by (simp add: tui_ok_def)

lemma say_ok [simp]: "tui_ok p (say x b m) = tui_ok p m"
  using sel_ok_keeps [of "say x b m" m] mode_fits_keeps [of "say x b m" m] by (simp add: tui_ok_def)

lemma tui_ok_parts: "tui_ok p m \<Longrightarrow> tu_p m = p \<and> 0 \<le> tu_sel m \<and> 0 \<le> tu_scroll m \<and> mode_fits (tu_mode m) m"
  by (simp add: tui_ok_def sel_ok_def)

text \<open>Every operation keeps the invariant.\<close>

lemma browse_ok: "tui_ok p m \<Longrightarrow> tu_mode m = modeBrowse \<Longrightarrow> tui_ok p (refresh h w m)"
  by (rule refresh_ok) (simp_all add: tui_ok_def sel_ok_def)

lemma open_tab_ok: "tui_ok p m \<Longrightarrow> tu_mode m = modeBrowse \<Longrightarrow> tui_ok p (open_tab h w t m)"
  by (simp add: open_tab_def tui_ok_def sel_ok_def Let_def)

lemma listLen_keeps [simp]:
  "listLen (m\<lparr>tu_sel := i\<rparr>) = listLen m" "listLen (m\<lparr>tu_scroll := i\<rparr>) = listLen m"
  "listLen (m\<lparr>tu_logs := t\<rparr>) = listLen m"
  by (simp_all add: listLen_def cong: tab.case_cong)

lemma common_keys_ok:
  assumes "tui_ok p m" and "tu_mode m = modeBrowse" and "common_keys h s w m = Some m'"
  shows "tui_ok p m' \<and> tu_mode m' = modeBrowse"
proof -
  have tab: "tu_mode (open_tab h w t m) = modeBrowse" for t using assms(2) by (simp add: open_tab_def Let_def)
  have up: "tui_ok p (m\<lparr>tu_sel := i, tu_scroll := 0\<rparr>)" if "0 \<le> i" "i < listLen m" for i
    using that assms(1,2) by (simp add: tui_ok_def sel_ok_def)
  have scroll: "tui_ok p (m\<lparr>tu_scroll := j\<rparr>)" if "0 \<le> j" for j
    using that assms(1,2) by (simp add: tui_ok_def sel_ok_def)
  have logs: "tui_ok p (m\<lparr>tu_logs := j\<rparr>)" if "tui_ok p m" "tu_mode m = modeBrowse" for j and m :: "'c tui"
    using that by (simp add: tui_ok_def sel_ok_def)
  have "tu_scroll m + page_step m \<ge> 0" "tu_sel m < listLen m \<or> tu_sel m = 0" "0 \<le> tu_sel m"
    using assms(1) by (auto simp: tui_ok_def sel_ok_def page_step_def)
  then show ?thesis
    using assms(3,2,1) up [of "tu_sel m - 1"] up [of "tu_sel m + 1"] scroll tab open_tab_ok [OF assms(1,2)]
      logs [OF browse_ok [OF assms(1,2)]] browse_ok [OF assms(1,2)]
    unfolding common_keys_def Let_def by (simp split: if_splits) (elim disjE; force)+
qed

lemma save_keeps: "save h st m w = (err, w') \<Longrightarrow> wo_system w' = wo_system w"
  by (auto simp: save_def Let_def split: prod.splits)

lemma statusKeys_ok:
  "tui_ok p m \<Longrightarrow> tu_mode m = modeBrowse \<Longrightarrow> tui_ok p (fst (statusKeys h s (m, w)))"
  by (auto simp: statusKeys_def Let_def browse_ok split: option.splits prod.splits)

lemma locks_keys_ok:
  "tui_ok p m \<Longrightarrow> tu_mode m = modeBrowse \<Longrightarrow> tu_tab m = tabLocks \<Longrightarrow> tui_ok p (locks_keys T s m)"
  by (auto simp: locks_keys_def open_input_def tui_ok_def sel_ok_def listLen_def)

lemma keys_keys_ok:
  "tui_ok p m \<Longrightarrow> tu_mode m = modeBrowse \<Longrightarrow> tu_tab m = tabKeys \<Longrightarrow> tui_ok p (keys_keys T h s m)"
  by (auto simp: keys_keys_def open_input_def tui_ok_def sel_ok_def listLen_def)

lemma setup_toggle_ok: "tui_ok p m \<Longrightarrow> tu_mode m = modeBrowse \<Longrightarrow> tui_ok p (fst (setup_toggle h (m, w)))"
  by (auto simp: setup_toggle_def Let_def browse_ok split: option.splits prod.splits)

lemma setup_cdn_ok: "tui_ok p m \<Longrightarrow> tu_mode m = modeBrowse \<Longrightarrow> tui_ok p (fst (setup_cdn h (m, w)))"
  by (auto simp: setup_cdn_def Let_def browse_ok split: option.splits prod.splits)

lemma setup_only_ok: "tui_ok p m \<Longrightarrow> tu_mode m = modeBrowse \<Longrightarrow> tui_ok p (fst (setup_only h (m, w)))"
  by (auto simp: setup_only_def Let_def browse_ok split: option.splits prod.splits)

lemma setup_keys_ok:
  assumes "tui_ok p m" and "tu_mode m = modeBrowse" and "tu_tab m = tabSetup"
  shows "tui_ok p (fst (setup_keys T h s (m, w)))"
proof -
  have "tui_ok p (open_edit T md v pl m)"
    if "md \<in> {modeEditDomain, modeEditUpstream, modeEditPort, modeEditLeak}" for md v pl
    using assms that by (auto simp: open_edit_def tui_ok_def sel_ok_def listLen_def)
  moreover have "tui_ok p (m\<lparr>tu_exUUID := u, tu_exPath := q\<rparr>)" for u q
    using assms by (auto simp: tui_ok_def sel_ok_def listLen_def)
  ultimately show ?thesis
    using assms by (simp add: setup_keys_def setup_toggle_ok setup_cdn_ok setup_only_ok Let_def)
qed

lemma updateBrowse_ok:
  assumes "tui_ok p m" and "tu_mode m = modeBrowse"
  shows "tui_ok p (fst (fst (updateBrowse T h s (m, w))))"
proof (cases "s = ''ctrl+c'' \<or> s = ''q''")
  case False
  show ?thesis
  proof (cases "common_keys h s w m")
    case None
    with assms False show ?thesis
      by (cases "tu_tab m")
        (auto simp: updateBrowse_def statusKeys_ok locks_keys_ok keys_keys_ok setup_keys_ok)
  next
    case (Some m')
    with assms False common_keys_ok [OF assms Some] show ?thesis by (auto simp: updateBrowse_def)
  qed
qed (use assms in \<open>auto simp: updateBrowse_def\<close>)

lemma update_confirm_ok:
  assumes "tui_ok p m"
  shows "tui_ok p (fst (update_confirm h s (m, w)))"
proof -
  have fits: "tu_p m = p" "0 \<le> tu_sel m" "0 \<le> tu_scroll m" using assms by (simp_all add: tui_ok_def sel_ok_def)
  have asks: "tu_p (fst (confirm_revoke h mw)) = tu_p (fst mw)" "tu_sel (fst (confirm_revoke h mw)) = tu_sel (fst mw)"
    "tu_scroll (fst (confirm_revoke h mw)) = tu_scroll (fst mw)"
    "tu_p (fst (confirm_key_delete h mw)) = tu_p (fst mw)" "tu_sel (fst (confirm_key_delete h mw)) = tu_sel (fst mw)"
    "tu_scroll (fst (confirm_key_delete h mw)) = tu_scroll (fst mw)" for h :: "'b host" and mw :: "'a tui \<times> 'b world"
    by (auto simp: confirm_revoke_def confirm_key_delete_def Let_def split: prod.splits sum.splits option.splits)
  show ?thesis
  proof (cases "s = ''y'' \<or> s = ''Y''")
    case True
    then show ?thesis
      by (auto simp: update_confirm_def Let_def asks fits split: prod.splits intro!: refresh_ok)
        (metis asks fits fst_conv)+
  next
    case False
    have "tui_ok p (m\<lparr>tu_mode := modeBrowse\<rparr>)" by (rule tui_ok_keeps [OF assms]) simp_all
    with False show ?thesis by (simp add: update_confirm_def)
  qed
qed

lemma enter_text_keeps:
  assumes "enter_text h v (m, w) = (done, m', w')"
  shows "tu_p m' = tu_p m \<and> tu_tab m' = tu_tab m \<and> tu_sel m' = tu_sel m \<and> tu_scroll m' = tu_scroll m \<and>
    tu_locks m' = tu_locks m \<and> tu_keys m' = tu_keys m \<and> tu_mode m' = tu_mode m"
  using assms by (auto simp: enter_text_def Let_def split: mode.splits sum.splits option.splits prod.splits)

lemma updateInput_ok:
  assumes "tui_ok p m"
  shows "tui_ok p (fst (updateInput T h s (m, w)))"
proof (cases "tu_mode m = modeConfirmRevoke \<or> tu_mode m = modeConfirmKeyDelete")
  case True
  with update_confirm_ok [OF assms, of h s w] show ?thesis by (simp add: updateInput_def)
next
  case asks: False
  obtain dn m1 w1 where enter: "enter_text h (TrimSpace (ti_Value T (tu_input m))) (m, w) = (dn, m1, w1)"
    by (metis prod_cases3)
  note keeps = enter_text_keeps [OF enter]
  have "tui_ok p m1" using tui_ok_keeps [OF assms, of m1] keeps assms by (simp add: tui_ok_def)
  moreover have "tui_ok p (refresh h w1 (m1\<lparr>tu_mode := modeBrowse, tu_input := i\<rparr>))" for i
    using keeps assms by (intro refresh_ok) (simp_all add: tui_ok_def sel_ok_def)
  moreover have "tui_ok p (m\<lparr>tu_mode := modeBrowse, tu_input := i\<rparr>)" "tui_ok p (m\<lparr>tu_input := i\<rparr>)" for i
    by (rule tui_ok_keeps [OF assms]; simp add: tui_ok_parts [OF assms])+
  ultimately show ?thesis
    using asks enter by (cases dn) (simp_all add: updateInput_def)
qed

lemma Update_ok: "tui_ok p m \<Longrightarrow> tui_ok p (fst (fst (Update T h ev (m, w))))"
proof (cases ev)
  case (WindowSize x y)
  assume "tui_ok p m"
  then have "tui_ok p (m\<lparr>tu_w := x, tu_h := y\<rparr>)"
    by (rule tui_ok_keeps) (simp_all add: tui_ok_parts [OF \<open>tui_ok p m\<close>])
  with WindowSize show ?thesis by (simp add: Update_def)
qed (simp_all add: Update_def updateInput_ok updateBrowse_ok)

lemma reach_ok: "reach T p m w \<Longrightarrow> tui_ok p m"
proof (induction rule: reach.induct)
  case (reach_start h w)
  show ?case unfolding New_model_def by (rule refresh_ok) simp_all
next
  case (reach_event m w h ev m' w')
  with Update_ok [of p m T h ev w] show ?case by simp
qed

text \<open>
  C13: Whatever keys are pressed and whatever other programs do to the files in between, the interface stays
  well formed: the selection is inside its list (or zero), a question about a lock or a key is only open
  while that lock or key is in the list on the screen, a text field only on its own tab, and the scroll
  position is not negative.
\<close>

theorem tui_invariant:
  assumes "reach T p m w"
  shows "tui_ok p m"
  by (rule reach_ok [OF assms])

text \<open>
  The interface can always be left: in every state Escape and then \<open>q\<close> end the program, and neither
  changes a file or the system.
\<close>

theorem tui_can_be_left:
  "tu_mode (fst (fst (Update T h (Key ''esc'') (m, w)))) = modeBrowse \<and>
   snd (fst (Update T h (Key ''esc'') (m, w))) = w \<and>
   Update T h' (Key ''q'') (fst (fst (Update T h (Key ''esc'') (m, w))), w') =
     ((fst (fst (Update T h (Key ''esc'') (m, w))), w'), True)"
proof -
  have "tu_mode (fst (fst (Update T h (Key ''esc'') (m, w)))) = modeBrowse \<and>
      snd (fst (Update T h (Key ''esc'') (m, w))) = w"
    by (cases "tu_mode m"; cases "tu_tab m")
      (simp_all add: Update_def updateBrowse_def updateInput_def update_confirm_def common_keys_def digit_tab_def
        statusKeys_def status_action_def locks_keys_def keys_keys_def setup_keys_def Let_def)
  then show ?thesis by (simp add: Update_def updateBrowse_def)
qed

section \<open>What a key changes\<close>

text \<open>The file that a key may change, if any.\<close>

definition may_change :: "'i tui \<Rightarrow> string \<Rightarrow> string option" where
  "may_change m s =
     (let p = tu_p m; entered = (\<lambda>path. if s = ''enter'' then Some path else None);
          confirmed = (\<lambda>path. if s = ''y'' \<or> s = ''Y'' then Some path else None)
      in case tu_mode m of
           modeBrowse \<Rightarrow>
             if tu_tab m = tabSetup \<and> (s = ''m'' \<or> s = ''c'' \<or> s = ''o'') then Some (p_Conf p) else None
         | modeConfirmRevoke \<Rightarrow> confirmed (p_Allow p)
         | modeConfirmKeyDelete \<Rightarrow> confirmed (p_Keys p)
         | modeAddLock \<Rightarrow> entered (p_Allow p)
         | modeAddKey \<Rightarrow> entered (p_Keys p)
         | _ \<Rightarrow> entered (p_Conf p))"

definition tmp_free :: "env \<Rightarrow> paths \<Rightarrow> fsys \<Rightarrow> bool" where
  "tmp_free e p fs \<longleftrightarrow>
     file_text fs (e_tmp e) = None \<and> e_tmp e \<noteq> p_Allow p \<and> e_tmp e \<noteq> p_Keys p \<and> e_tmp e \<noteq> p_Conf p"

lemma save_frame:
  assumes "save h st m w = (err, w')" and "tmp_free (ho_env h) (tu_p m) (wo_files w)"
  shows "frame (p_Conf (tu_p m)) (wo_files w) (wo_files w')"
  using assms SaveSettings_frame [of "ho_env h" "tu_p m" st "wo_files w"]
  by (auto simp: save_def tmp_free_def split: prod.splits)

lemma setup_toggle_frame:
  assumes "tmp_free (ho_env h) (tu_p m) (wo_files w)"
  shows "frame (p_Conf (tu_p m)) (wo_files w) (wo_files (snd (setup_toggle h (m, w)))) \<and>
    wo_system (snd (setup_toggle h (m, w))) = wo_system w"
  using save_frame [OF _ assms] save_keeps
  by (fastforce simp: setup_toggle_def Let_def frame_refl split: option.splits prod.splits)

lemma setup_cdn_frame:
  assumes "tmp_free (ho_env h) (tu_p m) (wo_files w)"
  shows "frame (p_Conf (tu_p m)) (wo_files w) (wo_files (snd (setup_cdn h (m, w)))) \<and>
    wo_system (snd (setup_cdn h (m, w))) = wo_system w"
  using save_frame [OF _ assms] save_keeps
  by (fastforce simp: setup_cdn_def Let_def split: prod.splits)

lemma setup_only_frame:
  assumes "tmp_free (ho_env h) (tu_p m) (wo_files w)"
  shows "frame (p_Conf (tu_p m)) (wo_files w) (wo_files (snd (setup_only h (m, w)))) \<and>
    wo_system (snd (setup_only h (m, w))) = wo_system w"
  using save_frame [OF _ assms] save_keeps
  by (fastforce simp: setup_only_def Let_def frame_refl split: prod.splits)

lemma setup_keys_world:
  "snd (setup_keys T h s (m, w)) = w \<or>
   s = ''m'' \<and> snd (setup_keys T h s (m, w)) = snd (setup_toggle h (m, w)) \<or>
   s = ''c'' \<and> snd (setup_keys T h s (m, w)) = snd (setup_cdn h (m, w)) \<or>
   s = ''o'' \<and> snd (setup_keys T h s (m, w)) = snd (setup_only h (m, w))"
  by (auto simp: setup_keys_def Let_def)

lemma statusKeys_world:
  "wo_files (snd (statusKeys h s (m, w))) = wo_files w \<and>
   (wo_system (snd (statusKeys h s (m, w))) \<noteq> wo_system w \<longrightarrow> status_action s \<noteq> None)"
  by (auto simp: statusKeys_def Let_def split: option.splits prod.splits)

lemma updateBrowse_world:
  assumes "w' = snd (fst (updateBrowse T h s (m, w)))"
  shows "w' = w \<or> tu_tab m = tabStatus \<and> w' = snd (statusKeys h s (m, w)) \<or>
    tu_tab m = tabSetup \<and> w' = snd (setup_keys T h s (m, w))"
  unfolding assms updateBrowse_def by (auto split: option.splits tab.splits)

lemma updateBrowse_frame:
  assumes "tu_mode m = modeBrowse" and "tmp_free (ho_env h) (tu_p m) (wo_files w)"
    and "w' = snd (fst (updateBrowse T h s (m, w)))"
  shows "(\<forall>q. file_text (wo_files w') q \<noteq> file_text (wo_files w) q \<longrightarrow> may_change m s = Some q) \<and>
    (wo_system w' \<noteq> wo_system w \<longrightarrow> tu_tab m = tabStatus \<and> status_action s \<noteq> None)"
  using updateBrowse_world [OF assms(3)] setup_keys_world [of T h s m w] statusKeys_world [of h s m w]
    setup_toggle_frame [OF assms(2)] setup_cdn_frame [OF assms(2)] setup_only_frame [OF assms(2)] assms(1)
  unfolding may_change_def Let_def frame_def by auto metis+

lemma confirm_frame:
  assumes "tmp_free (ho_env h) (tu_p m) (wo_files w)"
  shows "frame (p_Allow (tu_p m)) (wo_files w) (wo_files (snd (confirm_revoke h (m, w)))) \<and>
    wo_system (snd (confirm_revoke h (m, w))) = wo_system w"
    and "frame (p_Keys (tu_p m)) (wo_files w) (wo_files (snd (confirm_key_delete h (m, w)))) \<and>
    wo_system (snd (confirm_key_delete h (m, w))) = wo_system w"
  using RevokeLock_frame [of "ho_unicode h" "ho_env h" "tu_p m" _ "wo_files w"]
    RemoveKey_frame [of "ho_env h" "tu_p m" _ "wo_files w"] assms
  by (auto simp: confirm_revoke_def confirm_key_delete_def tmp_free_def Let_def frame_refl split: prod.splits)

lemma enter_text_frame:
  assumes "enter_text h v (m, w) = (dn, m', w')" and "tmp_free (ho_env h) (tu_p m) (wo_files w)"
    and "tu_mode m \<notin> {modeBrowse, modeConfirmRevoke, modeConfirmKeyDelete}"
  shows "frame (the (may_change m ''enter'')) (wo_files w) (wo_files w') \<and> wo_system w' = wo_system w"
proof -
  have tmp: "p_Allow (tu_p m) \<noteq> e_tmp (ho_env h)" "p_Keys (tu_p m) \<noteq> e_tmp (ho_env h)"
    "file_text (wo_files w) (e_tmp (ho_env h)) = None"
    using assms(2) by (auto simp: tmp_free_def)
  note frames = AddLock_frame [OF _ tmp(1,3)] AddKey_frame [OF _ tmp(2,3)] save_frame [OF _ assms(2)] save_keeps
  show ?thesis
    using assms(1,3) frames unfolding enter_text_def Let_def may_change_def
    by (cases "tu_mode m") (auto simp: frame_refl split: sum.splits option.splits prod.splits)
qed

lemma updateInput_frame:
  assumes "tu_mode m \<noteq> modeBrowse" and "tmp_free (ho_env h) (tu_p m) (wo_files w)"
    and "w' = snd (updateInput T h s (m, w))"
  shows "(\<forall>q. file_text (wo_files w') q \<noteq> file_text (wo_files w) q \<longrightarrow> may_change m s = Some q) \<and>
    wo_system w' = wo_system w"
proof -
  obtain dn m1 w1 where enter: "enter_text h (TrimSpace (ti_Value T (tu_input m))) (m, w) = (dn, m1, w1)"
    by (metis prod_cases3)
  show ?thesis
  proof (cases "tu_mode m = modeConfirmRevoke \<or> tu_mode m = modeConfirmKeyDelete")
    case True
    have "tu_mode (fst (confirm_revoke h (m, w))) = tu_mode m"
      by (auto simp: confirm_revoke_def Let_def split: prod.splits sum.splits)
    with True have "w' = w \<or> (s = ''y'' \<or> s = ''Y'') \<and>
        w' = snd ((if tu_mode m = modeConfirmRevoke then confirm_revoke else confirm_key_delete) h (m, w))"
      unfolding assms(3) by (auto simp: updateInput_def update_confirm_def Let_def split: prod.splits)
    then consider "w' = w" | "tu_mode m = modeConfirmRevoke" "s = ''y'' \<or> s = ''Y''" "w' = snd (confirm_revoke h (m, w))"
      | "tu_mode m = modeConfirmKeyDelete" "s = ''y'' \<or> s = ''Y''" "w' = snd (confirm_key_delete h (m, w))"
      using True by auto
    then show ?thesis
    proof cases
      case 2
      with confirm_frame(1) [OF assms(2)] show ?thesis by (auto simp: may_change_def dest: frameD)
    next
      case 3
      with confirm_frame(2) [OF assms(2)] show ?thesis by (auto simp: may_change_def dest: frameD)
    qed simp
  next
    case False
    then have "w' = w \<or> s = ''enter'' \<and> w' = w1"
      unfolding assms(3) by (auto simp: updateInput_def enter split: bool.splits)
    moreover have "\<exists>q. may_change m ''enter'' = Some q"
      using False assms(1) by (cases "tu_mode m") (simp_all add: may_change_def)
    moreover have "frame (the (may_change m ''enter'')) (wo_files w) (wo_files w1) \<and> wo_system w1 = wo_system w"
      by (rule enter_text_frame [OF enter assms(2)]) (use False assms(1) in auto)
    ultimately show ?thesis by (auto dest: frameD)
  qed
qed

text \<open>
  A key changes at most the one file that the user asked to change, and only by an explicit command:
  Enter in a text field, \<open>y\<close> in answer to a question, or one of the three switches of the Setup tab; every
  other key in every state leaves every file alone.  The service is only touched by the five keys of the
  Status tab.
\<close>

theorem tui_writes_only_when_asked:
  assumes "fst (Update T h (Key s) (m, w)) = (m', w')" and "tmp_free (ho_env h) (tu_p m) (wo_files w)"
  shows "(\<forall>q. file_text (wo_files w') q \<noteq> file_text (wo_files w) q \<longrightarrow> may_change m s = Some q) \<and>
    (wo_system w' \<noteq> wo_system w \<longrightarrow>
      tu_mode m = modeBrowse \<and> tu_tab m = tabStatus \<and> status_action s \<noteq> None)"
  using assms(1) updateBrowse_frame [OF _ assms(2), of w' T s] updateInput_frame [OF _ assms(2), of w' T s]
  by (cases "tu_mode m = modeBrowse") (auto simp: Update_def)

section \<open>Revoking and removing what is on the screen\<close>

lemma parseLine_of_good:
  "\<forall>l \<in> set ls. good_line l \<Longrightarrow> en \<in> set (good_entries U ls) \<Longrightarrow> \<exists>l \<in> set ls. parseLine U l = Some en"
  by (induction ls) (auto simp: parseLine_good split: allow_line.splits)

lemma RevokeLock_full_id:
  assumes "RevokeLock U e p pfx fs = (Inr k, fs')"
    and "gate_map U (file_text fs (p_Allow p)) = Some m" and "\<not> e_denied e (p_Allow p)"
    and "lookup m (ToLower U (TrimSpace pfx)) = Some y"
  shows "lk_CodeID k = ToLower U (TrimSpace pfx)"
proof -
  let ?ls = "text_lines (file_text fs (p_Allow p))" and ?pre = "ToLower U (TrimSpace pfx)"
  from assms(2) have g: "\<forall>l \<in> set ?ls. good_line l" "m = entries_map U ?ls" by (simp_all add: gate_map_lines)
  from assms(1,3) obtain i where
    hit: "filter (\<lambda>i. matches_prefix U ?pre (?ls ! i)) [0 ..< length ?ls] = [i]"
    by (simp add: RevokeLock_def Let_def readLines_text split: if_splits list.splits)
  from assms(1,3) hit obtain en where en: "parseLine U (?ls ! i) = Some en" "k = lock_of en"
    by (simp add: RevokeLock_def Let_def readLines_text split: if_splits option.splits prod.splits bool.splits)
  have "y \<in> set (good_entries U ?ls)" and id: "CodeID (Code y) = ?pre"
    using assms(4) find_SomeD by (fastforce simp: g(2) lookup_entries_map)+
  from parseLine_of_good [OF g(1) this(1)] obtain j where j: "j < length ?ls" "parseLine U (?ls ! j) = Some y"
    by (metis in_set_conv_nth)
  then have "matches_prefix U ?pre (?ls ! j)" by (simp add: matches_prefix_def id HasPrefix_def)
  with j(1) have "j \<in> set (filter (\<lambda>i. matches_prefix U ?pre (?ls ! i)) [0 ..< length ?ls])" by simp
  then have "j = i" unfolding hit by simp
  with j(2) en have "k = lock_of y" by simp
  with id show ?thesis by (simp add: lock_of_def)
qed

lemma CodeID_plain: "ToLower U (TrimSpace (CodeID c)) = CodeID c"
proof -
  have hex: "ascii (EncodeHex s)" "map lower_char (EncodeHex s) = EncodeHex s" for s
    using EncodeHex_set [of s] by (auto simp: ascii_def list_all_iff hex_digits_def lower_char_def intro!: map_idI)
  show ?thesis by (simp add: CodeID_def TrimSpace_spaceless EncodeHex_spaceless ToLower_def hex)
qed

definition shown_lock :: "'i tui \<Rightarrow> lock" where
  "shown_lock m = tu_locks m ! nat (tu_sel m)"

lemma update_confirm_revoke:
  assumes "tu_mode m = modeConfirmRevoke" and "k = ''y'' \<or> k = ''Y''" and "tu_sel m < int (length (tu_locks m))"
    and "RevokeLock (ho_unicode h) (ho_env h) (tu_p m) (lk_CodeID (shown_lock m)) (wo_files w) = (res, fs)"
    and "fst (Update T h (Key k) (m, w)) = (m', w')"
  shows "wo_files w' = fs \<and> (\<forall>err. res = Inl err \<longrightarrow> tu_msg m' = ToolError err)"
  using assms(5) assms(1-4)
  by (auto simp: Update_def updateInput_def update_confirm_def confirm_revoke_def shown_lock_def Let_def
      split: sum.splits prod.splits)

text \<open>
  C7: \<open>y\<close> revokes the lock that the question names and no other: if the gate's list still has that lock,
  then after the key the list the gate reads has lost exactly its id, whatever else was added to or removed
  from the file since the screen was drawn, or no file has changed and the screen shows the error.
\<close>

theorem tui_revokes_the_shown_lock:
  assumes "reach T p m w" and "tu_mode m = modeConfirmRevoke" and "k = ''y'' \<or> k = ''Y''"
    and "fst (Update T h (Key k) (m, w)) = (m', w')"
    and "gate_map (ho_unicode h) (file_text (wo_files w) (p_Allow p)) = Some g"
    and "no_id_collision (good_entries (ho_unicode h) (text_lines (file_text (wo_files w) (p_Allow p))))"
    and "lookup g (lk_CodeID (shown_lock m)) \<noteq> None"
    and "tmp_free (ho_env h) p (wo_files w)" and "\<not> e_denied (ho_env h) (p_Allow p)"
  shows "(\<exists>g'. gate_map (ho_unicode h) (file_text (wo_files w') (p_Allow p)) = Some g' \<and>
      lookup g' = (lookup g)(lk_CodeID (shown_lock m) := None)) \<or>
    file_text (wo_files w') = file_text (wo_files w) \<and> (\<exists>err. tu_msg m' = ToolError err)"
proof -
  have ok: "tui_ok p m" by (rule reach_ok [OF assms(1)])
  then have sel: "tu_p m = p" "0 \<le> tu_sel m" "tu_sel m < int (length (tu_locks m))"
    using tui_ok_parts [OF ok] assms(2) by simp_all
  then have "shown_lock m \<in> set (tu_locks m)" by (simp add: shown_lock_def)
  with ok have id: "ToLower (ho_unicode h) (TrimSpace (lk_CodeID (shown_lock m))) = lk_CodeID (shown_lock m)"
    by (simp add: tui_ok_def CodeID_plain)
  have tmp: "p_Allow p \<noteq> e_tmp (ho_env h)" "file_text (wo_files w) (e_tmp (ho_env h)) = None"
    using assms(8) by (auto simp: tmp_free_def)
  obtain res fs where run:
    "RevokeLock (ho_unicode h) (ho_env h) p (lk_CodeID (shown_lock m)) (wo_files w) = (res, fs)" by fastforce
  note step = update_confirm_revoke [OF assms(2,3) sel(3) _ assms(4), unfolded sel(1), OF run]
  show ?thesis
  proof (cases res)
    case (Inl err)
    with step RevokeLock_error [OF run [unfolded Inl] tmp] show ?thesis by auto
  next
    case (Inr l)
    note run = run [unfolded Inr]
    have "lk_CodeID l = lk_CodeID (shown_lock m)"
      using RevokeLock_full_id [OF run assms(5,9)] assms(7) by (auto simp: id)
    with RevokeLock_Inr(2) [OF run assms(5,6) tmp assms(9)] step show ?thesis by simp
  qed
qed

section \<open>The entry port, from the screen to the gate\<close>

text \<open>The port that a listening gate uses and whether it speaks TLS there.\<close>

fun entry_of_listen :: "listen \<Rightarrow> int \<times> bool" where
  "entry_of_listen (ListenPlain a) =
     (if CHR '':'' \<in> set a then scan_into (after_last (CHR '':'') a) 0 else 0, False)"
| "entry_of_listen (ListenFile port c k cr) = (port, True)"
| "entry_of_listen (ListenAuto port d) = (port, True)"

lemma start_listen_entry:
  assumes "start_listen lib e (gate_defaults p s) fs = Inr li"
  shows "entry_of_listen li = EntryPort s"
  using assms
  by (auto simp: start_listen_def gate_defaults_def EntryPort_def Let_def split: if_splits option.splits prod.splits)

lemma RunGate_entry:
  assumes "RunGate lib gk salt wfault e p [] fs = (Inr run, fs')"
  shows "entry_of_listen (gr_listen run) = EntryPort (LoadSettings (gl_unicode lib) e p fs)"
proof -
  from assms have "start_gate lib gk salt wfault e p
      (gate_defaults p (LoadSettings (gl_unicode lib) e p fs)) fs = (Inr run, fs')"
    by (simp add: RunGate_def parse_flags.simps)
  then obtain fs1 where
    "start_listen lib e (gate_defaults p (LoadSettings (gl_unicode lib) e p fs)) fs1 = Inr (gr_listen run)"
    by (auto simp: start_gate_def Let_def split: option.splits sum.splits if_splits prod.splits)
  then show ?thesis by (rule start_listen_entry)
qed

lemma colon_FormatInt: "CHR '':'' \<notin> set (FormatInt n)"
  by (rule FormatInt_no_char) simp

lemma plain_port:
  assumes "int64 n"
  shows "scan_into (after_last (CHR '':'') (CHR '':'' # FormatInt n)) d = n"
  using before_last_append [OF colon_FormatInt, of "[]" n] scan_into_FormatInt [OF assms] by simp

lemma plain_value_ok: "value_ok (CHR '':'' # FormatInt n)"
proof -
  have "spaceless (CHR '':'' # FormatInt n)"
    using FormatInt_plain [of n] by (intro spaceless_plain) (simp add: plain_char_def)
  then show ?thesis
    using FormatInt_no_newline [of n] by (simp add: value_ok_def trimmed_spaceless)
qed

lemma edit_port:
  assumes "ParseInt v = Some n" and "1 \<le> n" and "n \<le> 65535"
  shows "\<exists>s'. edit_settings modeEditPort v s = Inr s' \<and> EntryPort s' = (n, snd (EntryPort s)) \<and>
    (settings_ok s \<longrightarrow> settings_ok s')"
proof -
  have "int64 n" using assms(2,3) by (simp add: int64_def)
  then show ?thesis
    using assms plain_port [OF \<open>int64 n\<close>, of 0] plain_value_ok [of n]
    by (simp add: edit_settings_def EntryPort_def settings_ok_def)
qed

lemma save_loads:
  assumes "save h st m w = (None, w')" and "settings_ok st" and "tmp_free (ho_env h) (tu_p m) (wo_files w)"
    and "\<not> e_denied (ho_env h) (p_Conf (tu_p m))"
  shows "LoadSettings U (ho_env h) (tu_p m) (wo_files w') = st"
proof -
  from assms(1) have "SaveSettings (ho_env h) (tu_p m) st (wo_files w) = (None, wo_files w')"
    by (auto simp: save_def split: prod.splits)
  from SaveSettings_Load [OF this assms(2) _ _ assms(4)] assms(3) show ?thesis
    by (auto simp: tmp_free_def)
qed

text \<open>
  C22: The entry port typed in the Setup tab is the port the gate will listen on: when Enter accepts a number
  from 1 to 65535, a gate that starts from these files without flags listens on that port, with TLS exactly
  if the entry had TLS before.
\<close>

theorem entry_port_reaches_the_gate:
  assumes "tu_mode m = modeEditPort" and "ParseInt (TrimSpace (ti_Value T (tu_input m))) = Some n"
    and "1 \<le> n" and "n \<le> 65535" and "settings_ok (tu_settings m)"
    and "tmp_free (ho_env h) (tu_p m) (wo_files w)" and "\<not> e_denied (ho_env h) (p_Conf (tu_p m))"
    and "fst (Update T h (Key ''enter'') (m, w)) = (m', w')" and "tu_mode m' = modeBrowse"
    and "RunGate lib gk salt wfault (ho_env h) (tu_p m) [] (wo_files w') = (Inr run, fs')"
  shows "entry_of_listen (gr_listen run) = (n, snd (EntryPort (tu_settings m)))"
proof -
  obtain s' where s': "edit_settings modeEditPort (TrimSpace (ti_Value T (tu_input m))) (tu_settings m) = Inr s'"
    "EntryPort s' = (n, snd (EntryPort (tu_settings m)))" "settings_ok s'"
    using edit_port [OF assms(2-4)] assms(5) by blast
  have "save h s' m w = (None, w')"
    using assms(8,9,1) s'(1)
    by (auto simp: Update_def updateInput_def enter_text_def Let_def split: prod.splits option.splits bool.splits)
  from save_loads [OF this s'(3) assms(6,7)] RunGate_entry [OF assms(10)] s'(2) show ?thesis by simp
qed

text \<open>
  C35: Pressing \<open>m\<close> twice does not undo it: from TLS on 443 with a Let's Encrypt domain the first press gives
  plain HTTP on 80, the second TLS on 80, for which the gate needs a certificate file: the gate that
  started before the two presses does not start after them.
\<close>

theorem toggle_twice_breaks_the_gate:
  assumes "EntryPort s = (443, True)" and "cf_Domain s \<noteq> []" and "cf_Cert s = []"
    and "toggle_tls s = Some s1" and "toggle_tls s1 = Some s2"
  shows "start_listen lib e (gate_defaults p s) fs = Inr (ListenAuto 443 (cf_Domain s)) \<and>
    EntryPort s2 = (80, True) \<and> start_listen lib e (gate_defaults p s2) fs = Inl (PortNeedsCert 80)"
proof -
  have plain: "cf_Plain s = []" "cf_Port s \<le> 0 \<or> cf_Port s = 443"
    using assms(1) by (auto simp: EntryPort_def split: if_splits)
  from assms(1,4) have s1: "s1 = s\<lparr>cf_Plain := CHR '':'' # FormatInt 80\<rparr>" by (simp add: toggle_tls_def)
  have "EntryPort s1 = (80, False)" using plain_port [of 80 0] by (simp add: s1 EntryPort_def int64_def)
  with assms(2,3,5) s1 have s2: "s2 = s\<lparr>cf_Plain := [], cf_Port := 80\<rparr>" by (simp add: toggle_tls_def)
  show ?thesis
    using assms(2,3) plain by (auto simp: start_listen_def gate_defaults_def EntryPort_def s2)
qed

section \<open>Witnesses\<close>

text \<open>A text field that appends the keys, and a host without systemd.\<close>

definition wit_field :: "string text_field" where
  "wit_field = \<lparr>ti_New = [], ti_Value = (\<lambda>i. i), ti_SetValue = (\<lambda>v i. v), ti_Placeholder = (\<lambda>v i. i),
     ti_Focus = (\<lambda>i. i), ti_Blur = (\<lambda>i. i), ti_Update = (\<lambda>k i. i @ k), ti_View = (\<lambda>i. i)\<rparr>"

definition wit_host :: "unit host" where
  "wit_host = \<lparr>ho_unicode = wit_unicode, ho_cert = wit_cert_lib, ho_env = wit_env,
     ho_systemd = \<lparr>sy_LookPath = (\<lambda>x. False), sy_Output = (\<lambda>c s. []), sy_CombinedOutput = (\<lambda>c s. (([], None), s))\<rparr>,
     ho_unjson = (\<lambda>b. None), ho_uuid = replicate 16 (CHR ''u''), ho_path = ''path'', ho_key = replicate 16 (CHR ''k'')\<rparr>"

definition wit_world :: "fsys \<Rightarrow> unit world" where
  "wit_world fs = \<lparr>wo_files = fs, wo_system = ()\<rparr>"

definition wit_start :: "fsys \<Rightarrow> string tui" where
  "wit_start fs = New_model wit_field wit_host wit_paths (wit_world fs)"

definition wit_press :: "string \<Rightarrow> string tui \<times> unit world \<Rightarrow> string tui \<times> unit world" where
  "wit_press k mw = fst (Update wit_field wit_host (Key k) mw)"

lemma wit_host_simps [simp]:
  "ho_unicode wit_host = wit_unicode" "ho_env wit_host = wit_env" "wo_files (wit_world fs) = fs"
  by (simp_all add: wit_host_def wit_world_def)

lemma wit_start_simps:
  "tu_p (wit_start fs) = wit_paths" "tu_tab (wit_start fs) = tabStatus" "tu_mode (wit_start fs) = modeBrowse"
  by (simp_all add: wit_start_def New_model_def)

lemma wit_tmp_free: "file_text fs (e_tmp wit_env) = None \<Longrightarrow> tmp_free wit_env wit_paths fs"
  by (simp add: tmp_free_def wit_allow wit_conf) (simp add: wit_env_def)

lemma wit_press_reach:
  "reach wit_field p (fst mw) (snd mw) \<Longrightarrow> reach wit_field p (fst (wit_press k mw)) (snd (wit_press k mw))"
  using reach_event [of wit_field p "fst mw" "snd mw" wit_host "Key k"] by (simp add: wit_press_def)

lemma wit_start_reach: "reach wit_field wit_paths (fst (wit_start fs, wit_world fs)) (snd (wit_start fs, wit_world fs))"
  by (simp add: wit_start_def reach_start)

theorem tui_invariant_witness:
  "tui_ok wit_paths (fst (wit_press ''d'' (wit_press ''2'' (wit_start wit_listed, wit_world wit_listed))))"
  by (rule tui_invariant) (rule wit_press_reach, rule wit_press_reach, rule wit_start_reach)

theorem tui_writes_only_when_asked_witness:
  "file_text (wo_files (snd (fst (Update wit_field wit_host (Key ''R'') (wit_start wit_fs, wit_world wit_fs))))) =
     file_text wit_fs"
proof -
  let ?r = "fst (Update wit_field wit_host (Key ''R'') (wit_start wit_fs, wit_world wit_fs))"
  have "?r = (fst ?r, snd ?r)" by simp
  moreover have "tmp_free (ho_env wit_host) (tu_p (wit_start wit_fs)) (wo_files (wit_world wit_fs))"
    by (simp add: wit_start_simps wit_tmp_free wit_conf_free)
  ultimately have "file_text (wo_files (snd ?r)) q \<noteq> file_text (wo_files (wit_world wit_fs)) q \<longrightarrow>
      may_change (wit_start wit_fs) ''R'' = Some q" for q
    using tui_writes_only_when_asked by blast
  then show ?thesis by (intro ext) (auto simp: may_change_def wit_start_simps)
qed

text \<open>The state in which the interface asks whether to revoke the one lock of the list.\<close>

lemma wit_asks:
  "\<exists>m. wit_press ''d'' (wit_press ''2'' (wit_start wit_listed, wit_world wit_listed)) = (m, wit_world wit_listed) \<and>
    tu_mode m = modeConfirmRevoke \<and> tu_locks m = [lock_of wit_entry] \<and> tu_sel m = 0"
proof -
  have denied: "\<not> e_denied wit_env (p_Allow wit_paths)" by (simp add: wit_env_def)
  have "readLines wit_env (p_Allow wit_paths) wit_listed = Inr [wit_line]"
    using denied by (simp add: readLines_text wit_listed_lines)
  then have "Locks wit_unicode wit_env wit_paths wit_listed = Inr [lock_of wit_entry]"
    by (simp add: Locks_def map_filter_def wit_line_parse)
  then have "tu_locks (wit_start wit_listed) = [lock_of wit_entry]"
    by (simp add: wit_start_def New_model_def SortLocks_def)
  then show ?thesis
    by (simp add: wit_press_def Update_def updateBrowse_def common_keys_def digit_tab_def open_tab_def tabs_def
        locks_keys_def wit_start_simps)
qed

theorem tui_revokes_the_shown_lock_witness:
  "\<exists>m m' w'. wit_press ''y'' (m, wit_world wit_listed) = (m', w') \<and> tu_locks m = [lock_of wit_entry] \<and>
    ((\<exists>g'. gate_map wit_unicode (file_text (wo_files w') (p_Allow wit_paths)) = Some g' \<and>
        lookup g' (CodeID wit_code) = None) \<or>
      file_text (wo_files w') = file_text wit_listed \<and> (\<exists>err. tu_msg m' = ToolError err))"
proof -
  obtain m where m: "wit_press ''d'' (wit_press ''2'' (wit_start wit_listed, wit_world wit_listed)) = (m, wit_world wit_listed)"
    "tu_mode m = modeConfirmRevoke" "tu_locks m = [lock_of wit_entry]" "tu_sel m = 0" using wit_asks by blast
  have r: "reach wit_field wit_paths m (wit_world wit_listed)"
    using wit_press_reach [OF wit_press_reach [OF wit_start_reach], of "''d''" "''2''" wit_listed] m(1) by simp
  obtain m' w' where y: "wit_press ''y'' (m, wit_world wit_listed) = (m', w')" by fastforce
  have "lk_CodeID (shown_lock m) = CodeID wit_code"
    by (simp add: shown_lock_def m(3,4) lock_of_def wit_entry_def)
  moreover have "lookup (entries_map wit_unicode [wit_line]) (CodeID wit_code) \<noteq> None"
    by (simp add: entries_map_def put_entry_def wit_line_Good wit_entry_def)
  moreover have "tmp_free wit_env wit_paths wit_listed"
    by (rule wit_tmp_free) (simp add: file_text_def wit_listed_def wit_env_def)
  moreover have "\<not> e_denied wit_env (p_Allow wit_paths)" by (simp add: wit_env_def)
  ultimately show ?thesis
    using tui_revokes_the_shown_lock [OF r m(2) _ y [unfolded wit_press_def]] wit_listed_map y m(3) by fastforce
qed

text \<open>A directory in which the gate starts in plain mode, whatever the port.\<close>

lemma wit_starts:
  assumes "file_text fs (p_Keys wit_paths) = Some ''0123456789abcdef''"
    and "file_text fs (p_Allow wit_paths) = Some allow_header" and "LoadSettings wit_unicode wit_env wit_paths fs = s"
    and "cf_CDN s = []" and "\<not> cf_OnlyProxy s" and "cf_Plain s \<noteq> []" and "cf_Cert s = []" and "cf_Key s = []"
  shows "\<exists>run. RunGate wit_gate_libs [] ''salt'' NoFault wit_env wit_paths [] fs = (Inr run, fs)"
proof -
  let ?f = "gate_defaults wit_paths s"
  have libs: "gl_unicode wit_gate_libs = wit_unicode"
    "gl_url wit_gate_libs u = Some \<lparr>up_Scheme = ''http'', up_Host = drop 7 u, up_Path = []\<rparr>" for u
    by (simp_all add: wit_gate_libs_def)
  have open_files: "\<not> e_denied wit_env path" for path by (simp add: wit_env_def)
  have f: "fl_cdn ?f = []" "fl_plain ?f = cf_Plain s" "fl_cert ?f = []" "fl_key ?f = []"
    "fl_keys ?f = p_Keys wit_paths" "fl_allow ?f = p_Allow wit_paths" "\<not> fl_only_proxy ?f"
    using assms(4-8) by (simp_all add: gate_defaults_def)
  have "gate_keys (file_text fs (p_Keys wit_paths)) = Some [''0123456789abcdef'']"
    using wit_gate_keys by (simp add: assms(1) wit_gate_texts)
  then obtain kf where kf: "LoadKeyFile (observe wit_env (p_Keys wit_paths) fs) (env_keys []) = Inr kf"
    "KeyFile_Get kf = [''0123456789abcdef''] @ env_keys []"
    using LoadKeyFile_gate [OF open_files] by blast
  obtain al where al: "LoadAllowList wit_unicode (observe wit_env (p_Allow wit_paths) fs) = Inr al"
    using LoadAllowList_gate [OF open_files assms(2) wit_gate_allow] by blast
  have stat: "statFile wit_env (p_Allow wit_paths) fs \<noteq> Inl NoSuchFile"
    using observe_text [OF open_files assms(2)] by auto
  have prov: "ParseProvider wit_unicode [] = Some ProviderNone" by code_simp
  have "start_gate wit_gate_libs [] ''salt'' NoFault wit_env wit_paths ?f fs =
    (Inr \<lparr>gr_options = gate_options ''salt'' wit_paths ?f ProviderNone None, gr_keys = kf, gr_allow = al,
      gr_upstream = \<lparr>up_Scheme = ''http'', up_Host = drop 7 (''http://'' @ fl_upstream ?f), up_Path = []\<rparr>,
      gr_listen = ListenPlain (cf_Plain s)\<rparr>, fs)"
    by (rule start_gate_run)
      (use kf al stat prov assms(6) in \<open>simp_all add: f libs start_proxies_def start_listen_def\<close>)
  then show ?thesis by (simp add: RunGate_def libs assms(3) parse_flags.simps)
qed

lemma wit_plain_ok: "settings_ok wit_plain"
proof -
  have "spaceless '':8080''" by (rule spaceless_plain) (simp add: plain_char_def)
  then have "value_ok '':8080''" by (simp add: value_ok_def trimmed_spaceless)
  then show ?thesis using Default_ok(1) by (simp add: settings_ok_def)
qed

definition wit_edit :: "string tui" where
  "wit_edit = (wit_start wit_gate_fs)\<lparr>tu_tab := tabSetup, tu_mode := modeEditPort, tu_input := FormatInt 9090\<rparr>"

theorem entry_port_reaches_the_gate_witness:
  "\<exists>run fs'. RunGate wit_gate_libs [] ''salt'' NoFault wit_env wit_paths []
      (wo_files (snd (wit_press ''enter'' (wit_edit, wit_world wit_gate_fs)))) = (Inr run, fs') \<and>
     entry_of_listen (gr_listen run) = (9090, False)"
proof -
  let ?s = "DefaultSettings\<lparr>cf_Plain := CHR '':'' # FormatInt 9090\<rparr>"
  have m: "tu_p wit_edit = wit_paths" "tu_mode wit_edit = modeEditPort" "tu_settings wit_edit = wit_plain"
    "tu_input wit_edit = FormatInt 9090"
    by (simp_all add: wit_edit_def wit_start_simps) (simp add: wit_start_def New_model_def wit_gate_settings)
  have entry: "EntryPort wit_plain = (8080, False)" by code_simp
  have i: "int64 9090" by (simp add: int64_def)
  have typed: "ti_Value wit_field x = x" "TrimSpace (FormatInt 9090) = FormatInt 9090"
    "ParseInt (FormatInt 9090) = Some 9090" for x
    by (simp_all add: wit_field_def TrimSpace_id ParseInt_FormatInt i)
  have ok: "settings_ok ?s" using wit_plain_ok plain_value_ok [of 9090] by (simp add: settings_ok_def)
  have tmp: "file_text wit_gate_fs (e_tmp wit_env) = None" by (simp add: file_text_def wit_gate_fs_def wit_env_def)
  obtain fs' where sv: "SaveSettings wit_env wit_paths ?s wit_gate_fs = (None, fs')"
    by (metis Save_ok wit_env_simps prod.collapse)
  have "edit_settings modeEditPort (FormatInt 9090) wit_plain = Inr ?s"
    by (simp add: edit_settings_def typed entry)
  then have step: "fst (Update wit_field wit_host (Key ''enter'') (wit_edit, wit_world wit_gate_fs)) = (m', w') \<Longrightarrow>
      tu_mode m' = modeBrowse \<and> wo_files w' = fs'" for m' w'
    by (auto simp: Update_def updateInput_def enter_text_def save_def m typed sv)
  obtain m' w' where press: "fst (Update wit_field wit_host (Key ''enter'') (wit_edit, wit_world wit_gate_fs)) = (m', w')"
    by fastforce
  have free: "p_Conf wit_paths \<noteq> e_tmp wit_env" "\<not> e_denied wit_env (p_Conf wit_paths)" by (rule wit_conf_free)+
  have load: "LoadSettings wit_unicode wit_env wit_paths fs' = ?s"
    using SaveSettings_Load [OF sv ok free(1) tmp free(2)] by simp
  have "file_text fs' q = file_text wit_gate_fs q" if "q \<noteq> p_Conf wit_paths" for q
    using SaveSettings_frame [OF sv free(1) tmp] that by (simp add: frame_def)
  moreover have "p_Keys wit_paths \<noteq> p_Conf wit_paths" "p_Allow wit_paths \<noteq> p_Conf wit_paths"
    by (simp_all add: wit_paths_all wit_conf)
  ultimately obtain run where "RunGate wit_gate_libs [] ''salt'' NoFault wit_env wit_paths [] fs' = (Inr run, fs')"
    using wit_starts [of fs' ?s] load wit_gate_texts by (auto simp: DefaultSettings_def)
  then have run: "RunGate wit_gate_libs [] ''salt'' NoFault (ho_env wit_host) (tu_p wit_edit) [] (wo_files w') = (Inr run, fs')"
    using step [OF press] by (simp add: m)
  have "entry_of_listen (gr_listen run) = (9090, snd (EntryPort (tu_settings wit_edit)))"
    by (rule entry_port_reaches_the_gate [OF m(2) _ _ _ _ _ _ press _ run])
      (use step [OF press] wit_plain_ok free tmp in \<open>simp_all add: m typed wit_tmp_free\<close>)
  with run press show ?thesis by (auto simp: wit_press_def m entry)
qed

theorem toggle_twice_breaks_the_gate_witness:
  "\<exists>s1 s2. toggle_tls (DefaultSettings\<lparr>cf_Domain := ''vpn.example.com''\<rparr>) = Some s1 \<and> toggle_tls s1 = Some s2 \<and>
     start_listen wit_gate_libs wit_env (gate_defaults wit_paths s2) wit_fs = Inl (PortNeedsCert 80)"
proof -
  let ?s = "DefaultSettings\<lparr>cf_Domain := ''vpn.example.com''\<rparr>"
  have e: "EntryPort ?s = (443, True)" by (simp add: EntryPort_def DefaultSettings_def)
  then obtain s1 where s1: "toggle_tls ?s = Some s1" by (simp add: toggle_tls_def)
  with e have "s1 = ?s\<lparr>cf_Plain := CHR '':'' # FormatInt 80\<rparr>" by (simp add: toggle_tls_def)
  then obtain s2 where s2: "toggle_tls s1 = Some s2" by (simp add: toggle_tls_def EntryPort_def DefaultSettings_def)
  from toggle_twice_breaks_the_gate [OF e _ _ s1 s2] s1 s2 show ?thesis by (simp add: DefaultSettings_def)
qed

section \<open>The Setup tab and \<open>oversee set\<close>\<close>



end
