(* ===== verification/Tui_Guide.thy ===== *)
theory Tui_Guide
  imports Tui_Safety
begin

text \<open>
  The page of the guide tab: \<open>renderGuideBody\<close> and \<open>viewGuide\<close> of \<open>server/internal/tui/guide.go\<close>, with the
  helpers of \<open>tui.go\<close> they use.  The lipgloss library is a parameter (\<open>screen\<close>): what a style makes of a
  text, how wide a text is, and how columns are joined.  A slice out of range and a negative repeat count,
  which panic in Go, are \<open>None\<close>.
\<close>

section \<open>Styles and symbols\<close>

datatype style =
    bannerStyle | titleStyle | subStyle | tabOn | tabOff | dimStyle | badStyle | goodStyle | warnStyle | selStyle
  | boxStyle | helpStyle | headerStyle | labelStyle | valueStyle | sectionBar | keyBadge | cmdStyle | plainStyle
  | brightStyle | WithWidth int style

text \<open>\<open>sc_errText\<close> is the text of an error message.\<close>

record screen =
  sc_unicode :: unicode
  sc_Render :: "style \<Rightarrow> string \<Rightarrow> string"
  sc_Width :: "string \<Rightarrow> int"
  sc_JoinHorizontal :: "string list \<Rightarrow> string"
  sc_errText :: "message \<Rightarrow> string"

definition left_block :: string where
  "left_block = [CHR 0xE2, CHR 0x96, CHR 0x8C]"

definition middle_dot :: string where
  "middle_dot = [CHR 0xC2, CHR 0xB7]"

definition light_line :: string where
  "light_line = [CHR 0xE2, CHR 0x94, CHR 0x80]"

definition warning_sign :: string where
  "warning_sign = [CHR 0xE2, CHR 0x9A, CHR 0xA0]"

definition up_triangle :: string where
  "up_triangle = [CHR 0xE2, CHR 0x96, CHR 0xB2]"

definition down_triangle :: string where
  "down_triangle = [CHR 0xE2, CHR 0x96, CHR 0xBC]"

definition up_arrow :: string where
  "up_arrow = [CHR 0xE2, CHR 0x86, CHR 0x91]"

definition down_arrow :: string where
  "down_arrow = [CHR 0xE2, CHR 0x86, CHR 0x93]"

definition slice :: "'a list \<Rightarrow> int \<Rightarrow> int \<Rightarrow> 'a list option" where
  "slice xs a b =
     (if 0 \<le> a \<and> a \<le> b \<and> b \<le> int (length xs) then Some (drop (nat a) (take (nat b) xs)) else None)"

definition Repeat_int :: "string \<Rightarrow> int \<Rightarrow> string option" where
  "Repeat_int s n = (if n < 0 then None else Some (concat (replicate (nat n) s)))"

text \<open>\<open>[]rune(s)\<close>, each rune as \<open>string\<close> gives it back.\<close>

function runes :: "string \<Rightarrow> string list" where
  "runes p =
     (if p = [] then []
      else if rune_width p = 0 then replacement # runes (tl p)
      else take (rune_width p) p # runes (drop (rune_width p) p))"
  by pat_completeness auto
termination
  by (relation "measure length") auto

declare runes.simps [simp del]

definition contentW :: "'i tui \<Rightarrow> int" where
  "contentW m =
     (let w = (if tu_w m \<le> 0 then 100 else tu_w m) - 4;
          w = (if w > 118 then 118 else w)
      in if w < 60 then 60 else w)"

definition box :: "screen \<Rightarrow> 'i tui \<Rightarrow> string \<Rightarrow> string" where
  "box sc m s = sc_Render sc (WithWidth (contentW m - 2) boxStyle) s"

definition sec :: "screen \<Rightarrow> string \<Rightarrow> string" where
  "sec sc title = sc_Render sc sectionBar ((left_block @ '' '') @ ToUpper (sc_unicode sc) title)"

section \<open>The body of a page\<close>

text \<open>The rows of a command: at most \<open>max 20 (w - 6)\<close> runes each, without the styling.\<close>

function command_rows :: "int \<Rightarrow> string list \<Rightarrow> string list" where
  "command_rows w r =
     (if r = [] then []
      else
        (let n = min (nat (max 20 (w - 6))) (length r)
         in concat (take n r) # command_rows w (drop n r)))"
  by pat_completeness auto
termination
proof (relation "measure (length \<circ> snd)")
  fix w :: int and r :: "string list" and n
  assume "r \<noteq> []" and "n = min (nat (max 20 (w - 6))) (length r)"
  then have "0 < n" "n \<le> length r" by auto
  then show "((w, drop n r), w, r) \<in> measure (length \<circ> snd)" by simp
qed simp

declare command_rows.simps [simp del]

definition wrap :: "screen \<Rightarrow> int \<Rightarrow> style \<Rightarrow> string \<Rightarrow> string \<Rightarrow> string \<Rightarrow> string list" where
  "wrap sc w st first hang s =
     (let rows = map (\<lambda>l. sc_Render sc st (TrimRightByte l (CHR '' '')))
            (Split (sc_Render sc (WithWidth (max 10 (w - sc_Width sc first)) plainStyle) s) newline)
      in (case rows of [] \<Rightarrow> [] | l # ls \<Rightarrow> (first @ l) # map (\<lambda>l. hang @ l) ls))"

definition step_number :: "string \<Rightarrow> bool" where
  "step_number item \<longleftrightarrow>
     length item > 2 \<and> (of_char (item ! 0) :: nat) \<ge> 49 \<and> (of_char (item ! 0) :: nat) \<le> 57 \<and> item ! 1 = CHR ''.''"

definition render_line :: "screen \<Rightarrow> int \<Rightarrow> string \<Rightarrow> string list" where
  "render_line sc w line =
     (if line = [] then [[]]
      else if HasPrefix line ''# '' then [[], sc_Render sc sectionBar (TrimPrefix line ''# '')]
      else if HasPrefix line ''$ '' then
        map (\<lambda>r. ''  '' @ sc_Render sc cmdStyle r) (command_rows w (runes (TrimPrefix line ''$ '')))
      else if HasPrefix line ''! '' then wrap sc w warnStyle (warning_sign @ '' '') ''  '' (TrimPrefix line ''! '')
      else if HasPrefix line (check_mark @ '' '') then wrap sc w goodStyle (check_mark @ '' '') ''  '' (TrimPrefix line (check_mark @ '' ''))
      else if HasPrefix line ''- '' then
        (let item = TrimPrefix line ''- ''
         in if step_number item then
              wrap sc w brightStyle (sc_Render sc goodStyle (take 2 item) @ '' '') ''   '' (drop 3 item)
            else wrap sc w brightStyle (bullet @ '' '') ''  '' item)
      else wrap sc w brightStyle [] [] line)"

definition renderGuideBody :: "screen \<Rightarrow> string \<Rightarrow> int \<Rightarrow> string list" where
  "renderGuideBody sc body w = concat (map (render_line sc w) (Split body newline))"

section \<open>The page\<close>

definition guide_index :: "'i tui \<Rightarrow> nat" where
  "guide_index m = (if tu_sel m < 0 \<or> tu_sel m \<ge> int (length guideTopics) then 0 else nat (tu_sel m))"

definition wide :: "'i tui \<Rightarrow> bool" where
  "wide m \<longleftrightarrow> contentW m \<ge> 96"

definition listW :: "'i tui \<Rightarrow> int" where
  "listW m = (if wide m then 30 else 0)"

definition bodyW :: "'i tui \<Rightarrow> int" where
  "bodyW m = (if wide m then contentW m - listW m - 14 else contentW m - 10)"

definition guide_lines :: "screen \<Rightarrow> 'i tui \<Rightarrow> string list" where
  "guide_lines sc m = renderGuideBody sc (gt_body (guideTopics ! guide_index m)) (bodyW m)"

text \<open>The lines on the screen: from the first number up to before the second.\<close>

definition window :: "screen \<Rightarrow> 'i tui \<Rightarrow> int \<times> int" where
  "window sc m =
     (let n = int (length (guide_lines sc m)); avail = guideHeight m;
          scroll = (if tu_scroll m > n - avail then max 0 (n - avail) else tu_scroll m)
      in (scroll, min n (scroll + avail)))"

definition guide_foot :: "screen \<Rightarrow> int \<Rightarrow> int \<Rightarrow> int \<Rightarrow> string" where
  "guide_foot sc n scroll stop =
     (if stop < n \<and> scroll > 0 then
        sc_Render sc dimStyle ((up_triangle @ down_triangle @ '' more above and below ('') @ FormatInt stop @ ''/'' @ FormatInt n @ ('') '' @ em_dash @ '' space / b''))
      else if stop < n then
        sc_Render sc dimStyle ((down_triangle @ '' more below ('') @ FormatInt stop @ ''/'' @ FormatInt n @ ('') '' @ em_dash @ '' press space''))
      else if scroll > 0 then sc_Render sc dimStyle (up_triangle @ '' more above '' @ em_dash @ '' press b'')
      else [])"

definition guide_item :: "screen \<Rightarrow> 'i tui \<Rightarrow> nat \<Rightarrow> string" where
  "guide_item sc m i =
     sc_Render sc (WithWidth (listW m) (if i = guide_index m then tabOn else tabOff))
       (FormatInt (int i + 1) @ ''  '' @ gt_short (guideTopics ! i))"

definition viewGuide :: "screen \<Rightarrow> 'i tui \<Rightarrow> string option" where
  "viewGuide sc m =
     (let cw = contentW m; idx = guide_index m; ls = guide_lines sc m; n = int (length ls);
          (scroll, stop) = window sc m;
          foot = guide_foot sc n scroll stop;
          title = sc_Render sc titleStyle (FormatInt (int idx + 1) @ ''/'' @ FormatInt (int (length guideTopics)) @
            ''  '' @ gt_title (guideTopics ! idx))
      in case (slice ls scroll stop, Repeat_int light_line (max 10 (min (bodyW m) 60))) of
           (Some shown, Some rule) \<Rightarrow>
             (let content = title @ [newline] @ sc_Render sc dimStyle rule @ [newline] @ Join shown [newline] @
                    (if foot \<noteq> [] then [newline, newline] @ foot else [])
              in Some (if \<not> wide m then
                     sec sc ''Guide'' @ sc_Render sc dimStyle (''   '' @ up_arrow @ down_arrow @ '' choose a topic'') @ [newline] @ box sc m content
                   else
                     sec sc ''Guide'' @ sc_Render sc dimStyle (''   '' @ up_arrow @ down_arrow @ '' choose a topic '' @ middle_dot @ '' space scrolls'') @ [newline] @
                     sc_JoinHorizontal sc
                       [sc_Render sc (WithWidth (listW m + 2) plainStyle)
                          (Join (map (guide_item sc m) [0 ..< length guideTopics]) [newline]),
                        sc_Render sc (WithWidth (cw - listW m - 6) boxStyle) content]))
         | _ \<Rightarrow> None)"

section \<open>What is shown of a page\<close>

lemma guideHeight_bounds: "8 \<le> guideHeight m" "page_step m = guideHeight m - 2"
  by (simp_all add: guideHeight_def page_step_def)

lemma contentW_bounds: "60 \<le> contentW m" "contentW m \<le> 118"
  by (simp_all add: contentW_def Let_def)

lemma window_range:
  assumes "0 \<le> tu_scroll m" and "window sc m = (a, b)"
  shows "0 \<le> a \<and> a \<le> b \<and> b \<le> int (length (guide_lines sc m)) \<and> b - a \<le> guideHeight m"
  using assms guideHeight_bounds(1) [of m] by (auto simp: window_def Let_def)

lemma viewGuide_some: "0 \<le> tu_scroll m \<Longrightarrow> viewGuide sc m \<noteq> None"
proof -
  assume scroll: "0 \<le> tu_scroll m"
  obtain a b where ab: "window sc m = (a, b)" by fastforce
  from window_range [OF scroll ab] show ?thesis
    by (simp add: viewGuide_def ab Let_def slice_def Repeat_int_def)
qed

text \<open>Commands are cut into rows and not changed.\<close>

lemma concat_command_rows: "concat (command_rows w r) = concat r"
proof (induction w r rule: command_rows.induct)
  case (1 w r)
  show ?case
  proof (cases "r = []")
    case False
    let ?n = "min (nat (max 20 (w - 6))) (length r)"
    have "concat (command_rows w r) = concat (take ?n r) @ concat (drop ?n r)"
      using False 1 [OF False refl] by (subst command_rows.simps) (simp add: Let_def)
    also have "\<dots> = concat r" by (metis append_take_drop_id concat_append)
    finally show ?thesis .
  qed (simp add: command_rows.simps)
qed

lemma command_rows_runes:
  "row \<in> set (command_rows w r) \<Longrightarrow>
    \<exists>rs. row = concat rs \<and> set rs \<subseteq> set r \<and> rs \<noteq> [] \<and> int (length rs) \<le> max 20 (w - 6)"
proof (induction w r rule: command_rows.induct)
  case (1 w r)
  have r: "r \<noteq> []" using "1.prems" by (auto simp: command_rows.simps)
  let ?n = "min (nat (max 20 (w - 6))) (length r)"
  have "row = concat (take ?n r) \<or> row \<in> set (command_rows w (drop ?n r))"
    using "1.prems" r by (subst (asm) command_rows.simps) (simp add: Let_def)
  then show ?case
  proof
    assume "row = concat (take ?n r)"
    moreover have "take ?n r \<noteq> []" using r by auto
    ultimately show ?thesis by (intro exI [of _ "take ?n r"]) (auto dest: in_set_takeD)
  next
    assume "row \<in> set (command_rows w (drop ?n r))"
    from "1.IH" [OF r refl this] show ?thesis by (blast dest: in_set_dropD)
  qed
qed

lemma runes_ascii: "ascii s \<Longrightarrow> runes s = map (\<lambda>c. [c]) s"
proof (induction s)
  case (Cons c s)
  then have "rune_width (c # s) = 1" by (simp add: rune_width_def ascii_def Let_def)
  with Cons show ?case by (subst runes.simps) (simp add: ascii_def)
qed (simp add: runes.simps)

text \<open>
  C39: A command of the guide is cut into rows that fit and is not changed: the rows of an ASCII command,
  put together again, are the command, and no row has more characters than the column allows.
\<close>

theorem command_rows_join:
  assumes "ascii c"
  shows "concat (command_rows w (runes c)) = c \<and>
    (\<forall>row \<in> set (command_rows w (runes c)). row \<noteq> [] \<and> int (length row) \<le> max 20 (w - 6))"
proof
  show "concat (command_rows w (runes c)) = c"
    unfolding concat_command_rows by (simp add: runes_ascii [OF assms])
  have "row \<noteq> [] \<and> int (length row) \<le> max 20 (w - 6)" if "row \<in> set (command_rows w (runes c))" for row
  proof -
    from command_rows_runes [OF that] obtain rs where
      rs: "row = concat rs" "set rs \<subseteq> (\<lambda>c. [c]) ` set c" "rs \<noteq> []" "int (length rs) \<le> max 20 (w - 6)"
      by (auto simp: runes_ascii [OF assms])
    have "length (concat rs) = length rs" using rs(2) by (induction rs) auto
    with rs show ?thesis by (metis length_0_conv)
  qed
  then show "\<forall>row \<in> set (command_rows w (runes c)). row \<noteq> [] \<and> int (length row) \<le> max 20 (w - 6)" by blast
qed

text \<open>Scrolling.\<close>

definition press :: "'i text_field \<Rightarrow> 's host \<Rightarrow> string \<Rightarrow> 'i tui \<times> 's world \<Rightarrow> 'i tui \<times> 's world" where
  "press T h k mw = fst (Update T h (Key k) mw)"

lemma press_space:
  assumes "tu_tab m = tabGuide" and "tu_mode m = modeBrowse"
  shows "(press T h '' '' ^^ k) (m, w) = (m\<lparr>tu_scroll := tu_scroll m + int k * page_step m\<rparr>, w)"
proof (induction k)
  case (Suc k)
  let ?m = "m\<lparr>tu_scroll := tu_scroll m + int k * page_step m\<rparr>"
  have "page_step ?m = page_step m" by (simp add: page_step_def guideHeight_def)
  moreover have "press T h '' '' (?m, w) = (?m\<lparr>tu_scroll := tu_scroll ?m + page_step ?m\<rparr>, w)"
    using assms by (simp add: press_def Update_def updateBrowse_def common_keys_def digit_tab_def)
  ultimately show ?case using Suc by (simp add: algebra_simps)
qed simp

lemma scrolled [simp]:
  "guide_lines sc (m\<lparr>tu_scroll := j\<rparr>) = guide_lines sc m" "guideHeight (m\<lparr>tu_scroll := j\<rparr>) = guideHeight m"
  by (simp_all add: guide_lines_def guide_index_def bodyW_def wide_def listW_def contentW_def guideHeight_def Let_def)

lemma window_covers:
  fixes i n gap avail :: int
  assumes "0 \<le> i" and "i < n" and "0 < gap" and "gap \<le> avail" and "k = i div gap"
    and "s = (if k * gap > n - avail then max 0 (n - avail) else k * gap)"
  shows "s \<le> i \<and> i < min n (s + avail)"
proof -
  have "k * gap \<le> i" "i < k * gap + gap" "0 \<le> k * gap"
    using assms(1,3,5) pos_mod_bound [of gap i] zmod_le_nonneg_dividend [of i gap]
    by (simp_all add: minus_mod_eq_div_mult [symmetric])
  then show ?thesis using assms(1,2,4,6) by auto
qed

text \<open>
  C37: Every line of a page can be read: from the top of the page some number of presses of the space bar
  brings it on the screen.
\<close>

theorem every_guide_line_can_be_read:
  assumes "tu_tab m = tabGuide" and "tu_mode m = modeBrowse" and "tu_scroll m = 0"
    and "i < length (guide_lines sc m)"
  shows "\<exists>k m'. (press T h '' '' ^^ k) (m, w) = (m', w) \<and> guide_lines sc m' = guide_lines sc m \<and>
    fst (window sc m') \<le> int i \<and> int i < snd (window sc m')"
proof -
  let ?gap = "page_step m" and ?n = "int (length (guide_lines sc m))" and ?a = "guideHeight m"
  let ?k = "int i div ?gap"
  have gap: "0 < ?gap" "?gap \<le> ?a" using guideHeight_bounds [of m] by simp_all
  then have k: "0 \<le> ?k" by (simp add: pos_imp_zdiv_nonneg_iff)
  let ?m = "m\<lparr>tu_scroll := ?k * ?gap\<rparr>"
  have "(press T h '' '' ^^ nat ?k) (m, w) = (?m, w)"
    using press_space [OF assms(1,2), where k = "nat ?k" and T = T and h = h and w = w] k assms(3) by simp
  moreover have "fst (window sc ?m) \<le> int i \<and> int i < snd (window sc ?m)"
    using window_covers [OF _ _ gap refl refl, of "int i" ?n] assms(4) by (auto simp: window_def Let_def split: if_splits)
  ultimately show ?thesis by (intro exI [of _ "nat ?k"] exI [of _ ?m]) simp
qed

section \<open>Witnesses\<close>

definition wit_screen :: screen where
  "wit_screen = \<lparr>sc_unicode = wit_unicode, sc_Render = (\<lambda>st s. s), sc_Width = (\<lambda>s. int (length s)),
     sc_JoinHorizontal = concat, sc_errText = (\<lambda>e. ''error'')\<rparr>"

theorem command_rows_join_witness:
  "concat (command_rows 60 (runes ''sudo oversee set domain vpn.example.com'')) = ''sudo oversee set domain vpn.example.com''"
  using command_rows_join [of "''sudo oversee set domain vpn.example.com''" 60] by (simp add: ascii_def)

lemma wit_page: "0 < length (guide_lines wit_screen (wit_start fs\<lparr>tu_tab := tabGuide\<rparr>))"
proof -
  let ?m = "wit_start fs\<lparr>tu_tab := tabGuide\<rparr>" and ?l = "''# The picture''"
  have "guide_index ?m = 0"
    by (simp add: guide_index_def wit_start_def New_model_def refresh_def clamp_sel_def Let_def split: option.split)
  moreover have "\<exists>s. gt_body (guideTopics ! 0) = ?l @ newline # s"
    by (simp add: guideTopics_def topic_how_it_works_def page_def)
  ultimately obtain s where "guide_lines wit_screen ?m =
      concat (map (render_line wit_screen (bodyW ?m)) (?l # Split s newline))"
    using Split_append_sep [of newline ?l] by (auto simp: guide_lines_def renderGuideBody_def simp del: append_Cons)
  moreover have "render_line wit_screen w ?l \<noteq> []" for w by (simp add: render_line_def HasPrefix_def)
  ultimately show ?thesis by simp
qed

theorem every_guide_line_can_be_read_witness:
  "\<exists>k m'. (press wit_field wit_host '' '' ^^ k) ((wit_start wit_fs)\<lparr>tu_tab := tabGuide\<rparr>, wit_world wit_fs) =
      (m', wit_world wit_fs) \<and> fst (window wit_screen m') \<le> 0 \<and> 0 < snd (window wit_screen m')"
proof -
  have "tu_mode ((wit_start wit_fs)\<lparr>tu_tab := tabGuide\<rparr>) = modeBrowse" by (simp add: wit_start_simps)
  moreover have "tu_scroll ((wit_start wit_fs)\<lparr>tu_tab := tabGuide\<rparr>) = 0" by (simp add: wit_start_def New_model_def)
  moreover have "tu_tab ((wit_start wit_fs)\<lparr>tu_tab := tabGuide\<rparr>) = tabGuide" by simp
  ultimately obtain k m' where
    "(press wit_field wit_host '' '' ^^ k) ((wit_start wit_fs)\<lparr>tu_tab := tabGuide\<rparr>, wit_world wit_fs) =
      (m', wit_world wit_fs)" "fst (window wit_screen m') \<le> int 0" "int 0 < snd (window wit_screen m')"
    using every_guide_line_can_be_read [OF _ _ _ wit_page] by blast
  then show ?thesis by (intro exI conjI) simp_all
qed

end
