(* ===== verification/Tui_View.thy ===== *)
theory Tui_View
  imports Tui_Guide
begin

text \<open>
  The views of \<open>server/internal/tui/tui.go\<close>: what \<open>View\<close> writes for each tab, with the prompt, the message
  and the help bar.  Styling is the parameter of \<open>Tui_Guide\<close>; a panic is \<open>None\<close>.
\<close>

section \<open>Pieces\<close>

definition diamond :: string where
  "diamond = [CHR 0xE2, CHR 0x97, CHR 0x86]"

definition big_dot :: string where
  "big_dot = [CHR 0xE2, CHR 0x97, CHR 0x8F]"

definition heavy_line :: string where
  "heavy_line = [CHR 0xE2, CHR 0x94, CHR 0x81]"

definition pointer :: string where
  "pointer = [CHR 0xE2, CHR 0x96, CHR 0xB8]"

definition cross_mark :: string where
  "cross_mark = [CHR 0xE2, CHR 0x9C, CHR 0x97]"

definition left_arrow :: string where
  "left_arrow = [CHR 0xE2, CHR 0x86, CHR 0x90]"

definition both_ways :: string where
  "both_ways = [CHR 0xE2, CHR 0x87, CHR 0x84]"

definition arrow_head :: string where
  "arrow_head = [CHR 0xE2, CHR 0x96, CHR 0xB6]"

definition open_quote :: string where
  "open_quote = [CHR 0xE2, CHR 0x80, CHR 0x9C]"

definition close_quote :: string where
  "close_quote = [CHR 0xE2, CHR 0x80, CHR 0x9D]"

definition gap :: "'i tui \<Rightarrow> string" where
  "gap m = (if tu_h m > 0 \<and> tu_h m < 36 then [newline] else [newline, newline])"

text \<open>\<open>%-ns\<close> and \<open>%ns\<close> of \<open>fmt\<close>, which count runes.\<close>

definition pad_right :: "nat \<Rightarrow> string \<Rightarrow> string" where
  "pad_right n s = s @ replicate (n - length (runes s)) (CHR '' '')"

definition pad_left :: "nat \<Rightarrow> string \<Rightarrow> string" where
  "pad_left n s = replicate (n - length (runes s)) (CHR '' '') @ s"

definition row :: "screen \<Rightarrow> string \<Rightarrow> string \<Rightarrow> string" where
  "row sc k v = sc_Render sc labelStyle (pad_right 18 (ToUpper (sc_unicode sc) k)) @ v"

definition val :: "screen \<Rightarrow> string \<Rightarrow> string" where
  "val sc s = sc_Render sc valueStyle s"

definition orDash :: "screen \<Rightarrow> string \<Rightarrow> string" where
  "orDash sc s = (if TrimSpace s = [] then sc_Render sc dimStyle em_dash else sc_Render sc valueStyle s)"

definition orDashPlain :: "screen \<Rightarrow> string \<Rightarrow> string" where
  "orDashPlain sc s = (if TrimSpace s = [] then sc_Render sc dimStyle em_dash else s)"

definition banner :: "screen \<Rightarrow> 'i tui \<Rightarrow> string option" where
  "banner sc m =
     (let left = sc_Render sc bannerStyle (diamond @ '' OVERSEE'') @ ''  '' @ sc_Render sc subStyle ''oversee'' @
            sc_Render sc dimStyle ('' '' @ middle_dot @ '' gate manager'');
          active = sv_Active (tu_svc m);
          chip = (if \<not> sv_Available (tu_svc m) then sc_Render sc dimStyle ''systemd n/a''
            else if active = ''active'' then sc_Render sc goodStyle (big_dot @ '' RUNNING'')
            else if active = ''inactive'' \<or> active = ''failed'' then
              sc_Render sc badStyle ((big_dot @ '' '') @ ToUpper (sc_unicode sc) active)
            else sc_Render sc warnStyle ((big_dot @ '' '') @ ToUpper (sc_unicode sc) active))
      in case Repeat_int '' '' (max 2 (contentW m - sc_Width sc left - sc_Width sc chip)) of
           None \<Rightarrow> None
         | Some pad \<Rightarrow> Some (left @ pad @ chip))"

definition indent :: "string \<Rightarrow> string \<Rightarrow> string" where
  "indent s pad = Join (map (\<lambda>l. pad @ l) (Split s newline)) [newline]"

text \<open>The keys that work in a tab, and what they do.\<close>

definition own_pairs :: "tab \<Rightarrow> (string \<times> string) list" where
  "own_pairs t =
     (case t of
        tabStatus \<Rightarrow> [(''s'', ''start''), (''x'', ''stop''), (''R'', ''restart''), (''e'', ''enable''), (''D'', ''disable'')]
      | tabLocks \<Rightarrow> [((up_arrow @ down_arrow), ''select''), (''a'', ''add''), (''d'', ''revoke'')]
      | tabKeys \<Rightarrow> [((up_arrow @ down_arrow), ''select''), (''n'', ''new''), (''g'', ''generate''), (''d'', ''remove'')]
      | tabSetup \<Rightarrow> [(''p'', ''entry port''), (''m'', ''TLS/plain''), (''u'', ''Xray port''), (''e'', ''domain''), (''c'', ''CDN''),
          (''o'', ''only-CDN''), (''t'', ''leak alert''), (''g'', ''example'')]
      | tabLogs \<Rightarrow> []
      | tabGuide \<Rightarrow> [((up_arrow @ down_arrow), ''topic''), (''space'', ''scroll down''), (''b'', ''scroll up'')])"

definition helpPairs :: "'i tui \<Rightarrow> (string \<times> string) list" where
  "helpPairs m =
     own_pairs (tu_tab m) @ [(''tab'', ''next''), (''1-6'', ''jump''), (''r'', ''refresh''), (''q'', ''quit'')]"

definition helpBar :: "screen \<Rightarrow> 'i tui \<Rightarrow> string" where
  "helpBar sc m =
     Join (map (\<lambda>(k, v). sc_Render sc keyBadge k @ '' '' @ sc_Render sc helpStyle v) (helpPairs m)) ''  ''"

definition help_text :: "'i tui \<Rightarrow> string" where
  "help_text m = Join (map (\<lambda>(k, v). k @ '' '' @ v) (helpPairs m)) ('' '' @ middle_dot @ '' '')"

section \<open>The tabs\<close>

definition problem_lines :: "screen \<Rightarrow> finding \<Rightarrow> string list" where
  "problem_lines sc f =
     (let (mark, st) = (if fi_Level f = LevelFail then (cross_mark, badStyle) else (warning_sign, warnStyle))
      in sc_Render sc st (mark @ '' '' @ fi_Title f) #
         (if fi_Fix f \<noteq> [] then [sc_Render sc dimStyle ((''    '' @ arrow @ '' '') @ fi_Fix f)] else []))"

definition viewStatus :: "screen \<Rightarrow> 'i tui \<Rightarrow> string" where
  "viewStatus sc m =
     (let svc = tu_svc m;
          state = (if \<not> sv_Available svc then sc_Render sc dimStyle ''systemd not available''
            else if sv_Active svc = ''active'' then sc_Render sc goodStyle (big_dot @ '' running'')
            else if sv_Active svc = ''inactive'' \<or> sv_Active svc = ''failed'' then
              sc_Render sc badStyle ((big_dot @ '' '') @ sv_Active svc)
            else sc_Render sc warnStyle (sv_Active svc));
          rows = [row sc ''Gate service'' (state @ sc_Render sc dimStyle (''   starts at boot: '' @ sv_Enabled svc)),
            row sc ''Domain'' (orDash sc (cf_Domain (tu_settings m))),
            row sc ''Upstream (Xray)'' (val sc (cf_Upstream (tu_settings m))),
            row sc ''Locks allowed'' (val sc (FormatInt (int (length (tu_locks m))))),
            row sc ''App keys'' (val sc (FormatInt (int (length (tu_keys m))))),
            row sc ''Config dir'' (sc_Render sc dimStyle (p_Dir (tu_p m)))]
      in sec sc ''Overview'' @ [newline] @ box sc m (Join rows (gap m)) @
         (if tu_problems m \<noteq> [] then
            [newline, newline] @ sec sc ''Needs attention'' @ [newline] @
            Join (concat (map (problem_lines sc) (tu_problems m))) [newline]
          else
            [newline, newline] @ sc_Render sc goodStyle (check_mark @ '' setup looks right'') @
            sc_Render sc dimStyle ''   (oversee doctor has the details)'') @
         [newline] @ sc_Render sc dimStyle ''New here? Open the '' @ sc_Render sc selStyle ''6 Guide'' @
         sc_Render sc dimStyle '' tab: CDN, TLS, no-TLS and certificates, step by step.'')"

definition leaked :: "'i tui \<Rightarrow> lock \<Rightarrow> bool" where
  "leaked m l \<longleftrightarrow>
     (case lookup (tu_stats m) (lk_CodeID l) of
        None \<Rightarrow> False
      | Some s \<Rightarrow> cf_LeakIPs (tu_settings m) > 0 \<and> int (DistinctIPs s) > cf_LeakIPs (tu_settings m))"

definition lock_row :: "screen \<Rightarrow> 'i tui \<Rightarrow> nat \<Rightarrow> string" where
  "lock_row sc m i =
     (let l = tu_locks m ! i;
          (cur, st) = (if int i = tu_sel m then ((pointer @ '' ''), selStyle) else (''  '', valueStyle));
          (conns, ips) = (case lookup (tu_stats m) (lk_CodeID l) of
              None \<Rightarrow> (''-'', ''-'') | Some s \<Rightarrow> (FormatInt (Accepted s), FormatInt (int (DistinctIPs s))));
          line = sc_Render sc st (pad_right 18 (lk_CodeID l) @ '' '' @ pad_right 21 (lk_CreatorFp l) @ '' '' @
            pad_left 7 conns @ '' '' @ pad_left 6 ips @ ''  '' @ lk_Note l)
      in cur @ line @ (if leaked m l then '' '' @ sc_Render sc badStyle (warning_sign @ '' shared?'') else []))"

definition fmtRejects :: "(string, int) gmap \<Rightarrow> string" where
  "fmtRejects r = Join (map (\<lambda>k. k @ '' '' @ FormatInt (the (lookup r k))) (sort (remdups (map fst r)))) '', ''"

definition viewLocks :: "screen \<Rightarrow> 'i tui \<Rightarrow> string" where
  "viewLocks sc m =
     (if tu_locks m = [] then
        sec sc ''Locks'' @ [newline] @
        sc_Render sc dimStyle (''No locks yet. In the app: Share '' @ arrow @ '' Lock '' @ arrow @ '' Server gate, then press '') @
        sc_Render sc selStyle ''a'' @ sc_Render sc dimStyle '' and paste the line it shows.''
      else
        (let header = sc_Render sc labelStyle (''  '' @ pad_right 18 ''LOCK ID'' @ '' '' @ pad_right 21 ''CREATOR'' @ '' '' @
               pad_left 7 ''CONNS'' @ '' '' @ pad_left 6 ''IPs'' @ ''  '' @ ''NOTE'');
             leaks = length (filter (leaked m) (tu_locks m))
         in sec sc ''Locks'' @ [newline] @
            box sc m (Join (header # map (lock_row sc m) [0 ..< length (tu_locks m)]) [newline]) @
            (if tu_statsAge m < 0 then
               [newline] @ sc_Render sc dimStyle ''no live stats yet (the gate writes them every few seconds while running)''
             else
               [newline] @ sc_Render sc dimStyle ((''today (UTC) '' @ middle_dot @ '' stats '') @ FormatInt (tu_statsAge m div second) @ ''s old'')) @
            (if tu_rejects m \<noteq> [] then sc_Render sc dimStyle (('' '' @ middle_dot @ '' refused: '') @ fmtRejects (tu_rejects m)) else []) @
            (if leaks > 0 then
               [newline] @ sc_Render sc badStyle (FormatInt (int leaks) @ '' lock(s) used from more than '' @
                 FormatInt (cf_LeakIPs (tu_settings m)) @
                 ('' IPs today '' @ em_dash @ '' if that's not your audience, revoke (d) and issue a new file.''))
             else [])))"

definition key_row :: "screen \<Rightarrow> 'i tui \<Rightarrow> nat \<Rightarrow> string" where
  "key_row sc m i =
     (let (cur, st) = (if int i = tu_sel m then ((pointer @ '' ''), selStyle) else (''  '', valueStyle));
          tag = (if i = 0 then sc_Render sc goodStyle ''   current'' else sc_Render sc dimStyle ''   previous'')
      in cur @ sc_Render sc st (MaskKey (tu_keys m ! i)) @ tag)"

definition viewKeys :: "screen \<Rightarrow> 'i tui \<Rightarrow> string" where
  "viewKeys sc m =
     (let intro = sc_Render sc dimStyle (''The gate accepts tokens made by these Oversea app keys. Newest first; '' @
            ''keep the previous one until old builds age out.'') @ [newline, newline]
      in if tu_keys m = [] then
           sec sc ''App keys'' @ [newline] @ intro @
           sc_Render sc warnStyle (''No key yet '' @ em_dash @ '' every connection is refused. Press '') @ sc_Render sc selStyle ''n'' @
           sc_Render sc warnStyle '' to add the GATE_KEY your app was built with, or '' @ sc_Render sc selStyle ''g'' @
           sc_Render sc warnStyle '' to generate one.''
         else
           sec sc ''App keys'' @ [newline] @ intro @
           box sc m (Join (map (key_row sc m) [0 ..< length (tu_keys m)]) (gap m)))"

definition cdnText :: "settings \<Rightarrow> proxy_list_info \<Rightarrow> string" where
  "cdnText s i =
     (if cf_CDN s = [] then ''none (clients connect directly)''
      else
        cf_CDN s @ ('' '' @ middle_dot @ '' '') @
        (if pl_Age i \<ge> 0 then FormatInt (int (pl_Count i)) @ '' ranges, '' @ minutes_string (pl_Age i) @ '' old''
         else ''no IP ranges yet'') @
        ('' '' @ middle_dot @ '' only-CDN '') @ onOff (cf_OnlyProxy s) @ ''  (o toggles)'')"

definition leakText :: "int \<Rightarrow> string" where
  "leakText n = (if n \<le> 0 then ''off'' else ''warn above '' @ FormatInt n @ '' IPs/day per lock'')"

text \<open>The port, the TLS mode and the note of the client link.\<close>

definition link_target :: "settings \<Rightarrow> int \<times> bool \<times> string" where
  "link_target s =
     (let (ep, etls) = EntryPort s
      in if cf_CDN s \<noteq> [] \<and> \<not> etls then
           (443, True,
            ''the CDN terminates TLS: clients use 443 with TLS, the CDN forwards plain HTTP to port '' @ FormatInt ep)
         else if \<not> etls then
           (ep, etls, (''no TLS: the traffic is readable on the way (the app shows '' @ open_quote @ ''Not encrypted'' @ close_quote @ '')''))
         else (ep, etls, []))"

definition viewSetup :: "screen \<Rightarrow> proxy_list_info \<Rightarrow> 'i tui \<Rightarrow> string" where
  "viewSetup sc info m =
     (let s = tu_settings m; (ep, etls) = EntryPort s; up = UpstreamPort s;
          edit = (\<lambda>k. ''   '' @ sc_Render sc keyBadge k);
          md = (if etls then ''TLS'' else ''plain HTTP'');
          who = (if cf_CDN s \<noteq> [] then ''the '' @ cf_CDN s @ '' CDN'' else ''clients'');
          flow = ToUpper (sc_unicode sc) who @ (''  '' @ light_line @ light_line @ arrow_head @ ''  GATE :'') @ FormatInt ep @ '' ('' @ md @
            ('')  '' @ light_line @ light_line @ arrow_head @ ''  XRAY 127.0.0.1:'') @ FormatInt up;
          (linkPort, linkTLS, linkNote) = link_target s
      in sec sc ''Ports'' @ [newline] @
         box sc m (Join
           [sc_Render sc headerStyle flow,
            row sc ''Entry port'' (val sc (FormatInt ep @ ''  ('' @ md @ '')'') @ edit ''p'' @ '' '' @
              sc_Render sc keyBadge ''m'' @ sc_Render sc dimStyle ('' TLS '' @ both_ways @ '' plain'')),
            sc_Render sc dimStyle (''    the port the gate listens on: what '' @ who @ '' connects to''),
            row sc ''Xray port'' (val sc (FormatInt up) @ edit ''u''),
            sc_Render sc dimStyle ''    the port of the inbound you create in Xray / 3x-ui (loopback only)''] (gap m)) @
         [newline, newline] @ sec sc ''Gate settings'' @ [newline] @
         box sc m (Join
           [row sc ''Domain'' (orDash sc (cf_Domain s) @ edit ''e''),
            row sc ''CDN fronting'' (val sc (cdnText s info) @ edit ''c''),
            row sc ''Leak alert'' (val sc (leakText (cf_LeakIPs s)) @ edit ''t'')] (gap m)) @
         [newline, newline] @ sec sc ''In Xray / 3x-ui: create this inbound'' @
         sc_Render sc dimStyle (''   '' @ sc_Render sc keyBadge ''g'' @ '' new example'') @ [newline] @
         box sc m (Join
           [row sc ''Protocol'' (val sc ''vless''),
            row sc ''Listen IP'' (val sc ''127.0.0.1'' @ sc_Render sc dimStyle ''   never empty or 0.0.0.0''),
            row sc ''Port'' (val sc (FormatInt up) @ sc_Render sc dimStyle (''   '' @ left_arrow @ '' the Xray port above'')),
            row sc ''Transmission'' (val sc ''WebSocket''),
            row sc ''Path'' (val sc (tu_exPath m)),
            row sc ''Security'' (val sc ''None'' @ sc_Render sc dimStyle ''   the gate does TLS''),
            row sc ''Client id'' (val sc (tu_exUUID m))] [newline]) @
         [newline, newline] @ sec sc ''Client link for the app'' @
         sc_Render sc dimStyle (''   paste it, then lock with '' @ open_quote @ ''Server gate'' @ close_quote) @ [newline] @
         box sc m (ClientLink (cf_Domain s) linkPort linkTLS (tu_exPath m) (tu_exUUID m) ''my-server'') @
         (if linkNote \<noteq> [] then [newline] @ sc_Render sc dimStyle linkNote else []) @
         [newline] @ sc_Render sc dimStyle ''CDN, certificate file or no TLS? Read '' @ sc_Render sc selStyle ''6 Guide'' @
         sc_Render sc dimStyle ''.'')"

section \<open>The screen\<close>

definition msg_text :: "screen \<Rightarrow> message \<Rightarrow> string" where
  "msg_text sc x = (case x of NoMsg \<Rightarrow> [] | Said s \<Rightarrow> s | _ \<Rightarrow> sc_errText sc x)"

definition tab_label :: "screen \<Rightarrow> 'i tui \<Rightarrow> nat \<Rightarrow> string" where
  "tab_label sc m i =
     sc_Render sc (if tabs ! i = tu_tab m then tabOn else tabOff) (FormatInt (int i + 1) @ '' '' @ tabNames ! i)"

definition tab_body :: "screen \<Rightarrow> proxy_list_info \<Rightarrow> 'i tui \<Rightarrow> string option" where
  "tab_body sc info m =
     (case tu_tab m of
        tabStatus \<Rightarrow> Some (viewStatus sc m)
      | tabLocks \<Rightarrow> Some (viewLocks sc m)
      | tabKeys \<Rightarrow> Some (viewKeys sc m)
      | tabSetup \<Rightarrow> Some (viewSetup sc info m)
      | tabLogs \<Rightarrow> Some (sec sc ''Gate logs'' @ [newline] @ box sc m (orDashPlain sc (tu_logs m)))
      | tabGuide \<Rightarrow> viewGuide sc m)"

text \<open>The text field or the question; an index out of range is \<open>None\<close>.\<close>

definition prompt :: "'i text_field \<Rightarrow> screen \<Rightarrow> 'i tui \<Rightarrow> string option" where
  "prompt T sc m =
     (case tu_mode m of
        modeBrowse \<Rightarrow> Some []
      | modeConfirmRevoke \<Rightarrow>
          if tu_sel m < int (length (tu_locks m)) then
            (if tu_sel m < 0 then None
             else
               (let l = tu_locks m ! nat (tu_sel m)
                in Some ([newline] @ '' '' @ sc_Render sc warnStyle (''Revoke '' @ lk_CodeID l @ '' ('' @ orDash sc (lk_Note l) @
                     '')? All copies of this lock stop working. [y/N]'') @ [newline])))
          else Some []
      | modeConfirmKeyDelete \<Rightarrow>
          Some ([newline] @ '' '' @
            sc_Render sc warnStyle ''Remove this app key? Apps built with it will be refused. [y/N]'' @ [newline])
      | _ \<Rightarrow>
          Some ([newline] @ '' '' @ ti_View T (tu_input m) @ [newline] @ '' '' @
            sc_Render sc helpStyle (''enter save '' @ middle_dot @ '' esc cancel'') @ [newline]))"

definition View :: "'i text_field \<Rightarrow> screen \<Rightarrow> proxy_list_info \<Rightarrow> 'i tui \<Rightarrow> string option" where
  "View T sc info m =
     (case (banner sc m, Repeat_int heavy_line (contentW m), tab_body sc info m, prompt T sc m) of
        (Some ban, Some rule, Some bod, Some pr) \<Rightarrow>
          Some ([newline] @ '' '' @ ban @ [newline, newline] @
            '' '' @ sc_JoinHorizontal sc (map (tab_label sc m) [0 ..< length tabNames]) @ [newline] @
            '' '' @ sc_Render sc dimStyle rule @ [newline, newline] @
            indent bod '' '' @ [newline] @ pr @
            (if msg_text sc (tu_msg m) \<noteq> [] then
               [newline] @ '' '' @ sc_Render sc (if tu_msgIsErr m then badStyle else goodStyle) (msg_text sc (tu_msg m)) @
               [newline]
             else []) @
            [newline] @ '' '' @ helpBar sc m @ [newline])
      | _ \<Rightarrow> None)"

section \<open>What is on the screen\<close>

text \<open>
  C27: The screen can always be drawn: in every state the interface can reach, on a terminal of any size, no
  index or slice is out of range and no repeat count is negative, so \<open>View\<close> does not panic.
\<close>

theorem view_never_panics:
  assumes "reach T p m w"
  shows "View T sc info m \<noteq> None"
proof -
  have ok: "tui_ok p m" by (rule reach_ok [OF assms])
  then have sel: "0 \<le> tu_sel m" "0 \<le> tu_scroll m" by (simp_all add: tui_ok_def sel_ok_def)
  have "banner sc m \<noteq> None" by (simp add: banner_def Repeat_int_def Let_def)
  moreover have "Repeat_int heavy_line (contentW m) \<noteq> None" using contentW_bounds(1) [of m] by (simp add: Repeat_int_def)
  moreover have "tab_body sc info m \<noteq> None"
    using viewGuide_some [OF sel(2), of sc] by (simp add: tab_body_def split: tab.splits)
  moreover have "prompt T sc m \<noteq> None" using sel(1) by (simp add: prompt_def Let_def split: mode.splits)
  ultimately show ?thesis by (auto simp: View_def)
qed

text \<open>
  The question names the lock that \<open>y\<close> revokes: in every reachable state in which the interface asks, the
  text on the screen has the id of the selected lock.
\<close>

theorem question_names_the_lock:
  assumes "reach T p m w" and "tu_mode m = modeConfirmRevoke"
  shows "\<exists>v1 v2. prompt T sc m = Some ([newline] @ '' '' @ sc_Render sc warnStyle
    (''Revoke '' @ lk_CodeID (shown_lock m) @ v1) @ v2)"
proof -
  have "tui_ok p m" by (rule reach_ok [OF assms(1)])
  from tui_ok_parts [OF this] have sel: "0 \<le> tu_sel m" "tu_sel m < int (length (tu_locks m))"
    using assms(2) by simp_all
  let ?l = "shown_lock m"
  show ?thesis
    by (intro exI [of _ "'' ('' @ orDash sc (lk_Note ?l) @ '')? All copies of this lock stop working. [y/N]''"]
        exI [of _ "[newline]"]) (use sel assms(2) in \<open>simp add: prompt_def shown_lock_def Let_def\<close>)
qed

section \<open>Witnesses of the views\<close>

theorem view_never_panics_witness:
  "View wit_field wit_screen \<lparr>pl_Count = 0, pl_Age = -1\<rparr> (fst (wit_press ''6'' (wit_start wit_fs, wit_world wit_fs))) \<noteq> None"
  by (rule view_never_panics, rule wit_press_reach, rule wit_start_reach)

theorem question_names_the_lock_witness:
  "\<exists>m v1 v2. tu_locks m = [lock_of wit_entry] \<and>
    prompt wit_field wit_screen m = Some ([newline] @ '' '' @ (''Revoke '' @ CodeID wit_code @ v1) @ v2)"
proof -
  obtain m where m: "wit_press ''d'' (wit_press ''2'' (wit_start wit_listed, wit_world wit_listed)) = (m, wit_world wit_listed)"
    "tu_mode m = modeConfirmRevoke" "tu_locks m = [lock_of wit_entry]" "tu_sel m = 0" using wit_asks by blast
  have r: "reach wit_field wit_paths m (wit_world wit_listed)"
    using wit_press_reach [OF wit_press_reach [OF wit_start_reach], of "''d''" "''2''" wit_listed] m(1) by simp
  have "lk_CodeID (shown_lock m) = CodeID wit_code"
    by (simp add: shown_lock_def m(3,4) lock_of_def wit_entry_def)
  moreover have "sc_Render wit_screen st x = x" for st x by (simp add: wit_screen_def)
  moreover obtain v1 v2 where "prompt wit_field wit_screen m = Some ([newline] @ '' '' @ sc_Render wit_screen warnStyle
      (''Revoke '' @ lk_CodeID (shown_lock m) @ v1) @ v2)"
    using question_names_the_lock [OF r m(2)] by blast
  ultimately show ?thesis using m(3) by (intro exI conjI) (assumption, simp only:)
qed

end
