(* ===== verification/Oversee_Session.thy ===== *)
theory Oversee_Session
  imports Oversee_Main Tui_View
begin

text \<open>
  Sessions: any number of commands of \<open>oversee\<close>, or of keys of the terminal interface, one after the other.
  The two programs share a contract, the locale \<open>file_program\<close>: a step changes at most the file it is for.
  The last section follows the pages of the guide, command by command.
\<close>

section \<open>The contract of a program that works on the files\<close>

text \<open>
  \<open>may_run c s\<close> is what a step relies on when it starts (a temporary name that no file has), and
  \<open>target c s\<close> is the file it is for.
\<close>

fun each_may_run :: "('c \<Rightarrow> 's \<Rightarrow> bool) \<Rightarrow> ('c \<Rightarrow> 's \<Rightarrow> 's) \<Rightarrow> 'c list \<Rightarrow> 's \<Rightarrow> bool" where
  "each_may_run ok run [] s = True"
| "each_may_run ok run (c # cs) s = (ok c s \<and> each_may_run ok run cs (run c s))"

locale file_program =
  fixes run :: "'c \<Rightarrow> 's \<Rightarrow> 's" and reads :: "'s \<Rightarrow> 'q \<Rightarrow> 'v"
    and may_run :: "'c \<Rightarrow> 's \<Rightarrow> bool" and target :: "'c \<Rightarrow> 's \<Rightarrow> 'q option"
  assumes run_frame: "may_run c s \<Longrightarrow> reads (run c s) q \<noteq> reads s q \<Longrightarrow> target c s = Some q"
begin

lemma session_frame:
  assumes "each_may_run may_run run cs s" and "reads (fold run cs s) q \<noteq> reads s q"
  shows "\<exists>before c after. cs = before @ c # after \<and> target c (fold run before s) = Some q \<and>
    reads (run c (fold run before s)) q \<noteq> reads (fold run before s) q"
  using assms
proof (induction cs arbitrary: s)
  case (Cons c cs)
  show ?case
  proof (cases "reads (run c s) q = reads s q")
    case True
    with Cons.prems have "reads (fold run cs (run c s)) q \<noteq> reads (run c s) q" by simp
    from Cons.IH [OF _ this] Cons.prems(1) obtain before d after where
      "cs = before @ d # after" "target d (fold run before (run c s)) = Some q"
      "reads (run d (fold run before (run c s))) q \<noteq> reads (fold run before (run c s)) q"
      by auto
    then show ?thesis by (intro exI [of _ "c # before"] exI [of _ d] exI [of _ after]) simp
  next
    case False
    with Cons.prems(1) run_frame [of c s q] show ?thesis
      by (intro exI [of _ "[]"] exI [of _ c] exI [of _ cs]) simp
  qed
qed simp

lemma session_quiet:
  assumes "each_may_run may_run run cs s" and "\<And>c before after. cs = before @ c # after \<Longrightarrow> target c (fold run before s) = None"
  shows "reads (fold run cs s) = reads s"
proof
  fix q show "reads (fold run cs s) q = reads s q"
    using session_frame [OF assms(1), of q] assms(2) by fastforce
qed

end

text \<open>A program whose steps report a failure, and then have changed nothing.\<close>

locale checked_program = file_program +
  fixes fails :: "'c \<Rightarrow> 's \<Rightarrow> bool"
  assumes failed_same: "may_run c s \<Longrightarrow> fails c s \<Longrightarrow> reads (run c s) = reads s"
begin

lemma session_blame:
  assumes "each_may_run may_run run cs s" and "reads (fold run cs s) q \<noteq> reads s q"
  shows "\<exists>before c after. cs = before @ c # after \<and> target c (fold run before s) = Some q \<and>
    \<not> fails c (fold run before s)"
proof -
  have run: "may_run c (fold run before s)" if "each_may_run may_run run (before @ c # after) s" for before c after s
    using that by (induction before arbitrary: s) auto
  from session_frame [OF assms] obtain before c after where
    c: "cs = before @ c # after" "target c (fold run before s) = Some q"
    "reads (run c (fold run before s)) q \<noteq> reads (fold run before s) q" by blast
  then show ?thesis using failed_same run assms(1) by metis
qed

end

section \<open>A session of commands\<close>

text \<open>Each command runs on a host of its own: other times, answers of the network and faults.\<close>

type_synonym 's command = "'s main_host \<times> string list"

definition run_command :: "paths \<Rightarrow> 's command \<Rightarrow> fsys \<Rightarrow> fsys" where
  "run_command p c fs = snd (main (fst c) p (snd c) fs)"

definition command_may_run :: "paths \<Rightarrow> 's command \<Rightarrow> fsys \<Rightarrow> bool" where
  "command_may_run p c fs \<longleftrightarrow> snd c \<noteq> [] \<and> snd c ! 0 \<noteq> ''gate'' \<and> no_tmp (mh_env (fst c)) p fs \<and>
     file_text fs (p_Probe p) = None"

definition command_fails :: "paths \<Rightarrow> 's command \<Rightarrow> fsys \<Rightarrow> bool" where
  "command_fails p c fs \<longleftrightarrow> exit_code (fst (main (fst c) p (snd c) fs)) \<noteq> 0"

lemma command_step:
  assumes "command_may_run p c fs"
  shows "file_text (run_command p c fs) q \<noteq> file_text fs q \<Longrightarrow> writes p (snd c) = Some q"
    and "command_fails p c fs \<Longrightarrow> file_text (run_command p c fs) = file_text fs"
  using assms failed_command_changes_nothing [of "fst c" p "snd c" fs]
  by (auto simp: command_may_run_def run_command_def command_fails_def prod_eq_iff)

interpretation cli: checked_program "run_command p" file_text "command_may_run p" "\<lambda>c fs. writes p (snd c)" "command_fails p"
  for p
  by unfold_locales (auto dest: command_step)


section \<open>A session of the terminal interface\<close>

definition run_event :: "'i text_field \<Rightarrow> 's host \<times> event \<Rightarrow> 'i tui \<times> 's world \<Rightarrow> 'i tui \<times> 's world" where
  "run_event T c mw = fst (Update T (fst c) (snd c) mw)"

definition event_may_run :: "'s host \<times> event \<Rightarrow> 'i tui \<times> 's world \<Rightarrow> bool" where
  "event_may_run c mw \<longleftrightarrow> tmp_free (ho_env (fst c)) (tu_p (fst mw)) (wo_files (snd mw))"

definition event_target :: "'s host \<times> event \<Rightarrow> 'i tui \<times> 's world \<Rightarrow> string option" where
  "event_target c mw = (case snd c of Key k \<Rightarrow> may_change (fst mw) k | _ \<Rightarrow> None)"

definition service_key :: "'s host \<times> event \<Rightarrow> 'i tui \<times> 's world \<Rightarrow> unit option" where
  "service_key c mw = (case snd c of
     Key k \<Rightarrow> if tu_mode (fst mw) = modeBrowse \<and> tu_tab (fst mw) = tabStatus \<and> status_action k \<noteq> None then Some () else None
   | _ \<Rightarrow> None)"

lemma event_step:
  assumes "event_may_run c mw"
  shows "(\<forall>q. file_text (wo_files (snd (run_event T c mw))) q \<noteq> file_text (wo_files (snd mw)) q \<longrightarrow> event_target c mw = Some q) \<and>
    (wo_system (snd (run_event T c mw)) \<noteq> wo_system (snd mw) \<longrightarrow> service_key c mw = Some ())"
proof (cases "snd c")
  case (Key k)
  obtain h m w where mw: "c = (h, Key k)" "mw = (m, w)" using Key by (metis surj_pair snd_conv)
  obtain m' w' where run: "fst (Update T h (Key k) (m, w)) = (m', w')" by fastforce
  from tui_writes_only_when_asked [OF this] assms show ?thesis
    by (simp add: mw run event_may_run_def run_event_def event_target_def service_key_def)
qed (simp_all add: run_event_def Update_def)

interpretation keyboard: file_program "run_event T" "\<lambda>mw. file_text (wo_files (snd mw))" event_may_run event_target
  for T
  by unfold_locales (use event_step in blast)

interpretation service: file_program "run_event T" "\<lambda>mw (u::unit). wo_system (snd mw)" event_may_run service_key
  for T
proof unfold_locales
  fix c :: "'b host \<times> event" and s :: "'a tui \<times> 'b world" and q :: unit
  assume "event_may_run c s" and "wo_system (snd (run_event T c s)) \<noteq> wo_system (snd s)"
  then show "service_key c s = Some q" using event_step by (cases q) blast
qed

text \<open>The keys that can ask for a change.\<close>

definition asking_keys :: "string list" where
  "asking_keys = [''enter'', ''y'', ''Y'', ''m'', ''c'', ''o'']"

lemma asking_key: "may_change m k = Some q \<Longrightarrow> k \<in> set asking_keys"
  by (cases "tu_mode m") (auto simp: may_change_def asking_keys_def Let_def split: if_splits)

text \<open>
  C23: In a session of any number of keys, a file that has changed was asked to: some key of the session is
  Enter in a text field, \<open>y\<close> in answer to a question or one of the three switches of the Setup tab, and the
  file is the one that belongs to it; and the service was only touched if some key was one of the five of
  the Status tab, pressed there.
\<close>

theorem tui_session_writes_only_when_asked:
  assumes "each_may_run event_may_run (run_event T) cs (m, w)" and "fold (run_event T) cs (m, w) = (m', w')"
  shows "(\<forall>q. file_text (wo_files w') q \<noteq> file_text (wo_files w) q \<longrightarrow>
      (\<exists>before h k after. cs = before @ (h, Key k) # after \<and> k \<in> set asking_keys \<and>
        may_change (fst (fold (run_event T) before (m, w))) k = Some q)) \<and>
    (wo_system w' \<noteq> wo_system w \<longrightarrow>
      (\<exists>before h k after. cs = before @ (h, Key k) # after \<and> status_action k \<noteq> None \<and>
        tu_tab (fst (fold (run_event T) before (m, w))) = tabStatus))"
proof (intro conjI allI impI)
  fix q assume "file_text (wo_files w') q \<noteq> file_text (wo_files w) q"
  with keyboard.session_frame [OF assms(1)] assms(2) obtain before c after where
    c: "cs = before @ c # after" and t: "event_target c (fold (run_event T) before (m, w)) = Some q" by fastforce
  from t obtain h k where "c = (h, Key k)" "may_change (fst (fold (run_event T) before (m, w))) k = Some q"
    by (cases c) (auto simp: event_target_def split: event.splits)
  with c asking_key show "\<exists>before h k after. cs = before @ (h, Key k) # after \<and> k \<in> set asking_keys \<and>
        may_change (fst (fold (run_event T) before (m, w))) k = Some q" by metis
next
  assume "wo_system w' \<noteq> wo_system w"
  with service.session_frame [OF assms(1)] assms(2) obtain before c after where
    c: "cs = before @ c # after" and t: "service_key c (fold (run_event T) before (m, w)) = Some ()" by fastforce
  from t obtain h k where "c = (h, Key k)" "status_action k \<noteq> None" "tu_tab (fst (fold (run_event T) before (m, w))) = tabStatus"
    by (cases c) (auto simp: service_key_def split: event.splits if_splits)
  with c show "\<exists>before h k after. cs = before @ (h, Key k) # after \<and> status_action k \<noteq> None \<and>
        tu_tab (fst (fold (run_event T) before (m, w))) = tabStatus" by blast
qed

section \<open>Setting after setting\<close>

lemma value_ok_plain: "\<forall>c \<in> set v. plain_char c \<Longrightarrow> value_ok v"
  using spaceless_plain trimmed_spaceless by (auto simp: value_ok_def plain_char_def)

lemma settings_from_text:
  "\<not> e_denied e (p_Conf p) \<Longrightarrow> file_text fs' (p_Conf p) = file_text fs (p_Conf p) \<Longrightarrow>
     LoadSettings U e p fs' = LoadSettings U e p fs"
  by (cases "file_text fs (p_Conf p)") (auto simp: LoadSettings_def ReadFile_def file_text_def split: option.splits)

text \<open>A host on which gate.conf can be written.\<close>

definition can_save :: "'s main_host \<Rightarrow> paths \<Rightarrow> bool" where
  "can_save h p \<longleftrightarrow> e_fault (mh_env h) = NoFault \<and> \<not> e_mkdir_fails (mh_env h) \<and>
     \<not> e_denied (mh_env h) (p_Conf p) \<and> p_Conf p \<noteq> e_tmp (mh_env h)"

abbreviation conf_of :: "'s main_host \<Rightarrow> paths \<Rightarrow> fsys \<Rightarrow> settings" where
  "conf_of h p fs \<equiv> LoadSettings (gl_unicode (mh_libs h)) (mh_env h) p fs"

lemma run_set:
  assumes "can_save h p" and "file_text fs (e_tmp (mh_env h)) = None" and "settings_ok (conf_of h p fs)" and "value_ok v"
    and "set_value name v (conf_of h p fs) = Inr s"
  shows "conf_of h p (run_command p (h, [''set'', name, v]) fs) = s \<and> \<not> command_fails p (h, [''set'', name, v]) fs \<and>
    settings_ok s \<and> file_text (run_command p (h, [''set'', name, v]) fs) (e_tmp (mh_env h)) = None"
proof -
  note can = assms(1) [unfolded can_save_def]
  have set: "SetSetting (gl_unicode (mh_libs h)) (mh_env h) p name v fs = SaveSettings (mh_env h) p s fs"
    using assms(4,5) by (simp add: SetSetting_def value_ok_def TrimSpace_id)
  obtain fs' where save: "SaveSettings (mh_env h) p s fs = (None, fs')"
    using Save_ok [of "mh_env h" p s fs] can by (metis prod.collapse)
  obtain t where run: "main h p [''set'', name, v] fs = (Done t, fs')"
    by (simp add: main_def need_def cmd_set_def set save)
  have ok: "settings_ok s" using set_value_ok [OF assms(5,3,4)] .
  from SaveSettings_Load [OF save ok _ assms(2)] can have "conf_of h p fs' = s"
    "file_text fs' = (file_text fs)(p_Conf p \<mapsto> settings_text s)" by simp_all
  then show ?thesis using ok can assms(2) run by (auto simp: run_command_def command_fails_def)
qed

text \<open>The settings that a list of \<open>oversee set\<close> commands makes of given ones.\<close>

fun set_all :: "(string \<times> string) list \<Rightarrow> settings \<Rightarrow> tool_error + settings" where
  "set_all [] s = Inr s"
| "set_all ((name, v) # xs) s = (case set_value name v s of Inl err \<Rightarrow> Inl err | Inr s' \<Rightarrow> set_all xs s')"

definition set_commands :: "'s main_host \<Rightarrow> (string \<times> string) list \<Rightarrow> 's command list" where
  "set_commands h xs = map (\<lambda>(name, v). (h, [''set'', name, v])) xs"

lemma run_set_all:
  assumes "can_save h p" and "file_text fs (e_tmp (mh_env h)) = None" and "settings_ok (conf_of h p fs)"
    and "\<forall>x \<in> set xs. value_ok (snd x)" and "set_all xs (conf_of h p fs) = Inr s"
  shows "conf_of h p (fold (run_command p) (set_commands h xs) fs) = s"
  using assms(2-5)
proof (induction xs arbitrary: fs)
  case (Cons x xs)
  obtain name v where x: "x = (name, v)" by fastforce
  with Cons.prems(4) obtain s1 where s1: "set_value name v (conf_of h p fs) = Inr s1" "set_all xs s1 = Inr s"
    by (auto split: sum.splits)
  from run_set [OF assms(1) Cons.prems(1,2) _ s1(1)] Cons.prems(3) x Cons.IH s1(2) show ?case
    by (simp add: set_commands_def)
qed (simp add: set_commands_def)

section \<open>Witnesses\<close>

lemma wit_main_simps: "mh_env wit_main = wit_env" "gl_unicode (mh_libs wit_main) = wit_unicode"
  by (simp_all add: wit_main_def wit_gate_libs_def)

lemma wit_main_saves: "can_save wit_main wit_paths"
  using wit_conf_free by (simp add: can_save_def wit_main_simps wit_env_simps)

lemma wit_no_tmp: "no_tmp wit_env wit_paths wit_fs"
  by (simp add: no_tmp_def wit_paths_all wit_conf wit_probe) (simp add: wit_env_def wit_fs_def file_text_def)


text \<open>The CDN is switched on the Setup tab.\<close>

theorem tui_session_writes_only_when_asked_witness:
  "\<exists>before h k after. [(wit_host, Key ''4''), (wit_host, Key ''c'')] = before @ (h, Key k) # after \<and> k \<in> set asking_keys \<and>
     may_change (fst (fold (run_event wit_field) before (wit_start wit_fs, wit_world wit_fs))) k =
       Some (p_Conf wit_paths)"
proof -
  let ?cs = "[(wit_host, Key ''4''), (wit_host, Key ''c'')]" and ?mw = "(wit_start wit_fs, wit_world wit_fs)"
  obtain m where m: "run_event wit_field (wit_host, Key ''4'') ?mw = (m, wit_world wit_fs)" "tu_p m = wit_paths"
    "tu_tab m = tabSetup" "tu_mode m = modeBrowse" "tu_settings m = DefaultSettings"
    using wit_load by (simp add: run_event_def Update_def updateBrowse_def common_keys_def digit_tab_def open_tab_def tabs_def
        wit_start_simps) (simp add: wit_start_def New_model_def)
  let ?s = "DefaultSettings\<lparr>cf_CDN := ''cloudflare''\<rparr>"
  obtain fs' where save: "SaveSettings wit_env wit_paths ?s wit_fs = (None, fs')"
    using Save_ok wit_env_simps by (metis prod.collapse)
  obtain m' w' where last: "fold (run_event wit_field) ?cs ?mw = (m', w')" by fastforce
  have "NextCDN [] = ''cloudflare''" by code_simp
  then have "snd (setup_cdn wit_host (m, wit_world wit_fs)) = (wit_world wit_fs)\<lparr>wo_files := fs'\<rparr>"
    using m(2,5) save by (simp add: setup_cdn_def save_def DefaultSettings_def)
  moreover have "run_event wit_field (wit_host, Key ''c'') (m, wit_world wit_fs) = setup_cdn wit_host (m, wit_world wit_fs)"
    using m(3,4) by (simp add: run_event_def Update_def updateBrowse_def common_keys_def digit_tab_def setup_keys_def)
  ultimately have "snd (m', w') = (wit_world wit_fs)\<lparr>wo_files := fs'\<rparr>" using last m(1) by simp
  then have "wo_files w' = fs'" by simp
  moreover have "settings_ok ?s"
    using Default_ok(1) value_ok_plain [of "''cloudflare''"] by (simp add: settings_ok_def plain_char_def)
  with SaveSettings_Load [OF save _ wit_conf_free, of wit_unicode]
  have "LoadSettings wit_unicode wit_env wit_paths fs' = ?s" by blast
  then have "file_text fs' (p_Conf wit_paths) \<noteq> file_text wit_fs (p_Conf wit_paths)"
    using settings_from_text [OF wit_conf_free(3), of fs' wit_fs wit_unicode] by (auto simp: wit_load DefaultSettings_def)
  moreover have "each_may_run event_may_run (run_event wit_field) ?cs ?mw"
    using m by (simp add: event_may_run_def wit_start_simps wit_tmp_free wit_conf_free)
  note tui_session_writes_only_when_asked [OF this last, THEN conjunct1, THEN spec, THEN mp]
  ultimately show ?thesis by simp
qed

end
