(* ===== verification/Tui_Recipes.thy ===== *)
theory Tui_Recipes
  imports Oversee_Session
begin

text \<open>
  The recipes of the guide: the \<open>oversee set\<close> commands on a page, run one after the other on a fresh
  directory, and the client link on the page, compared with what the program makes of the settings.
\<close>

text \<open>The setting and the value in a line of a page that is an \<open>oversee set\<close> command.\<close>

definition guide_set :: "string \<Rightarrow> (string \<times> string) option" where
  "guide_set l =
     (if HasPrefix l ''$ sudo oversee set '' then
        (case filter (\<lambda>w. w \<noteq> []) (Split (drop 19 l) (CHR '' '')) of
           name # v # _ \<Rightarrow> Some (name, v) | _ \<Rightarrow> None)
      else None)"

definition page_sets :: "guide_topic \<Rightarrow> (string \<times> string) list" where
  "page_sets t = List.map_filter guide_set (Split (gt_body t) newline)"

lemma page_lines: "ls \<noteq> [] \<Longrightarrow> \<forall>l \<in> set ls. newline \<notin> set l \<Longrightarrow> Split (page ls) newline = ls"
  by (simp add: page_def Split_Join)

lemma recipe_lines:
  "page_sets topic_direct_tls = [(''domain'', ''vpn.example.com'')]"
  "page_sets topic_cdn = [(''domain'', ''vpn.example.com''), (''cdn'', ''cloudflare''),
     (''cert'', ''/etc/oversea/origin.pem''), (''key'', ''/etc/oversea/origin.key''), (''only-proxy'', ''on'')]"
  "page_sets topic_cdn_no_certificate = [(''cdn'', ''cloudflare''), (''plain'', '':80''), (''only-proxy'', ''on'')]"
  "page_sets topic_no_tls = [(''plain'', '':1001'')]"
  unfolding page_sets_def topic_direct_tls_def topic_cdn_def topic_cdn_no_certificate_def topic_no_tls_def
    guide_topic.select_convs
  by (subst page_lines; simp add: List.map_filter_def guide_set_def HasPrefix_def arrow_def em_dash_def both_arrow_def
      check_mark_def ellipsis_def)+

definition domain_link :: string where
  "domain_link = ''vless://UUID@vpn.example.com:443?encryption=none&security=tls&sni=vpn.example.com&type=ws&host=vpn.example.com&path=%2Fws''"

definition plain_link :: string where
  "plain_link = ''vless://UUID@vpn.example.com:1001?encryption=none&security=none&type=ws&host=vpn.example.com&path=%2Fws''"

lemma page_links:
  "''$ '' @ domain_link \<in> set (Split (gt_body topic_direct_tls) newline)"
  "''$ '' @ domain_link \<in> set (Split (gt_body topic_cdn) newline)"
  "''$ '' @ domain_link \<in> set (Split (gt_body topic_cdn_no_certificate) newline)"
  "''$ '' @ plain_link \<in> set (Split (gt_body topic_no_tls) newline)"
  unfolding topic_direct_tls_def topic_cdn_def topic_cdn_no_certificate_def topic_no_tls_def
    guide_topic.select_convs domain_link_def plain_link_def
  by (subst page_lines; simp add: arrow_def em_dash_def both_arrow_def check_mark_def ellipsis_def)+

lemma FormatInt_ports: "FormatInt 443 = ''443''" "FormatInt 1001 = ''1001''"
  by (simp_all add: FormatInt_def dec_digits.simps digit_char_def)

lemma escape_ws: "urlEscape ''/ws'' = ''%2Fws''"
  by (simp add: urlEscape.simps rune_width_def cont_in_def)

lemma link_text:
  "ClientLink ''vpn.example.com'' 443 True ''/ws'' ''UUID'' name = domain_link @ CHR ''#'' # name"
  "ClientLink ''vpn.example.com'' 1001 False ''/ws'' ''UUID'' name = plain_link @ CHR ''#'' # name"
  by (simp_all add: ClientLink_def FormatInt_ports escape_ws domain_link_def plain_link_def Let_def)

text \<open>The settings that the recipes give.\<close>

abbreviation recipe_direct_tls :: settings where
  "recipe_direct_tls \<equiv> DefaultSettings\<lparr>cf_Domain := ''vpn.example.com''\<rparr>"

abbreviation recipe_cdn :: settings where
  "recipe_cdn \<equiv> DefaultSettings\<lparr>cf_Domain := ''vpn.example.com'', cf_CDN := ''cloudflare'',
     cf_Cert := ''/etc/oversea/origin.pem'', cf_Key := ''/etc/oversea/origin.key'', cf_OnlyProxy := True\<rparr>"

abbreviation recipe_cdn_no_certificate :: settings where
  "recipe_cdn_no_certificate \<equiv> DefaultSettings\<lparr>cf_CDN := ''cloudflare'', cf_Plain := '':80'', cf_OnlyProxy := True\<rparr>"

abbreviation recipe_no_tls :: settings where
  "recipe_no_tls \<equiv> DefaultSettings\<lparr>cf_Plain := '':1001''\<rparr>"

lemma recipe_settings:
  "set_all (page_sets topic_direct_tls) DefaultSettings = Inr recipe_direct_tls"
  "set_all (page_sets topic_cdn) DefaultSettings = Inr recipe_cdn"
  "set_all (page_sets topic_cdn_no_certificate) DefaultSettings = Inr recipe_cdn_no_certificate"
  "set_all (page_sets topic_no_tls) DefaultSettings = Inr recipe_no_tls"
  unfolding recipe_lines
  by (simp_all add: set_value_def ValidCDN_def is_on_def DefaultSettings_def Let_def ToLower_def ascii_def lower_char_def)

lemma recipe_entries:
  "EntryPort recipe_direct_tls = (443, True)" "EntryPort recipe_cdn = (443, True)"
  "EntryPort recipe_cdn_no_certificate = (80, False)" "EntryPort recipe_no_tls = (1001, False)"
  by code_simp+

lemma recipe_ports:
  "port_findings recipe_direct_tls = []" "port_findings recipe_cdn = []"
  "port_findings recipe_cdn_no_certificate = []" "port_findings recipe_no_tls = []"
  by code_simp+

text \<open>What the program makes of the settings of a page: a page, the entry of the gate and the link it gives.\<close>

definition recipe_pages :: "(guide_topic \<times> int \<times> bool \<times> string) list" where
  "recipe_pages =
     [(topic_direct_tls, 443, True, domain_link), (topic_cdn, 443, True, domain_link),
      (topic_cdn_no_certificate, 80, False, domain_link), (topic_no_tls, 1001, False, plain_link)]"

definition entry_fits :: "settings \<Rightarrow> bool" where
  "entry_fits s \<longleftrightarrow> port_findings s = [] \<and> (cf_OnlyProxy s \<longrightarrow> cf_CDN s \<noteq> []) \<and> (cf_Cert s = []) = (cf_Key s = [])"

lemma recipe_pages_fit:
  assumes "(t, port, tls, link) \<in> set recipe_pages"
  shows "\<exists>s. set_all (page_sets t) DefaultSettings = Inr s \<and> EntryPort s = (port, tls) \<and> entry_fits s \<and>
    ClientLink ''vpn.example.com'' (fst (link_target s)) (fst (snd (link_target s))) ''/ws'' ''UUID'' name =
      link @ CHR ''#'' # name"
proof -
  have cdn: "cf_CDN recipe_direct_tls = []" "cf_CDN recipe_cdn_no_certificate \<noteq> []" "cf_CDN recipe_no_tls = []"
    by (simp_all add: DefaultSettings_def)
  have "entry_fits recipe_direct_tls" "entry_fits recipe_cdn" "entry_fits recipe_cdn_no_certificate" "entry_fits recipe_no_tls"
    unfolding entry_fits_def recipe_ports by (simp_all add: DefaultSettings_def)
  note facts = this recipe_settings recipe_entries link_text cdn
  from assms show ?thesis
    unfolding recipe_pages_def by (auto simp: facts link_target_def)
qed

lemma page_values: "(t, port, tls, link) \<in> set recipe_pages \<Longrightarrow> \<forall>x \<in> set (page_sets t). value_ok (snd x)"
  by (auto simp: recipe_pages_def recipe_lines intro!: value_ok_plain) (simp_all add: plain_char_def)



end
