(* ===== verification/Tool_And_Gate.thy ===== *)
theory Tool_And_Gate
  imports Tui_Recipes
begin

text \<open>
  The tool and the running gate together: a command writes the allow list, the next tick of the gate's
  watcher reads it, and the handler answers requests with what it read.
\<close>

text \<open>One tick of the watcher on the allow list of the directory.\<close>

definition tick_allow :: "unicode \<Rightarrow> env \<Rightarrow> paths \<Rightarrow> fsys \<Rightarrow> allow_file \<Rightarrow> allow_file" where
  "tick_allow U g p fs a =
     snd (AllowList_tick U (case statFile g (p_Allow p) fs of Inl _ \<Rightarrow> None | Inr m \<Rightarrow> Some m)
       (observe g (p_Allow p) fs) a)"

lemma tick_allow_map:
  assumes "\<not> e_denied g (p_Allow p)" and "file_text fs (p_Allow p) = Some t" and "gate_map U (Some t) = Some m"
    and "statFile g (p_Allow p) fs \<noteq> Inr (al_modTime a)"
  shows "AllowList_Get (tick_allow U g p fs a) = m"
proof -
  obtain mt where o: "observe g (p_Allow p) fs = OnDisk t (Some mt)" "statFile g (p_Allow p) fs = Inr mt"
    using observe_text [OF assms(1,2)] by blast
  have "seen_value (allow_value U) a (OnDisk t (Some mt)) = Some m"
    using assms(3) by (auto simp: allow_value_def gate_map_def split: sum.splits)
  from allow.tick_good(2) [OF this, of mt] o assms(4) show ?thesis
    by (simp add: tick_allow_def AllowList_Get_def)
qed

lemma gate_map_ids:
  assumes "gate_map U x = Some m" and "lookup m lid = Some y"
  shows "lid = CodeID (Code y)"
  using assms by (auto simp: gate_map_def ParseAllowList_Inr lookup_fold_put find_Some_iff split: option.splits sum.splits)

text \<open>The entries matter to a request only at the id that its token names.\<close>

lemma CheckSkew_lookup:
  assumes "lookup en lid = lookup en' lid" and "CHR ''.'' \<notin> set lid"
  shows "CheckSkew (lid @ ''.'' @ rest) en ks t skew = CheckSkew (lid @ ''.'' @ rest) en' ks t skew"
  unfolding CheckSkew_def append_Cons append_Nil Split_append_sep [OF assms(2)] using assms(1)
  by (simp split: list.split)

lemma handle_lookup:
  assumes "lookup en lid = lookup en' lid" and "CHR ''.'' \<notin> set lid" and "Header_Get r auth_header = lid @ ''.'' @ rest"
  shows "handle opt en ks pc t wall r = handle opt en' ks pc t wall r"
proof -
  have "CheckSkew (Header_Get r auth_header) en ks t (skew_of opt) = CheckSkew (Header_Get r auth_header) en' ks t (skew_of opt)"
    unfolding assms(3) by (rule CheckSkew_lookup [OF assms(1,2)])
  then show ?thesis by (simp only: handle_def)
qed

lemma unlisted_refused:
  assumes "lookup en lid = None" and "CHR ''.'' \<notin> set lid" and "Header_Get r auth_header = lid @ ''.'' @ rest"
  shows "fst (handle opt en ks pc t wall r) \<noteq> Forward r'"
proof
  assume "fst (handle opt en ks pc t wall r) = Forward r'"
  then obtain j where ok: "CheckSkew (lid @ ''.'' @ rest) en ks t (skew_of opt) = (OK, j)"
    unfolding forward_iff assms(3) by blast
  with CheckSkew_lid [OF ok assms(2)] assms(1) show False by (auto simp only: CheckSkew_OK)
qed

lemma RevokeLock_file:
  assumes "RevokeLock U e p pfx fs = (Inr k, fs')" and "p_Allow p \<noteq> e_tmp e" and "file_text fs (e_tmp e) = None"
  shows "file_text fs' (p_Allow p) \<noteq> None"
  using assms(1) writeAtomic_text [OF assms(2) assms(3)]
  by (auto simp: RevokeLock_def Let_def split: option.splits sum.splits prod.splits bool.splits if_splits list.splits)

section \<open>Revoking\<close>

text \<open>
  C3: Revocation, from the command line to the gate: when \<open>oversee revoke\<close> has printed the id of a lock,
  that lock was on the list and matches what was typed, and after the next tick of the watcher the gate
  refuses every request whose token names the lock, whatever its day, its MAC, the keys and the options;
  every request whose token names another lock is answered exactly as with the list before the command.
\<close>

theorem revoke_command_ends_access:
  assumes "main h p [c, pre] fs = (Done out, fs')" and "c = ''revoke'' \<or> c = ''rm''"
    and "gate_map (gl_unicode (mh_libs h)) (file_text fs (p_Allow p)) = Some m"
    and "no_id_collision (good_entries (gl_unicode (mh_libs h)) (text_lines (file_text fs (p_Allow p))))"
    and "no_tmp (mh_env h) p fs" and "\<not> e_denied (mh_env h) (p_Allow p)" and "\<not> e_denied g (p_Allow p)"
    and "statFile g (p_Allow p) fs' \<noteq> Inr (al_modTime a)"
    and "now = AllowList_Get (tick_allow (gl_unicode (mh_libs h)) g p fs' a)"
  shows "\<exists>lid y. HasPrefix out (''revoked '' @ lid) \<and> lookup m lid = Some y \<and>
    (let typed = ToLower (gl_unicode (mh_libs h)) (TrimSpace pre) in HasPrefix lid typed \<or> HasPrefix (Code y) typed) \<and>
    (\<forall>opt ks pc t wall r rest. Header_Get r auth_header = lid @ ''.'' @ rest \<longrightarrow>
       (\<forall>r'. fst (handle opt now ks pc t wall r) \<noteq> Forward r')) \<and>
    (\<forall>opt ks pc t wall r lid' rest. Header_Get r auth_header = lid' @ ''.'' @ rest \<and> CHR ''.'' \<notin> set lid' \<and> lid' \<noteq> lid \<longrightarrow>
       handle opt now ks pc t wall r = handle opt m ks pc t wall r)"
proof -
  let ?U = "gl_unicode (mh_libs h)"
  have tmp: "p_Allow p \<noteq> e_tmp (mh_env h)" "file_text fs (e_tmp (mh_env h)) = None"
    using assms(5) by (simp_all add: no_tmp_def)
  from assms(1,2) obtain k where rev: "RevokeLock ?U (mh_env h) p pre fs = (Inr k, fs')"
    and out: "HasPrefix out (''revoked '' @ lk_CodeID k)"
    by (auto simp: main_def need_def cmd_revoke_def println_def HasPrefix_prefix split: prod.splits sum.splits)
  note eff = RevokeLock_Inr [OF rev assms(3,4) tmp assms(6)]
  from eff(1) obtain y where y: "lookup m (lk_CodeID k) = Some y" "Code y = lk_Code k" by blast
  have nodot: "CHR ''.'' \<notin> set (lk_CodeID k)" using gate_map_ids [OF assms(3) y(1)] CodeID_no_dot by simp
  from eff(2) obtain m' where m': "gate_map ?U (file_text fs' (p_Allow p)) = Some m'"
    "lookup m' = (lookup m)(lk_CodeID k := None)" by blast
  obtain t where t: "file_text fs' (p_Allow p) = Some t" using RevokeLock_file [OF rev tmp] by blast
  have now: "now = m'" using tick_allow_map [OF assms(7) t _ assms(8)] m'(1) t assms(9) by simp
  have refused: "fst (handle opt now ks pc u wall r) \<noteq> Forward r'"
    if "Header_Get r auth_header = lk_CodeID k @ ''.'' @ rest" for opt ks pc u wall r r' rest
    unfolding now by (rule unlisted_refused [OF _ nodot that]) (simp add: m'(2))
  have same: "handle opt now ks pc u wall r = handle opt m ks pc u wall r"
    if "Header_Get r auth_header = lid' @ ''.'' @ rest \<and> CHR ''.'' \<notin> set lid' \<and> lid' \<noteq> lk_CodeID k"
    for opt ks pc u wall r lid' rest
    unfolding now by (rule handle_lookup [of m' lid' m]) (use that m'(2) in auto)
  show ?thesis
    unfolding Let_def
    by (intro exI [of _ "lk_CodeID k"] exI [of _ y] conjI allI impI)
      (use out y eff(3) refused same in \<open>auto\<close>)
qed

section \<open>Adding\<close>

lemma AddLock_entry:
  assumes "AddLock U e p line fs = (Inr k, fs')"
  shows "\<exists>en. parseLine U (TrimSpace line) = Some en \<and> k = lock_of en"
  using assms by (auto simp: AddLock_def Let_def split: option.splits sum.splits prod.splits bool.splits)

lemma token_forwarded_iff:
  assumes "lookup en (CodeID (Code y)) = Some y" and "key \<in> set ks" and "int64 (Unix t0)" and "int64 (Unix u)"
    and "skew_of opt \<le> 7" and "Header_Get r auth_header = Token key (Code y) (CreatorFp y) t0"
    and "origin_ok opt r" and "\<not> is_probe r" and "under_cap opt (CodeID (Code y)) (client_ip opt r) u"
  shows "fst (handle opt en ks pc u wall r) = Forward r \<longleftrightarrow> \<bar>day_of t0 - day_of u\<bar> \<le> skew_of opt"
proof -
  have "0 \<le> skew_of opt" "skew_of opt \<le> 2 ^ 62" "ks \<noteq> []" using assms(2,5) by (auto simp: skew_of_def)
  note check = CheckSkew_Token [OF assms(3,4) this(1,2) assms(1) this(3), of key "CreatorFp y"]
  have "\<exists>k \<in> set ks. mac k (Code y) (CreatorFp y) (day_of t0) = mac key (Code y) (CreatorFp y) (day_of t0)"
    using assms(2) by blast
  then show ?thesis using assms(7-9) unfolding forward_iff assms(6) check by auto
qed

text \<open>
  C4: Adding, from the app to the gate: when \<open>oversee add\<close> has taken the line that the app shows for a lock,
  after the next tick of the watcher a token that the app makes for this lock with a configured key is
  accepted exactly while its day is in the window (on a request that comes the required way and does not
  exceed the cap on addresses), and every request whose token names another lock is answered exactly as
  with the list before the command.
\<close>

theorem add_command_gives_access:
  assumes "main h p (''add'' # words) fs = (Done out, fs')" and "ascii (Join words '' '')"
    and "gate_map (gl_unicode (mh_libs h)) (file_text fs (p_Allow p)) = Some m"
    and "no_tmp (mh_env h) p fs" and "\<not> e_denied (mh_env h) (p_Allow p)" and "\<not> e_denied g (p_Allow p)"
    and "statFile g (p_Allow p) fs' \<noteq> Inr (al_modTime a)"
    and "now = AllowList_Get (tick_allow (gl_unicode (mh_libs h)) g p fs' a)"
  shows "\<exists>en. parseLine (gl_unicode (mh_libs h)) (TrimSpace (Join words '' '')) = Some en \<and>
    (\<forall>opt ks key pc t u wall r. key \<in> set ks \<and> int64 (Unix t) \<and> int64 (Unix u) \<and> skew_of opt \<le> 7 \<and>
       Header_Get r auth_header = Token key (Code en) (CreatorFp en) t \<and> origin_ok opt r \<and> \<not> is_probe r \<and>
       under_cap opt (CodeID (Code en)) (client_ip opt r) u \<longrightarrow>
       (fst (handle opt now ks pc u wall r) = Forward r \<longleftrightarrow> \<bar>day_of t - day_of u\<bar> \<le> skew_of opt)) \<and>
    (\<forall>opt ks pc u wall r lid rest. Header_Get r auth_header = lid @ ''.'' @ rest \<and> CHR ''.'' \<notin> set lid \<and>
       lid \<noteq> CodeID (Code en) \<longrightarrow> handle opt now ks pc u wall r = handle opt m ks pc u wall r)"
proof -
  let ?U = "gl_unicode (mh_libs h)"
  have tmp: "p_Allow p \<noteq> e_tmp (mh_env h)" "file_text fs (e_tmp (mh_env h)) = None"
    using assms(4) by (simp_all add: no_tmp_def)
  from assms(1) obtain k where add: "AddLock ?U (mh_env h) p (Join words '' '') fs = (Inr k, fs')"
    by (auto simp: main_def need_def cmd_add_def split: prod.splits sum.splits if_splits)
  from AddLock_entry [OF add] obtain en where en: "parseLine ?U (TrimSpace (Join words '' '')) = Some en" "k = lock_of en"
    by blast
  have k: "entry_of k = en" "lk_CodeID k = CodeID (Code en)" by (simp add: en(2)) (simp add: en(2) lock_of_def)
  from AddLock_Inr(2) [OF add assms(2,3) tmp assms(5)] obtain m' where
    m': "gate_map ?U (file_text fs' (p_Allow p)) = Some m'" "lookup m' = (lookup m)(CodeID (Code en) \<mapsto> en)"
    by (auto simp: k)
  then obtain t where t: "file_text fs' (p_Allow p) = Some t"
    by (cases "file_text fs' (p_Allow p)") (auto simp: gate_map_def dest: fun_cong [of _ _ "CodeID (Code en)"])
  have now: "now = m'" using tick_allow_map [OF assms(6) t _ assms(7)] m'(1) t assms(8) by simp
  have access: "fst (handle opt now ks pc u wall r) = Forward r \<longleftrightarrow> \<bar>day_of t - day_of u\<bar> \<le> skew_of opt"
    if "key \<in> set ks \<and> int64 (Unix t) \<and> int64 (Unix u) \<and> skew_of opt \<le> 7 \<and>
       Header_Get r auth_header = Token key (Code en) (CreatorFp en) t \<and> origin_ok opt r \<and> \<not> is_probe r \<and>
       under_cap opt (CodeID (Code en)) (client_ip opt r) u" for opt ks key pc t u wall r
    unfolding now by (rule token_forwarded_iff) (use that m'(2) in auto)
  have same: "handle opt now ks pc u wall r = handle opt m ks pc u wall r"
    if "Header_Get r auth_header = lid @ ''.'' @ rest \<and> CHR ''.'' \<notin> set lid \<and> lid \<noteq> CodeID (Code en)"
    for opt ks pc u wall r lid rest
    unfolding now by (rule handle_lookup [of m' lid m]) (use that m'(2) in auto)
  show ?thesis
    by (intro exI [of _ en] conjI allI impI) (use en(1) access same in \<open>auto\<close>)
qed

section \<open>Witnesses\<close>

lemma wit_tick_time:
  fixes x :: "read_error + time"
  obtains a :: allow_file where "x \<noteq> Inr (al_modTime a)"
proof -
  have "x \<noteq> Inr (al_modTime \<lparr>al_cur = [], al_modTime = 0\<rparr>) \<or> x \<noteq> Inr (al_modTime \<lparr>al_cur = [], al_modTime = 1\<rparr>)"
    by auto
  then show thesis using that by blast
qed

lemma wit_lists_no_tmp: "no_tmp wit_env wit_paths wit_listed" "no_tmp wit_env wit_paths wit_empty"
  by (simp_all add: no_tmp_def wit_paths_all wit_conf wit_probe)
    (simp_all add: wit_env_def wit_listed_def wit_empty_def file_text_def)

theorem revoke_command_ends_access_witness:
  "\<exists>out fs' a. main wit_main wit_paths [''revoke'', ''0123''] wit_listed = (Done out, fs') \<and>
     (\<forall>r'. fst (handle wit_options (AllowList_Get (tick_allow wit_unicode wit_env wit_paths fs' a)) [''app-key''] None 0 0
       (wit_request ''192.0.2.9:443'' (CodeID wit_code @ ''.'' @ ''0.00''))) \<noteq> Forward r')"
proof -
  obtain fs' where "RevokeLock wit_unicode wit_env wit_paths ''0123'' wit_listed = (Inr (lock_of wit_entry), fs')"
    using wit_revoke by blast
  then obtain out where run: "main wit_main wit_paths [''revoke'', ''0123''] wit_listed = (Done out, fs')"
    by (simp add: main_def need_def cmd_revoke_def wit_main_simps)
  obtain a :: allow_file where a: "statFile wit_env (p_Allow wit_paths) fs' \<noteq> Inr (al_modTime a)"
    by (rule wit_tick_time)
  let ?now = "AllowList_Get (tick_allow wit_unicode wit_env wit_paths fs' a)"
  have lib: "gl_unicode (mh_libs wit_main) = wit_unicode" "mh_env wit_main = wit_env" by (simp_all add: wit_main_simps)
  have one: "lookup (entries_map wit_unicode [wit_line]) lid = Some y \<Longrightarrow> lid = CodeID wit_code" for lid y
    by (simp add: entries_map_def put_entry_def wit_line_Good wit_entry_def split: if_splits)
  note all = revoke_command_ends_access [of wit_main wit_paths "''revoke''" "''0123''" wit_listed out fs'
      "entries_map wit_unicode [wit_line]" wit_env a ?now, unfolded lib, OF run _ wit_listed_map wit_lists_no_tmp(1)
      wit_free(3) wit_free(3) a refl]
  then obtain lid y where hit: "lookup (entries_map wit_unicode [wit_line]) lid = Some y"
    and refused: "\<And>opt ks pc t wall r rest r'. Header_Get r auth_header = lid @ ''.'' @ rest \<Longrightarrow>
       fst (handle opt ?now ks pc t wall r) \<noteq> Forward r'"
    by metis
  from refused [of "wit_request ''192.0.2.9:443'' (CodeID wit_code @ ''.'' @ ''0.00'')"] one [OF hit]
  have "fst (handle wit_options ?now [''app-key''] None 0 0
      (wit_request ''192.0.2.9:443'' (CodeID wit_code @ ''.'' @ ''0.00''))) \<noteq> Forward r'" for r'
    unfolding wit_token by metis
  with run show ?thesis by blast
qed

theorem add_command_gives_access_witness:
  "\<exists>out fs' a. main wit_main wit_paths [''add'', wit_line] wit_empty = (Done out, fs') \<and>
     fst (handle no_options (AllowList_Get (tick_allow wit_unicode wit_env wit_paths fs' a)) [''app-key''] None
       (FromUnix 43200) 0 (wit_request ''192.0.2.9:443'' (Token ''app-key'' wit_code ''AAAA-0000'' (FromUnix 43200)))) =
     Forward (wit_request ''192.0.2.9:443'' (Token ''app-key'' wit_code ''AAAA-0000'' (FromUnix 43200)))"
proof -
  let ?r = "wit_request ''192.0.2.9:443'' (Token ''app-key'' wit_code ''AAAA-0000'' (FromUnix 43200))"
  obtain fs' where "AddLock wit_unicode wit_env wit_paths wit_line wit_empty = (Inr (lock_of wit_entry), fs')"
    using wit_add by blast
  then obtain out where run: "main wit_main wit_paths (''add'' # [wit_line]) wit_empty = (Done out, fs')"
    by (simp add: main_def need_def cmd_add_def wit_main_simps)
  obtain a :: allow_file where a: "statFile wit_env (p_Allow wit_paths) fs' \<noteq> Inr (al_modTime a)"
    by (rule wit_tick_time)
  let ?now = "AllowList_Get (tick_allow wit_unicode wit_env wit_paths fs' a)"
  have lib: "gl_unicode (mh_libs wit_main) = wit_unicode" "mh_env wit_main = wit_env" by (simp_all add: wit_main_simps)
  have line: "Join [wit_line] '' '' = wit_line" by simp
  have plain: "ascii wit_line" by (simp add: ascii_def wit_line_def)
  have none: "gate_map wit_unicode (file_text wit_empty (p_Allow wit_paths)) = Some []"
    by (simp add: gate_map_def file_text_def wit_empty_def)
  have en: "parseLine wit_unicode (TrimSpace wit_line) = Some wit_entry" by (simp add: wit_line_trimmed wit_line_parse)
  have plain_mode: "origin_ok no_options ?r" "\<not> is_probe ?r" "skew_of no_options = 1"
    "under_cap no_options (CodeID wit_code) (client_ip no_options ?r) (FromUnix 43200)"
    by (simp_all add: origin_ok_def is_probe_def under_cap_def skew_of_def no_options_def wit_request_def ProbePath_def
        HasPrefix_prefix)
  have day: "int64 (Unix (FromUnix 43200))" by (rule int64_Unix_small) simp_all
  have code: "Code wit_entry = wit_code" "CreatorFp wit_entry = ''AAAA-0000''" by (simp_all add: wit_entry_def)
  note all = add_command_gives_access [of wit_main wit_paths "[wit_line]" wit_empty out fs' "[]" wit_env a ?now,
      unfolded lib line, OF run plain none wit_lists_no_tmp(2) wit_free(3) wit_free(3) a refl]
  then have access: "fst (handle opt ?now ks pc u wall r) = Forward r \<longleftrightarrow> \<bar>day_of t - day_of u\<bar> \<le> skew_of opt"
    if "key \<in> set ks \<and> int64 (Unix t) \<and> int64 (Unix u) \<and> skew_of opt \<le> 7 \<and>
       Header_Get r auth_header = Token key wit_code ''AAAA-0000'' t \<and> origin_ok opt r \<and> \<not> is_probe r \<and>
       under_cap opt (CodeID wit_code) (client_ip opt r) u" for opt ks key pc t u wall r
    using that en code by (metis option.inject)
  have "fst (handle no_options ?now [''app-key''] None (FromUnix 43200) 0 ?r) = Forward ?r"
    by (rule access [of "''app-key''" _ "FromUnix 43200", THEN iffD2])
      (use plain_mode day in \<open>simp_all add: wit_token\<close>)
  with run show ?thesis by auto
qed

end
