(* ===== verification/Spec2Isabelle.thy ===== *)
theory Spec2Isabelle
  imports Sha256_Test Gate_Handler Api_Owner Tool_And_Gate
begin

text \<open>
  Verification development of the OverSee server, the Go program under \<open>server/\<close>.

  \<^bold>\<open>The program.\<close>  A client connects to the \<^emph>\<open>gate\<close> (\<open>internal/gate\<close>), a reverse proxy in front of Xray.
  The gate forwards a request only if it carries a token of the day, made with an app key and a lock's
  code and fingerprint; it reads its allow list, keys and trusted CDN networks from files and reloads them
  while it runs, counts connections, limits the addresses of a lock and answers a diagnostic probe.  The
  \<^emph>\<open>tool\<close> \<open>oversee\<close> (\<open>cmd/oversee\<close>, \<open>internal/oversee\<close>, \<open>internal/tui\<close>) writes those files: from the command
  line or from a terminal interface it adds and revokes locks, adds and removes keys, changes settings,
  downloads CDN networks, audits the setup, tests the CDN and starts the gate.  The \<^emph>\<open>API server\<close>
  (\<open>internal/api\<close>, \<open>lock\<close>, \<open>store\<close>, \<open>auth\<close>, \<open>config\<close>) lets owners publish locked configs in channels and hands
  out the key component of a config as long as it is not revoked.  The three share only files: what the
  tool writes the gate reads, and the probe file ties the CDN test to the gate.

  \<^bold>\<open>Library of Go.\<close>  Prelude (Go maps as association lists), Go_Strings, Go_Numbers, Go_Text, Go_Flags and
  Net_IP write out what the sources use of \<open>strings\<close>, \<open>strconv\<close>, \<open>fmt\<close>, \<open>bufio\<close>, \<open>encoding/hex\<close>, \<open>time\<close>,
  \<open>flag\<close> and \<open>net\<close>, on byte strings; Sha256 is SHA-256 and HMAC over 32-bit words, checked on the standard's
  example in Sha256_Test; Os_Files is a file system with owners, modes and faults.  A Go \<open>int\<close> is an \<open>int\<close>
  with the wrap-around at 64 bits written out (\<open>wrap64\<close>) where the code can overflow, and bytes of
  addresses and hash words are machine words.  Errors are the left side of a sum, a \<open>nil\<close> result is \<open>None\<close>.
  Non-ASCII case mapping is a parameter (\<open>unicode\<close>).

  \<^bold>\<open>The gate.\<close>
  \<^item> Gate_Token (\<open>gate.go\<close>: \<open>Entry\<close>, \<open>Token\<close>, \<open>CheckSkew\<close>): which tokens are accepted, and exactly when.
  \<^item> Gate_Lists (\<open>ParseAllowList\<close>, \<open>ParseKeys\<close>), Gate_Reload (\<open>AllowList\<close>, \<open>KeyFile\<close> and a tick of their
    \<open>Watch\<close>): the locale \<open>hot_file\<close> is the contract of a reloaded file, which the two and the trusted
    networks of Gate_Proxy (\<open>proxy.go\<close>) satisfy: a change that parses is taken up, one that does not
    leaves the old value, a file that disappears or empties is refused.
  \<^item> Gate_Limiter (\<open>limiter.go\<close>): the locale \<open>address_limiter\<close> and the automaton of one address that it
    refines; the sweep of old entries changes no answer.
  \<^item> Gate_Stats (\<open>stats.go\<close>): the counters and the cap, also with requests in flight between \<open>AllowIP\<close> and
    \<open>accept\<close> in any order.
  \<^item> Gate_Handler (\<open>newWithClock\<close>, \<open>probe.go\<close>): the handler from the request to the response or to the
    request that is forwarded.

  \<^bold>\<open>The tool.\<close>
  \<^item> Os_Files (\<open>writeAtomic\<close>, \<open>inheritOwner\<close>, \<open>FixPerms\<close>): \<open>writeAtomic\<close> as the list of states a reader may
    see, for each step that may fail; the locale \<open>atomic_replace\<close> is its contract, shared with the gate's
    \<open>WriteOnce\<close>.
  \<^item> Oversee_Settings, Oversee_Locks, Oversee_Proxies (\<open>oversee.go\<close>, \<open>proxylist.go\<close>): the commands as
    functions on the file system.  The locks, keys and networks are refined to the map or list that the
    gate's own parser reads from the written file.
  \<^item> Oversee_Doctor (\<open>doctor.go\<close>): one definition per numbered part of the audit.  The parser of
    /proc/net/tcp is proved against a printer of the kernel's tables.
  \<^item> Oversee_Daemon (\<open>daemon.go\<close>): \<open>RunGate\<close> up to the server it starts, and the certificate reloader.
  \<^item> Oversee_Snippet (\<open>snippet.go\<close>), Oversee_CDNTest (\<open>cdntest.go\<close>, composed with the gate's handler at the
    other end), Oversee_Service (systemd).
  \<^item> Oversee_Frame, Oversee_Main (\<open>cmd/oversee/main.go\<close>): each command writes one file at most.
  \<^item> Tui (\<open>tui.go\<close>: \<open>New\<close>, \<open>Update\<close>, \<open>refresh\<close>): the state machine of the terminal interface; a state is the
    record of \<open>Model\<close>, a step takes a key or a window size.  Tui_Safety has the states that can be reached
    while other programs change the files (\<open>reach\<close>), their invariant, and what a key may change.
  \<^item> Tui_Topics, Tui_Guide (\<open>guide.go\<close>) and Tui_View: the screens.  A Go slice, index or repeat count out of
    range is \<open>None\<close>, so that "no panic" is a theorem.
  \<^item> Oversee_Session: the locale \<open>file_program\<close> is what the command line and the terminal interface share, a
    step changes at most the file it is for; its lemmas carry this to sessions of any length.
  \<^item> Tui_Recipes: the commands on the guide's pages, run on a fresh directory.
  \<^item> Tool_And_Gate: a command of the tool, the watcher's next tick and the handler, in one run.

  \<^bold>\<open>The API server.\<close>
  \<^item> Store (\<open>internal/store\<close>): the tables as lists of rows, every query and update, with a database that may
    fail at any statement.
  \<^item> Lock_Blob (\<open>internal/lock\<close>): key derivation, locked blobs, metadata of a config.
  \<^item> Api, Api_Owner (\<open>internal/api\<close>, \<open>auth\<close>, \<open>config\<close>): the endpoints, with the statements of other requests in
    between, the middleware and the wiring of \<open>Handler\<close>.

  \<^bold>\<open>What the properties say.\<close>  Gate_Token, Gate_Handler, Gate_Limiter, Gate_Stats: the gate lets in exactly
  whom it should, for every request, clock and interleaving.  Oversee_Doctor, Oversee_Daemon: the audit sees
  the mistakes that defeat the gate, and a gate that starts can do its work.  Os_Files, Oversee_Settings,
  Oversee_Locks, Oversee_Proxies, Oversee_Session: the tool does to the files exactly what was asked, also
  when a step fails, and the gate reads it; Tool_And_Gate follows a revocation and an addition from the
  command line to the answers of the gate.  Tui_Safety, Tui_View, Tui_Guide, Tui_Recipes: the terminal
  interface stays well formed, asks before it destroys, acts on what it shows and never panics, and its
  guide agrees with the program.  Oversee_CDNTest, Oversee_Snippet: the diagnostics and the links tell the
  truth.  Store, Lock_Blob, Api, Api_Owner: a published config opens, a revoked one never does again, and
  owners touch only their own.  Each property is named C with a number in the text before it; the theorems
  without one (further counters, ownership of files, limits of the design such as the cap under
  concurrency) stand beside them.

  \<^bold>\<open>Recursion.\<close>  Every loop is structural or has a measure; there is no fuel.  Endless loops (the watchers,
  the daily refresh, the writer of the statistics, the event loop) are modelled by one round, and the
  theorems quantify over any sequence of rounds.

  \<^bold>\<open>Parameters.\<close>  Code that is not in the repository is an argument: AES-GCM, bcrypt, the JWT library,
  \<open>encoding/json\<close>, \<open>encoding/pem\<close> and \<open>crypto/x509\<close>, \<open>url.Parse\<close>, the HTTP client and the CDN, systemctl and
  journalctl, the text field of bubbles and the rendering of lipgloss, random bytes and the clock.  What a
  theorem relies on is a premise with a witness.  Collisions of SHA-256 and HMAC are not assumed away: where
  one would break a property, the statement says so.

  \<^bold>\<open>Not modelled.\<close>  Package \<open>cmd/served\<close> (wiring and signals), \<open>Open\<close>, \<open>Close\<close> and \<open>Ping\<close> of the store (the
  database driver), \<open>withLogging\<close> and \<open>withRecover\<close>, the matching of URL patterns and the transfer of a
  forwarded request (\<open>net/http\<close>), log output, \<open>perms_other.go\<close> (empty), \<open>tui.Run\<close> (bubbletea's event loop); and
  the Flutter app, its native code and the test tools, which are not part of the server.
\<close>

end
